(* ===== verification/Prelude.thy ===== *)
theory Prelude
  imports Main "HOL-Library.Sublist" "HOL-Library.AList" "HOL-Library.State_Monad"
    "HOL-Library.List_Lexorder" "HOL-Library.Char_ord" "HOL-Library.Word" "HOL-Library.Multiset"
begin

text \<open>
  Shared vocabulary of the development: Go error values and outcomes of Go functions
  (a value, an error, or a panic), Go maps as association lists, the sequencing of fallible
  steps inside the state monad, and the generic list facts the components use.
\<close>

section \<open>Automation collections\<close>

named_theorems go_simps \<open>unfolding rules of the Go library functions\<close>
named_theorems run_simps \<open>how a step runs on a world\<close>
named_theorems emit_rules \<open>which calls a step makes\<close>

section \<open>Go errors and outcomes\<close>

text \<open>
  The error codes of Porto the source looks at; every other code is \<open>EError_Other\<close>.
\<close>

datatype eerror = EError_ContainerDoesNotExist | EError_NotSupported | EError_DockerImageNotFound
  | EError_Other nat

text \<open>
  A Go error value. \<open>PortoError\<close> is a \<open>*porto.PortoError\<close>; \<open>OsNotExist\<close> is an error for
  which \<open>os.IsNotExist\<close> holds and \<open>OsError\<close> any other operating-system error; \<open>ExtError\<close>
  is an error of another library (CNI, gRPC, yaml, json). \<open>Errorf\<close> is \<open>fmt.Errorf\<close>
  without an error operand. \<open>FmtV\<close> is \<open>fmt.Errorf\<close> with the error printed by \<open>%v\<close>, which
  keeps its text and drops the error from the unwrap chain; \<open>WrapW\<close> is \<open>fmt.Errorf\<close> with \<open>%w\<close>;
  \<open>Joined\<close> is \<open>errors.Join\<close>.
\<close>

datatype goerr = PortoError eerror string | OsNotExist string | OsExist string | OsError string | ExtError string
  | Errorf string "string list" | FmtV string goerr | WrapW string goerr | Joined "goerr list"

text \<open>\<open>errors.As(err, &portoErr)\<close> follows the \<open>%w\<close> chain and joined errors in their order.\<close>

fun errors_As_PortoError :: "goerr \<Rightarrow> eerror option" where
  "errors_As_PortoError (PortoError c m) = Some c"
| "errors_As_PortoError (WrapW s e) = errors_As_PortoError e"
| "errors_As_PortoError (Joined es) = (case find (\<lambda>c. c \<noteq> None) (map errors_As_PortoError es) of Some c \<Rightarrow> c | None \<Rightarrow> None)"
| "errors_As_PortoError _ = None"

fun is_OsNotExist :: "goerr \<Rightarrow> bool" where
  "is_OsNotExist (OsNotExist p) = True"
| "is_OsNotExist _ = False"

fun is_OsExist :: "goerr \<Rightarrow> bool" where
  "is_OsExist (OsExist p) = True"
| "is_OsExist _ = False"

text \<open>A Go function returning \<open>(T, error)\<close>: a value, an error, or a run-time panic.\<close>

datatype 'a res = Ok 'a | Err goerr | Panic string

fun is_Ok :: "'a res \<Rightarrow> bool" where
  "is_Ok (Ok v) = True"
| "is_Ok _ = False"

fun is_Panic :: "'a res \<Rightarrow> bool" where
  "is_Panic (Panic s) = True"
| "is_Panic _ = False"

fun bind_res :: "'a res \<Rightarrow> ('a \<Rightarrow> 'b res) \<Rightarrow> 'b res" where
  "bind_res (Ok v) f = f v"
| "bind_res (Err e) f = Err e"
| "bind_res (Panic s) f = Panic s"

fun map_err :: "(goerr \<Rightarrow> goerr) \<Rightarrow> 'a res \<Rightarrow> 'a res" where
  "map_err g (Err e) = Err (g e)"
| "map_err g r = r"

lemma bind_res_Ok_iff [simp]: "bind_res r f = Ok v \<longleftrightarrow> (\<exists>u. r = Ok u \<and> f u = Ok v)"
  by (cases r) auto

lemma bind_res_assoc: "bind_res (bind_res r f) g = bind_res r (\<lambda>v. bind_res (f v) g)"
  by (cases r) auto

lemma map_err_Ok_iff [simp]: "map_err g r = Ok v \<longleftrightarrow> r = Ok v"
  by (cases r) auto

lemma map_err_Err_iff [simp]: "map_err g r = Err e \<longleftrightarrow> (\<exists>e'. r = Err e' \<and> e = g e')"
  by (cases r) auto

lemma map_err_Panic_iff [simp]: "map_err g r = Panic s \<longleftrightarrow> r = Panic s"
  by (cases r) auto

lemma is_Ok_iff: "is_Ok r \<longleftrightarrow> (\<exists>v. r = Ok v)"
  by (cases r) auto

lemma is_Panic_iff: "is_Panic r \<longleftrightarrow> (\<exists>s. r = Panic s)"
  by (cases r) auto

section \<open>Fallible steps in the state monad\<close>

text \<open>
  A step of the program is a state transformer. Steps of outside components answer
  \<open>goerr + 'a\<close>; functions of the program answer \<open>'a res\<close>. \<open>call_or\<close> is
  \<open>v, err := f(); if err != nil { return nil, wrap(err) }\<close> on an outside call, \<open>step_or\<close> the
  same on a function of the program, where a panic goes through.
\<close>

type_synonym ('w, 'a) io = "('w, 'a) state"

definition ret :: "'a \<Rightarrow> ('w, 'a) io" where
  "ret v = State_Monad.return v"

definition call_or ::
  "(goerr \<Rightarrow> goerr) \<Rightarrow> ('w, goerr + 'a) io \<Rightarrow> ('a \<Rightarrow> ('w, 'b res) io) \<Rightarrow> ('w, 'b res) io" where
  "call_or g m k = do { r \<leftarrow> m; case r of Inl e \<Rightarrow> ret (Err (g e)) | Inr v \<Rightarrow> k v }"

definition step_or ::
  "(goerr \<Rightarrow> goerr) \<Rightarrow> ('w, 'a res) io \<Rightarrow> ('a \<Rightarrow> ('w, 'b res) io) \<Rightarrow> ('w, 'b res) io" where
  "step_or g m k = do { r \<leftarrow> m; case r of Err e \<Rightarrow> ret (Err (g e)) | Panic s \<Rightarrow> ret (Panic s)
                                       | Ok v \<Rightarrow> k v }"

lemma run_ret [simp, run_simps]: "run_state (ret v) w = (v, w)"
  by (simp add: ret_def)

lemma run_call_or [run_simps]:
  "run_state (call_or g m k) w =
     (case run_state m w of (Inl e, w') \<Rightarrow> (Err (g e), w') | (Inr v, w') \<Rightarrow> run_state (k v) w')"
  by (simp add: call_or_def split: prod.splits sum.splits)

lemma run_step_or [run_simps]:
  "run_state (step_or g m k) w =
     (case run_state m w of (Err e, w') \<Rightarrow> (Err (g e), w') | (Panic s, w') \<Rightarrow> (Panic s, w')
                          | (Ok v, w') \<Rightarrow> run_state (k v) w')"
  by (simp add: step_or_def split: prod.splits res.splits)

section \<open>Go maps\<close>

text \<open>
  A Go map is an association list with distinct keys; the list is one order in which
  \<open>range\<close> may visit it. A store replaces in place or appends.
\<close>

type_synonym ('k, 'v) gomap = "('k \<times> 'v) list"

abbreviation mget :: "('k, 'v) gomap \<Rightarrow> 'k \<Rightarrow> 'v option" where
  "mget m k \<equiv> map_of m k"

abbreviation mset_at :: "'k \<Rightarrow> 'v \<Rightarrow> ('k, 'v) gomap \<Rightarrow> ('k, 'v) gomap" where
  "mset_at k v m \<equiv> AList.update k v m"

definition mget_str :: "('k, string) gomap \<Rightarrow> 'k \<Rightarrow> string" where
  "mget_str m k = (case map_of m k of None \<Rightarrow> [] | Some v \<Rightarrow> v)"

abbreviation wf_map :: "('k, 'v) gomap \<Rightarrow> bool" where
  "wf_map m \<equiv> distinct (map fst m)"

lemma wf_map_update [simp, intro]: "wf_map m \<Longrightarrow> wf_map (AList.update k v m)"
  by (rule distinct_update)

lemma mget_str_update [simp]:
  "mget_str (AList.update k v m) k' = (if k' = k then v else mget_str m k')"
  by (simp add: mget_str_def update_conv')

lemma map_of_eq_of_perm:
  assumes "wf_map m" "mset m' = mset m"
  shows "map_of m' = map_of m"
proof -
  have "mset (map fst m') = mset (map fst m)"
    using assms(2) by simp
  with assms(1) have "distinct (map fst m')"
    by (metis mset_eq_imp_distinct_iff)
  with assms show ?thesis
    by (metis map_of_inject_set set_mset_mset)
qed

section \<open>Lists\<close>

lemma nonempty_snoc: "xs \<noteq> [] \<longleftrightarrow> (\<exists>ys y. xs = ys @ [y])"
  by (metis append_butlast_last_id snoc_eq_iff_butlast)

lemma map_filter_filter: "List.map_filter f xs = map (the \<circ> f) (filter (\<lambda>x. f x \<noteq> None) xs)"
  by (induction xs) (auto simp: List.map_filter_simps split: option.splits)

text \<open>A number that is no key of a list: one more than the sum of the keys.\<close>

lemma unused_key: "int (Suc (\<Sum>f\<leftarrow>fs. nat (fst f))) \<notin> fst ` set fs"
proof
  assume "int (Suc (\<Sum>f\<leftarrow>fs. nat (fst f))) \<in> fst ` set fs"
  then obtain f where f: "f \<in> set fs" "fst f = int (Suc (\<Sum>f\<leftarrow>fs. nat (fst f)))" by auto
  from f(1) have "nat (fst f) \<in> set (map (\<lambda>f. nat (fst f)) fs)" by simp
  then have "nat (fst f) \<le> (\<Sum>f\<leftarrow>fs. nat (fst f))" by (rule member_le_sum_list) simp
  with f(2) show False by simp
qed

end
