(* ===== verification/Go_Strings.thy ===== *)
theory Go_Strings
  imports Prelude
begin

text \<open>
  The functions of Go's package strings that the program calls, on byte strings
  (\<open>string\<close> is a list of bytes, as a Go string is), with the laws the components use:
  splitting and joining, trimming, prefixes, replacement, and sorting in byte order.
\<close>

section \<open>Splitting and joining\<close>

text \<open>\<open>strings.Split(s, sep)\<close> for the one-byte separators of the program.\<close>

fun Split :: "char \<Rightarrow> string \<Rightarrow> string list" where
  "Split c [] = [[]]"
| "Split c (x # xs) =
     (if x = c then [] # Split c xs
      else case Split c xs of [] \<Rightarrow> [[x]] | y # ys \<Rightarrow> (x # y) # ys)"

text \<open>\<open>strings.SplitN(s, sep, 2)\<close>: cut at the first separator.\<close>

fun cut_at :: "char \<Rightarrow> string \<Rightarrow> string \<times> string option" where
  "cut_at c [] = ([], None)"
| "cut_at c (x # xs) = (if x = c then ([], Some xs) else (case cut_at c xs of (a, b) \<Rightarrow> (x # a, b)))"

definition SplitN2 :: "char \<Rightarrow> string \<Rightarrow> string list" where
  "SplitN2 c s = (case cut_at c s of (a, None) \<Rightarrow> [a] | (a, Some b) \<Rightarrow> [a, b])"

fun Join :: "string \<Rightarrow> string list \<Rightarrow> string" where
  "Join sep [] = []"
| "Join sep [x] = x"
| "Join sep (x # xs) = x @ sep @ Join sep xs"

definition count_char :: "char \<Rightarrow> string \<Rightarrow> nat" where
  "count_char c s = length (filter (\<lambda>x. x = c) s)"

lemma Split_neq_Nil [simp]: "Split c s \<noteq> []"
  by (induction s) (auto split: list.splits)

lemma Join_Split [simp]: "Join [c] (Split c s) = s"
proof (induction s)
  case (Cons x s)
  obtain y ys where y: "Split c s = y # ys"
    by (cases "Split c s") auto
  with Cons.IH have "Join [c] (y # ys) = s" by simp
  then show ?case
    by (cases ys) (auto simp: y)
qed simp

lemma Split_no_sep [simp]: "c \<notin> set s \<Longrightarrow> Split c s = [s]"
  by (induction s) auto

lemma Split_append_sep: "c \<notin> set s \<Longrightarrow> Split c (s @ c # t) = s # Split c t"
  by (induction s) auto

lemma Split_Join:
  assumes "xs \<noteq> []" "\<And>x. x \<in> set xs \<Longrightarrow> c \<notin> set x"
  shows "Split c (Join [c] xs) = xs"
  using assms
proof (induction xs rule: induct_list012)
  case (3 x y zs)
  then have "c \<notin> set x" "Split c (Join [c] (y # zs)) = y # zs" by auto
  then show ?case by (simp add: Split_append_sep)
qed auto

lemma Split_parts_no_sep: "p \<in> set (Split c s) \<Longrightarrow> c \<notin> set p"
  by (induction s arbitrary: p) (auto split: list.splits if_splits)

lemma length_Split: "length (Split c s) = Suc (count_char c s)"
  by (induction s) (auto simp: count_char_def split: list.splits)

lemma Split_append_gen:
  "Split c (s @ t) = butlast (Split c s) @ (last (Split c s) @ hd (Split c t)) # tl (Split c t)"
proof (induction s)
  case Nil
  then show ?case by simp
next
  case (Cons x s)
  show ?case
  proof (cases "x = c")
    case True
    with Cons show ?thesis by simp
  next
    case False
    obtain y ys where y: "Split c s = y # ys" by (cases "Split c s") auto
    show ?thesis using False Cons y by (cases ys) auto
  qed
qed

lemma Split_concat_sep: "Split c (s @ c # t) = Split c s @ Split c t"
  by (subst Split_append_gen) (simp add: append_butlast_last_id flip: append_assoc)

lemma count_char_append [simp]: "count_char c (s @ t) = count_char c s + count_char c t"
  by (simp add: count_char_def)

lemma count_char_Cons [simp]:
  "count_char c (x # s) = (if x = c then Suc (count_char c s) else count_char c s)"
  by (simp add: count_char_def)

lemma count_char_Nil [simp]: "count_char c [] = 0"
  by (simp add: count_char_def)

lemma count_char_eq_0 [simp]: "count_char c s = 0 \<longleftrightarrow> c \<notin> set s"
  by (induction s) auto

lemma cut_at_None_iff: "snd (cut_at c s) = None \<longleftrightarrow> c \<notin> set s"
  by (induction s) (auto split: prod.splits)

lemma cut_at_no_sep [simp]: "c \<notin> set s \<Longrightarrow> cut_at c s = (s, None)"
  by (induction s) auto

lemma cut_at_append [simp]: "c \<notin> set s \<Longrightarrow> cut_at c (s @ c # t) = (s, Some t)"
  by (induction s) auto

lemma cut_at_Some: "cut_at c s = (a, Some b) \<Longrightarrow> s = a @ c # b \<and> c \<notin> set a"
  by (induction s arbitrary: a) (auto split: prod.splits if_splits)

lemma SplitN2_append [simp]: "c \<notin> set s \<Longrightarrow> SplitN2 c (s @ c # t) = [s, t]"
  by (simp add: SplitN2_def)

lemma length_SplitN2: "length (SplitN2 c s) < 2 \<longleftrightarrow> c \<notin> set s"
  using cut_at_None_iff [of c s] by (auto simp: SplitN2_def split: prod.splits option.splits)

section \<open>Prefixes and suffixes\<close>

abbreviation HasPrefix :: "string \<Rightarrow> string \<Rightarrow> bool" where
  "HasPrefix s p \<equiv> prefix p s"

abbreviation HasSuffix :: "string \<Rightarrow> string \<Rightarrow> bool" where
  "HasSuffix s p \<equiv> suffix p s"

definition TrimPrefix :: "string \<Rightarrow> string \<Rightarrow> string" where
  "TrimPrefix s p = (if prefix p s then drop (length p) s else s)"

definition TrimSuffix :: "string \<Rightarrow> string \<Rightarrow> string" where
  "TrimSuffix s p = (if suffix p s then take (length s - length p) s else s)"

lemma TrimPrefix_append [simp]: "TrimPrefix (p @ s) p = s"
  by (simp add: TrimPrefix_def)

lemma TrimSuffix_append [simp]: "TrimSuffix (s @ p) p = s"
  by (simp add: TrimSuffix_def suffix_def)

text \<open>\<open>strings.LastIndex(s, c)\<close>, \<open>None\<close> for \<open>-1\<close>; the part after the last separator.\<close>

fun after_last :: "char \<Rightarrow> string \<Rightarrow> string option" where
  "after_last c [] = None"
| "after_last c (x # xs) =
     (case after_last c xs of Some t \<Rightarrow> Some t | None \<Rightarrow> if x = c then Some xs else None)"

lemma after_last_None [simp]: "after_last c s = None \<longleftrightarrow> c \<notin> set s"
  by (induction s) (auto split: option.splits)

lemma after_last_Some: "after_last c s = Some t \<Longrightarrow> c \<notin> set t \<and> (\<exists>u. s = u @ c # t)"
proof (induction s)
  case (Cons x s)
  show ?case
  proof (cases "after_last c s")
    case None
    with Cons.prems show ?thesis by (auto split: if_splits)
  next
    case (Some t')
    with Cons obtain u where "s = u @ c # t" "c \<notin> set t" by auto
    then show ?thesis by (metis append_Cons)
  qed
qed simp

section \<open>Containment and replacement\<close>

fun Contains :: "string \<Rightarrow> string \<Rightarrow> bool" where
  "Contains [] p = (p = [])"
| "Contains (x # xs) p = (prefix p (x # xs) \<or> Contains xs p)"

text \<open>\<open>strings.ReplaceAll(s, old, new)\<close> for a non-empty \<open>old\<close>: leftmost, non-overlapping.\<close>

function ReplaceAll :: "string \<Rightarrow> string \<Rightarrow> string \<Rightarrow> string" where
  "ReplaceAll old new s =
     (if old = [] then s
      else if prefix old s then new @ ReplaceAll old new (drop (length old) s)
      else case s of [] \<Rightarrow> [] | x # xs \<Rightarrow> x # ReplaceAll old new xs)"
  by pat_completeness auto
termination
  by (relation "measure (\<lambda>(old, new, s). length s)") (auto simp: prefix_def)

declare ReplaceAll.simps [simp del]

lemma ReplaceAll_Nil [simp]: "ReplaceAll old new [] = []"
  by (subst ReplaceAll.simps) (auto simp: prefix_Nil)

lemma ReplaceAll_match [simp]:
  "old \<noteq> [] \<Longrightarrow> ReplaceAll old new (old @ s) = new @ ReplaceAll old new s"
  by (subst ReplaceAll.simps) auto

lemma ReplaceAll_skip:
  "\<not> prefix old (x # xs) \<Longrightarrow> old \<noteq> [] \<Longrightarrow> ReplaceAll old new (x # xs) = x # ReplaceAll old new xs"
  by (subst ReplaceAll.simps) auto

lemma ReplaceAll_no_head:
  assumes "old \<noteq> []" "hd old \<notin> set s"
  shows "ReplaceAll old new (s @ t) = s @ ReplaceAll old new t"
  using assms(2)
proof (induction s)
  case (Cons x s)
  from assms(1) Cons.prems have "\<not> prefix old (x # s @ t)"
    by (cases old) auto
  with assms(1) Cons show ?case by (simp add: ReplaceAll_skip)
qed simp

section \<open>Trimming white space\<close>

text \<open>
  \<open>strings.TrimSpace\<close> removes white space as Unicode defines it: the ASCII ones and the
  UTF-8 encodings of U+0085, U+00A0, U+1680, U+2000 to U+200A, U+2028, U+2029, U+202F,
  U+205F and U+3000. Each encoding is recognised at either end of the string.
\<close>

definition space_seqs :: "string list" where
  "space_seqs =
     [[CHR 0x20], [CHR 0x09], [CHR 0x0A], [CHR 0x0B], [CHR 0x0C], [CHR 0x0D],
      [CHR 0xC2, CHR 0x85], [CHR 0xC2, CHR 0xA0], [CHR 0xE1, CHR 0x9A, CHR 0x80],
      [CHR 0xE2, CHR 0x80, CHR 0x80], [CHR 0xE2, CHR 0x80, CHR 0x81],
      [CHR 0xE2, CHR 0x80, CHR 0x82], [CHR 0xE2, CHR 0x80, CHR 0x83],
      [CHR 0xE2, CHR 0x80, CHR 0x84], [CHR 0xE2, CHR 0x80, CHR 0x85],
      [CHR 0xE2, CHR 0x80, CHR 0x86], [CHR 0xE2, CHR 0x80, CHR 0x87],
      [CHR 0xE2, CHR 0x80, CHR 0x88], [CHR 0xE2, CHR 0x80, CHR 0x89],
      [CHR 0xE2, CHR 0x80, CHR 0x8A], [CHR 0xE2, CHR 0x80, CHR 0xA8],
      [CHR 0xE2, CHR 0x80, CHR 0xA9], [CHR 0xE2, CHR 0x80, CHR 0xAF],
      [CHR 0xE2, CHR 0x81, CHR 0x9F], [CHR 0xE3, CHR 0x80, CHR 0x80]]"

fun strip_one :: "string list \<Rightarrow> string \<Rightarrow> string option" where
  "strip_one [] s = None"
| "strip_one (p # ps) s = (if p \<noteq> [] \<and> prefix p s then Some (drop (length p) s) else strip_one ps s)"

lemma strip_one_shorter: "strip_one ps s = Some t \<Longrightarrow> length t < length s"
  by (induction ps) (auto simp: prefix_def split: if_splits)

function trim_with :: "string list \<Rightarrow> string \<Rightarrow> string" where
  "trim_with ps s = (case strip_one ps s of None \<Rightarrow> s | Some t \<Rightarrow> trim_with ps t)"
  by pat_completeness auto
termination
  by (relation "measure (\<lambda>(ps, s). length s)") (auto dest: strip_one_shorter)

declare trim_with.simps [simp del]

definition TrimSpace :: "string \<Rightarrow> string" where
  "TrimSpace s = rev (trim_with (map rev space_seqs) (rev (trim_with space_seqs s)))"

text \<open>The ASCII characters that are not white space are the only ones at the ends of most
  strings of the program; such ends are left alone.\<close>

definition plain_char :: "char \<Rightarrow> bool" where
  "plain_char c \<longleftrightarrow> 33 \<le> (of_char c :: nat) \<and> (of_char c :: nat) < 127"

lemma strip_one_None:
  "(\<forall>p \<in> set ps. p \<noteq> [] \<longrightarrow> \<not> prefix p s) \<Longrightarrow> strip_one ps s = None"
  by (induction ps) auto

lemma space_seqs_all:
  "list_all (\<lambda>p. p \<noteq> [] \<and> \<not> plain_char (hd p) \<and> \<not> plain_char (last p)) space_seqs"
  by (simp add: space_seqs_def plain_char_def)

lemma space_seqs_hd: "p \<in> set space_seqs \<Longrightarrow> p \<noteq> [] \<and> \<not> plain_char (hd p) \<and> \<not> plain_char (last p)"
  using space_seqs_all by (auto simp: list_all_iff)

lemma prefix_hd: "prefix p s \<Longrightarrow> p \<noteq> [] \<Longrightarrow> s \<noteq> [] \<and> hd p = hd s"
  by (auto simp: prefix_def)

lemma trim_with_plain_hd:
  assumes "\<And>p. p \<in> set ps \<Longrightarrow> p \<noteq> [] \<and> \<not> plain_char (hd p)" "s = [] \<or> plain_char (hd s)"
  shows "trim_with ps s = s"
proof -
  have "strip_one ps s = None"
  proof (rule strip_one_None, intro ballI impI notI)
    fix p assume p: "p \<in> set ps" "p \<noteq> []" "prefix p s"
    then have "hd p = hd s" "s \<noteq> []" using prefix_hd by auto
    with assms(1) [OF p(1)] assms(2) show False by simp
  qed
  then show ?thesis by (subst trim_with.simps) simp
qed

lemma TrimSpace_plain:
  assumes "s = [] \<or> plain_char (hd s) \<and> plain_char (last s)"
  shows "TrimSpace s = s"
proof -
  have 1: "trim_with space_seqs s = s"
    using assms by (intro trim_with_plain_hd) (auto dest: space_seqs_hd)
  have 2: "trim_with (map rev space_seqs) (rev s) = rev s"
    using assms by (intro trim_with_plain_hd) (auto dest: space_seqs_hd simp: hd_rev)
  show ?thesis by (simp add: TrimSpace_def 1 2)
qed

text \<open>One ASCII blank in front of the string goes.\<close>

lemma TrimSpace_blank: "TrimSpace (CHR '' '' # s) = TrimSpace s"
proof -
  have "strip_one space_seqs (CHR '' '' # s) = Some s"
    by (simp add: space_seqs_def)
  then have "trim_with space_seqs (CHR '' '' # s) = trim_with space_seqs s"
    by (subst trim_with.simps) simp
  then show ?thesis by (simp add: TrimSpace_def)
qed

section \<open>Fields\<close>

text \<open>\<open>strings.Fields\<close>: the runs of characters between white space; \<open>acc\<close> is the current run.\<close>

function fields :: "string \<Rightarrow> string \<Rightarrow> string list" where
  "fields acc s =
     (case strip_one space_seqs s of
        Some t \<Rightarrow> (if acc = [] then [] else [acc]) @ fields [] t
      | None \<Rightarrow> (case s of [] \<Rightarrow> if acc = [] then [] else [acc] | c # cs \<Rightarrow> fields (acc @ [c]) cs))"
  by pat_completeness auto
termination
  by (relation "measure (\<lambda>(acc, s). length s)") (auto dest: strip_one_shorter)

declare fields.simps [simp del]

abbreviation Fields :: "string \<Rightarrow> string list" where
  "Fields s \<equiv> fields [] s"

definition plain_word :: "string \<Rightarrow> bool" where
  "plain_word t \<longleftrightarrow> t \<noteq> [] \<and> list_all plain_char t"

lemma fields_plain: "list_all plain_char t \<Longrightarrow> fields acc (t @ s) = fields (acc @ t) s"
proof (induction t arbitrary: acc)
  case (Cons c t)
  then have "strip_one space_seqs (c # t @ s) = None"
    by (intro strip_one_None) (auto dest!: space_seqs_hd prefix_hd)
  with Cons show ?case by (subst fields.simps) simp
qed simp

lemma fields_blank: "fields acc (CHR '' '' # s) = (if acc = [] then [] else [acc]) @ fields [] s"
  by (subst fields.simps) (simp add: space_seqs_def)

lemma fields_Nil: "fields acc [] = (if acc = [] then [] else [acc])"
  by (subst fields.simps) (simp add: space_seqs_def)

lemma Fields_Join: "list_all plain_word ts \<Longrightarrow> Fields (Join '' '' ts) = ts"
proof (induction ts rule: induct_list012)
  case (2 t)
  then show ?case using fields_plain [of t "[]" "[]"] by (simp add: plain_word_def fields_Nil)
next
  case (3 t u ts)
  then show ?case
    using fields_plain [of t "[]" "CHR '' '' # Join '' '' (u # ts)"]
    by (simp add: plain_word_def fields_blank)
qed (simp add: fields_Nil)

section \<open>Sorting strings\<close>

text \<open>\<open>sort.Strings\<close>: byte order, the order of \<open>string\<close> here.\<close>

abbreviation sort_Strings :: "string list \<Rightarrow> string list" where
  "sort_Strings xs \<equiv> sort xs"

lemma sort_Strings_perm: "mset xs = mset ys \<Longrightarrow> sort_Strings xs = sort_Strings (ys :: string list)"
  by (metis properties_for_sort sorted_sort mset_sort)

end
