(* ===== verification/Go_Numbers.thy ===== *)
theory Go_Numbers
  imports Go_Strings
begin

text \<open>
  Go's decimal printing and the parsers of package strconv the program calls, with integers
  at their width: \<open>uint64\<close> and \<open>int64\<close> are \<open>64 word\<close>, \<open>uint32\<close> and \<open>int32\<close> are \<open>32 word\<close>,
  signed values being read by \<open>sint\<close>.
\<close>

type_synonym u64 = "64 word"
type_synonym i64 = "64 word"
type_synonym u32 = "32 word"
type_synonym i32 = "32 word"

section \<open>Printing\<close>

definition digit_char :: "nat \<Rightarrow> char" where
  "digit_char d = char_of (48 + d)"

text \<open>\<open>%d\<close> of a non-negative integer.\<close>

fun dec :: "nat \<Rightarrow> string" where
  "dec n = (if n < 10 then [digit_char n] else dec (n div 10) @ [digit_char (n mod 10)])"

declare dec.simps [simp del]

text \<open>\<open>%d\<close> of any integer, and \<open>strconv.Itoa\<close>.\<close>

definition itoa :: "int \<Rightarrow> string" where
  "itoa n = (if n < 0 then CHR ''-'' # dec (nat (- n)) else dec (nat n))"

text \<open>\<open>%04x\<close> of a value below 65536 (at least four digits of lower-case hexadecimal).\<close>

definition hex_char :: "nat \<Rightarrow> char" where
  "hex_char d = (if d < 10 then char_of (48 + d) else char_of (87 + d))"

fun hex :: "nat \<Rightarrow> string" where
  "hex n = (if n < 16 then [hex_char n] else hex (n div 16) @ [hex_char (n mod 16)])"

declare hex.simps [simp del]

definition hex04 :: "nat \<Rightarrow> string" where
  "hex04 n = (let s = hex n in replicate (4 - length s) (CHR ''0'') @ s)"

lemma length_hex: "n < 16 ^ Suc k \<Longrightarrow> length (hex n) \<le> Suc k"
proof (induction k arbitrary: n)
  case 0
  then show ?case by (subst hex.simps) simp
next
  case (Suc k)
  then have "length (hex (n div 16)) \<le> Suc k"
    by (intro Suc.IH) (simp add: less_mult_imp_div_less)
  then show ?case by (subst hex.simps) simp
qed

lemma length_hex04: "n < 65536 \<Longrightarrow> length (hex04 n) = 4"
  using length_hex [of n 3] by (simp add: hex04_def Let_def)

lemma hex_char_plain: "d < 16 \<Longrightarrow> hex_char d \<noteq> CHR ''/'' \<and> plain_char (hex_char d)"
proof -
  assume "d < 16"
  then have "d \<in> set [0..<16]" by simp
  moreover have "list_all (\<lambda>d. hex_char d \<noteq> CHR ''/'' \<and> plain_char (hex_char d)) [0..<16]"
    by code_simp
  ultimately show ?thesis by (simp add: list_all_iff)
qed

lemma hex_no_slash: "CHR ''/'' \<notin> set (hex n)"
proof (induction n rule: hex.induct)
  case (1 n)
  then show ?case
    by (subst hex.simps) (use hex_char_plain [of n] hex_char_plain [of "n mod 16"] in \<open>auto dest: sym\<close>)
qed

lemma hex04_no_slash: "CHR ''/'' \<notin> set (hex04 n)"
  using hex_no_slash [of n] by (auto simp: hex04_def Let_def)

section \<open>Parsing\<close>

datatype numerr = ErrSyntax | ErrRange

definition digit_val :: "char \<Rightarrow> nat option" where
  "digit_val c =
     (let n = (of_char c :: nat) in if 48 \<le> n \<and> n \<le> 57 then Some (n - 48) else None)"

text \<open>
  The digit loop of \<open>strconv.ParseUint(s, 10, bits)\<close>: it stops at the first character that is
  no digit (\<open>ErrSyntax\<close>, value 0) or at the first digit that overflows (\<open>ErrRange\<close>, the
  maximum), whichever comes first.
\<close>

fun scan_digits :: "nat \<Rightarrow> nat \<Rightarrow> string \<Rightarrow> nat \<times> numerr option" where
  "scan_digits mx n [] = (n, None)"
| "scan_digits mx n (c # cs) =
     (case digit_val c of
        None \<Rightarrow> (0, Some ErrSyntax)
      | Some d \<Rightarrow> if 10 * n + d > mx then (mx, Some ErrRange) else scan_digits mx (10 * n + d) cs)"

definition parse_uint :: "nat \<Rightarrow> string \<Rightarrow> nat \<times> numerr option" where
  "parse_uint bits s = (if s = [] then (0, Some ErrSyntax) else scan_digits (2 ^ bits - 1) 0 s)"

text \<open>\<open>strconv.ParseInt(s, 10, bits)\<close>, and \<open>strconv.Atoi\<close>, which is the same at 64 bits.\<close>

definition parse_int :: "nat \<Rightarrow> string \<Rightarrow> int \<times> numerr option" where
  "parse_int bits s =
     (case s of
        [] \<Rightarrow> (0, Some ErrSyntax)
      | c # cs \<Rightarrow>
          let neg = (c = CHR ''-'');
              t = (if c = CHR ''+'' \<or> c = CHR ''-'' then cs else s);
              (un, e) = parse_uint bits t;
              cutoff = (2 :: int) ^ (bits - 1)
          in if e = Some ErrSyntax then (0, Some ErrSyntax)
             else if \<not> neg \<and> int un \<ge> cutoff then (cutoff - 1, Some ErrRange)
             else if neg \<and> int un > cutoff then (- cutoff, Some ErrRange)
             else ((if neg then - int un else int un), None))"

abbreviation Atoi :: "string \<Rightarrow> int \<times> numerr option" where
  "Atoi s \<equiv> parse_int 64 s"

section \<open>Numbers with a base prefix\<close>

text \<open>
  The value \<open>strconv.ParseUint(s, 0, bits)\<close> returns beside its error: the prefixes "0x", "0o", "0b"
  and "0" choose the base, underscores may separate digits; 0 on a syntax error, the maximum on
  overflow, whichever comes first.
\<close>

definition alnum_val :: "char \<Rightarrow> nat option" where
  "alnum_val c = (let n = (of_char c :: nat) in
     if 48 \<le> n \<and> n \<le> 57 then Some (n - 48)
     else if 97 \<le> n \<and> n \<le> 122 then Some (n - 87)
     else if 65 \<le> n \<and> n \<le> 90 then Some (n - 55) else None)"

fun scan_base :: "nat \<Rightarrow> nat \<Rightarrow> nat \<Rightarrow> string \<Rightarrow> nat \<times> numerr option" where
  "scan_base base mx n [] = (n, None)"
| "scan_base base mx n (c # cs) =
     (if c = CHR ''_'' then scan_base base mx n cs
      else case alnum_val c of
        None \<Rightarrow> (0, Some ErrSyntax)
      | Some d \<Rightarrow> if d \<ge> base then (0, Some ErrSyntax)
          else if base * n + d > mx then (mx, Some ErrRange) else scan_base base mx (base * n + d) cs)"

text \<open>\<open>underscoreOK\<close>: \<open>prev\<close> is what came before, a digit, an underscore or something else.\<close>

datatype seen = SeenDigit | SeenUnderscore | SeenOther

fun underscores_ok :: "bool \<Rightarrow> seen \<Rightarrow> string \<Rightarrow> bool" where
  "underscores_ok hx prev [] \<longleftrightarrow> prev \<noteq> SeenUnderscore"
| "underscores_ok hx prev (c # cs) \<longleftrightarrow>
     (if digit_val c \<noteq> None \<or> hx \<and> (case alnum_val c of Some d \<Rightarrow> d < 16 | None \<Rightarrow> False)
      then underscores_ok hx SeenDigit cs
      else if c = CHR ''_'' then prev = SeenDigit \<and> underscores_ok hx SeenUnderscore cs
      else prev \<noteq> SeenUnderscore \<and> underscores_ok hx SeenOther cs)"

definition base_prefix :: "string \<Rightarrow> nat \<times> string" where
  "base_prefix s = (case s of
     z # b # rest \<Rightarrow>
       if z \<noteq> CHR ''0'' then (10, s)
       else if rest \<noteq> [] \<and> b \<in> set ''bB'' then (2, rest)
       else if rest \<noteq> [] \<and> b \<in> set ''oO'' then (8, rest)
       else if rest \<noteq> [] \<and> b \<in> set ''xX'' then (16, rest)
       else (8, b # rest)
   | [z] \<Rightarrow> if z = CHR ''0'' then (8, []) else (10, s)
   | [] \<Rightarrow> (10, []))"

definition underscoreOK :: "string \<Rightarrow> bool" where
  "underscoreOK s = (case s of
     z # b # rest \<Rightarrow> if z = CHR ''0'' \<and> b \<in> set ''bBoOxX'' then underscores_ok (b \<in> set ''xX'') SeenDigit rest
                     else underscores_ok False SeenOther s
   | _ \<Rightarrow> underscores_ok False SeenOther s)"

definition parse_uint0 :: "nat \<Rightarrow> string \<Rightarrow> nat" where
  "parse_uint0 bits s =
     (if s = [] then 0
      else let (base, t) = base_prefix s; (n, e) = scan_base base (2 ^ bits - 1) 0 t
           in if e = None \<and> CHR ''_'' \<in> set s \<and> \<not> underscoreOK s then 0 else n)"

section \<open>Printing and parsing agree\<close>

lemma digit_val_digit_char [simp]: "d < 10 \<Longrightarrow> digit_val (digit_char d) = Some d"
  by (simp add: digit_val_def digit_char_def Let_def)

lemma dec_neq_Nil [simp]: "dec n \<noteq> []"
  by (subst dec.simps) simp

lemma scan_digits_append:
  "scan_digits mx n s = (m, None) \<Longrightarrow> scan_digits mx n (s @ t) = scan_digits mx m t"
  by (induction s arbitrary: n) (auto split: option.splits if_splits)

lemma scan_digits_dec: "n \<le> mx \<Longrightarrow> scan_digits mx 0 (dec n) = (n, None)"
proof (induction n rule: dec.induct)
  case (1 n)
  show ?case
  proof (cases "n < 10")
    case True
    with 1 show ?thesis by (simp add: dec.simps)
  next
    case False
    with 1 have "scan_digits mx 0 (dec (n div 10)) = (n div 10, None)" by simp
    then have "scan_digits mx 0 (dec (n div 10) @ [digit_char (n mod 10)]) = (n, None)"
      using 1 by (subst scan_digits_append) auto
    with False show ?thesis by (subst dec.simps) simp
  qed
qed

lemma parse_uint_dec: "n < 2 ^ bits \<Longrightarrow> parse_uint bits (dec n) = (n, None)"
  by (simp add: parse_uint_def scan_digits_dec)

lemma scan_digits_bound: "n \<le> mx \<Longrightarrow> fst (scan_digits mx n s) \<le> mx"
  by (induction s arbitrary: n) (auto split: option.splits)

lemma parse_uint_bound: "fst (parse_uint bits s) < 2 ^ bits"
proof -
  have "fst (parse_uint bits s) \<le> 2 ^ bits - 1"
    by (simp add: parse_uint_def scan_digits_bound)
  then show ?thesis
    by (meson le_less_trans diff_less zero_less_numeral zero_less_power zero_less_one)
qed

lemma parse_int_range:
  "- (2 ^ (bits - 1)) \<le> fst (parse_int bits s) \<and> fst (parse_int bits s) < 2 ^ (bits - 1)"
proof (cases s)
  case Nil
  then show ?thesis by (simp add: parse_int_def)
next
  case (Cons c cs)
  let ?C = "(2 :: int) ^ (bits - 1)"
  obtain un e where u: "parse_uint bits (if c = CHR ''+'' \<or> c = CHR ''-'' then cs else s) = (un, e)"
    by (cases "parse_uint bits (if c = CHR ''+'' \<or> c = CHR ''-'' then cs else s)")
  have C: "0 < ?C" by simp
  have "parse_int bits s =
      (if e = Some ErrSyntax then (0, Some ErrSyntax)
       else if c \<noteq> CHR ''-'' \<and> int un \<ge> ?C then (?C - 1, Some ErrRange)
       else if c = CHR ''-'' \<and> int un > ?C then (- ?C, Some ErrRange)
       else ((if c = CHR ''-'' then - int un else int un), None))"
    unfolding parse_int_def Cons list.case Let_def u [unfolded Cons] by simp
  moreover have "0 \<le> int un" by simp
  ultimately show ?thesis using C by (smt (verit) fst_conv)
qed

lemma hd_dec: "digit_val (hd (dec n)) \<noteq> None"
proof (induction n rule: dec.induct)
  case (1 n)
  then show ?case by (cases "n < 10") (simp_all add: dec.simps [of n])
qed

lemma parse_int_dec:
  assumes "n < 2 ^ (bits - 1)" "0 < bits"
  shows "parse_int bits (dec n) = (int n, None)"
proof -
  obtain c cs where c: "dec n = c # cs" by (cases "dec n") auto
  with hd_dec [of n] have nsign: "c \<noteq> CHR ''+''" "c \<noteq> CHR ''-''"
    by (auto simp: digit_val_def)
  have "n < 2 ^ bits"
    using assms by (meson less_le_trans power_increasing diff_le_self one_le_numeral)
  then have "parse_uint bits (c # cs) = (n, None)"
    using parse_uint_dec [of n bits] by (simp add: c)
  moreover have "int n < 2 ^ (bits - 1)"
    using assms(1) by (metis of_nat_less_iff of_nat_numeral of_nat_power)
  ultimately show ?thesis
    using nsign by (simp add: parse_int_def c Let_def)
qed

end
