(* ===== verification/Go_Path.thy ===== *)
theory Go_Path
  imports Go_Strings
begin

text \<open>
  The lexical functions of Go's path/filepath on Unix (Clean, Join, Dir, Base, Ext, IsAbs). Clean
  works on the components of the path: empty ones and "." go, ".." removes the component before
  it, goes at the root and stays at the front of a relative path.
\<close>

definition path_comps :: "string \<Rightarrow> string list" where
  "path_comps s = filter (\<lambda>p. p \<noteq> [] \<and> p \<noteq> ''.'') (Split (CHR ''/'') s)"

fun norm_comps :: "bool \<Rightarrow> string list \<Rightarrow> string list \<Rightarrow> string list" where
  "norm_comps rooted st [] = rev st"
| "norm_comps rooted st (p # ps) =
     (if p = ''..'' then
        (case st of
           [] \<Rightarrow> norm_comps rooted (if rooted then [] else [''..'']) ps
         | q # qs \<Rightarrow> if q = ''..'' then norm_comps rooted (''..'' # st) ps else norm_comps rooted qs ps)
      else norm_comps rooted (p # st) ps)"

definition IsAbs :: "string \<Rightarrow> bool" where
  "IsAbs s \<longleftrightarrow> s \<noteq> [] \<and> hd s = CHR ''/''"

definition Clean :: "string \<Rightarrow> string" where
  "Clean s =
     (if s = [] then ''.''
      else let cs = norm_comps (IsAbs s) [] (path_comps s)
           in if IsAbs s then CHR ''/'' # Join ''/'' cs
              else if cs = [] then ''.'' else Join ''/'' cs)"

definition path_Join :: "string list \<Rightarrow> string" where
  "path_Join es = (let fs = dropWhile (\<lambda>e. e = []) es in if fs = [] then [] else Clean (Join ''/'' fs))"

text \<open>The path up to and including its last slash, and the rest.\<close>

definition dir_part :: "string \<Rightarrow> string" where
  "dir_part s = rev (dropWhile (\<lambda>c. c \<noteq> CHR ''/'') (rev s))"

definition file_part :: "string \<Rightarrow> string" where
  "file_part s = rev (takeWhile (\<lambda>c. c \<noteq> CHR ''/'') (rev s))"

definition Dir :: "string \<Rightarrow> string" where
  "Dir s = Clean (dir_part s)"

definition Base :: "string \<Rightarrow> string" where
  "Base s =
     (if s = [] then ''.''
      else let t = rev (dropWhile (\<lambda>c. c = CHR ''/'') (rev s))
           in if file_part t = [] then ''/'' else file_part t)"

fun ext_rev :: "string \<Rightarrow> string \<Rightarrow> string" where
  "ext_rev acc [] = []"
| "ext_rev acc (c # cs) =
     (if c = CHR ''/'' then [] else if c = CHR ''.'' then c # acc else ext_rev (c # acc) cs)"

definition Ext :: "string \<Rightarrow> string" where
  "Ext s = ext_rev [] (rev s)"

section \<open>Plain components and absolute paths\<close>

definition plain_comp :: "string \<Rightarrow> bool" where
  "plain_comp p \<longleftrightarrow> p \<noteq> [] \<and> p \<noteq> ''.'' \<and> p \<noteq> ''..'' \<and> CHR ''/'' \<notin> set p"

definition abs_path :: "string list \<Rightarrow> string" where
  "abs_path cs = CHR ''/'' # Join ''/'' cs"

lemma plain_comp_simps [simp]: "\<not> plain_comp []" "\<not> plain_comp ''.''" "\<not> plain_comp ''..''"
  by (simp_all add: plain_comp_def)

lemma norm_comps_plain [simp]:
  "list_all plain_comp cs \<Longrightarrow> norm_comps r st cs = rev st @ cs"
  by (induction cs arbitrary: st) (auto simp: plain_comp_def)

lemma norm_comps_rooted:
  assumes "\<And>p. p \<in> set ps \<Longrightarrow> p \<noteq> [] \<and> p \<noteq> ''.'' \<and> CHR ''/'' \<notin> set p" "list_all plain_comp st"
  shows "list_all plain_comp (norm_comps True st ps)"
  using assms
proof (induction ps arbitrary: st)
  case Nil
  then show ?case by simp
next
  case (Cons p ps)
  have IH: "\<And>st. list_all plain_comp st \<Longrightarrow> list_all plain_comp (norm_comps True st ps)"
    using Cons.IH Cons.prems(1) by simp
  show ?case
  proof (cases "p = ''..''")
    case True
    then show ?thesis using Cons.prems(2) IH
      by (cases st) auto
  next
    case False
    with Cons.prems have "plain_comp p" by (simp add: plain_comp_def)
    with False Cons.prems(2) show ?thesis by (simp add: IH)
  qed
qed

lemma path_comps_props:
  "p \<in> set (path_comps s) \<Longrightarrow> p \<noteq> [] \<and> p \<noteq> ''.'' \<and> CHR ''/'' \<notin> set p"
  by (auto simp: path_comps_def dest: Split_parts_no_sep)

lemma path_comps_Join:
  "list_all plain_comp cs \<Longrightarrow> path_comps (Join ''/'' cs) = cs"
proof (cases "cs = []")
  case True
  then show ?thesis by (simp add: path_comps_def)
next
  case False
  assume a: "list_all plain_comp cs"
  then have "Split (CHR ''/'') (Join ''/'' cs) = cs"
    using False by (intro Split_Join) (auto simp: list_all_iff plain_comp_def)
  moreover have "filter (\<lambda>p. p \<noteq> [] \<and> p \<noteq> ''.'') cs = cs"
    using a by (auto simp: filter_id_conv list_all_iff plain_comp_def)
  ultimately show ?thesis by (simp add: path_comps_def)
qed

lemma path_comps_slash [simp]: "path_comps (CHR ''/'' # s) = path_comps s"
  by (simp add: path_comps_def)

lemma path_comps_Nil [simp]: "path_comps [] = []"
  by (simp add: path_comps_def)

lemma path_comps_sep: "path_comps (s @ CHR ''/'' # t) = path_comps s @ path_comps t"
  by (simp add: path_comps_def Split_concat_sep)

lemma path_comps_abs [simp]: "list_all plain_comp cs \<Longrightarrow> path_comps (abs_path cs) = cs"
  by (simp add: abs_path_def path_comps_Join)

lemma path_comps_plain [simp]: "plain_comp p \<Longrightarrow> path_comps p = [p]"
  by (auto simp: path_comps_def plain_comp_def)

lemma IsAbs_abs_path [simp]: "IsAbs (abs_path cs)"
  by (simp add: IsAbs_def abs_path_def)

lemma abs_path_neq_Nil [simp]: "abs_path cs \<noteq> []"
  by (simp add: abs_path_def)

lemma Clean_abs: "IsAbs s \<Longrightarrow> Clean s = abs_path (norm_comps True [] (path_comps s))"
  by (simp add: Clean_def abs_path_def Let_def IsAbs_def)

lemma Clean_abs_path [simp]: "list_all plain_comp cs \<Longrightarrow> Clean (abs_path cs) = abs_path cs"
  by (simp add: Clean_abs)

text \<open>Cleaning an absolute path gives an absolute path without "." and ".." components.\<close>

lemma Clean_IsAbs:
  assumes "IsAbs s"
  shows "\<exists>cs. list_all plain_comp cs \<and> Clean s = abs_path cs"
proof (intro exI conjI)
  show "list_all plain_comp (norm_comps True [] (path_comps s))"
    by (rule norm_comps_rooted) (auto dest: path_comps_props)
qed (rule Clean_abs [OF assms])

lemma abs_path_inj:
  "list_all plain_comp cs \<Longrightarrow> list_all plain_comp ds \<Longrightarrow> abs_path cs = abs_path ds \<longleftrightarrow> cs = ds"
  by (metis path_comps_abs)

lemma path_Join_abs [simp]:
  assumes "list_all plain_comp cs" "plain_comp p"
  shows "path_Join [abs_path cs, p] = abs_path (cs @ [p])"
proof -
  have "path_Join [abs_path cs, p] = Clean (abs_path cs @ CHR ''/'' # p)"
    using assms(2) by (auto simp: path_Join_def)
  also have "\<dots> = abs_path (norm_comps True [] (path_comps (abs_path cs @ CHR ''/'' # p)))"
    by (rule Clean_abs) (simp add: IsAbs_def abs_path_def)
  also have "\<dots> = abs_path (cs @ [p])"
    using assms by (simp add: path_comps_sep)
  finally show ?thesis .
qed

lemma Join_snoc: "xs \<noteq> [] \<Longrightarrow> Join sep (xs @ [x]) = Join sep xs @ sep @ x"
  by (induction xs rule: induct_list012) auto

lemma dropWhile_to_sep: "c \<notin> set p \<Longrightarrow> dropWhile (\<lambda>x. x \<noteq> c) (rev p @ c # ts) = c # ts"
  by (subst dropWhile_append2) auto

lemma takeWhile_to_sep: "c \<notin> set p \<Longrightarrow> takeWhile (\<lambda>x. x \<noteq> c) (rev p @ c # ts) = rev p"
  by (subst takeWhile_append2) auto

lemma file_part_last [simp]: "CHR ''/'' \<notin> set t \<Longrightarrow> file_part (s @ CHR ''/'' # t) = t"
  by (simp add: file_part_def takeWhile_to_sep)

lemma file_part_no_slash [simp]: "CHR ''/'' \<notin> set t \<Longrightarrow> file_part t = t"
proof -
  assume "CHR ''/'' \<notin> set t"
  then have "\<forall>c \<in> set (rev t). c \<noteq> CHR ''/''" by auto
  then show ?thesis by (simp add: file_part_def takeWhile_eq_all_conv [THEN iffD2])
qed

lemma dir_part_no_slash [simp]: "CHR ''/'' \<notin> set t \<Longrightarrow> dir_part t = []"
  by (auto simp: dir_part_def)

lemma dir_part_sep [simp]: "CHR ''/'' \<notin> set t \<Longrightarrow> dir_part (s @ CHR ''/'' # t) = s @ ''/''"
  by (simp add: dir_part_def dropWhile_to_sep)

lemma dir_part_abs_path:
  assumes "plain_comp p"
  shows "dir_part (abs_path (cs @ [p])) = (if cs = [] then ''/'' else abs_path cs @ ''/'')"
proof -
  from assms have "CHR ''/'' \<notin> set p" by (simp add: plain_comp_def)
  then show ?thesis
    using dir_part_sep [of p "[]"] dir_part_sep [of p "abs_path cs"]
    by (auto simp: abs_path_def Join_snoc)
qed

lemma Dir_abs_path [simp]:
  assumes "list_all plain_comp cs"
  shows "Dir (abs_path cs) = abs_path (butlast cs)"
proof (cases cs rule: rev_cases)
  case Nil
  then show ?thesis
    by (simp add: Dir_def dir_part_def abs_path_def Clean_def IsAbs_def path_comps_def)
next
  case (snoc ds p)
  with assms have p: "plain_comp p" "list_all plain_comp ds" by auto
  show ?thesis
  proof (cases "ds = []")
    case True
    with p(1) have "dir_part (abs_path cs) = ''/''"
      using dir_part_abs_path [of p "[]"] snoc by simp
    then show ?thesis
      using True snoc by (simp add: Dir_def abs_path_def Clean_def IsAbs_def path_comps_def)
  next
    case False
    have "path_comps (abs_path ds @ ''/'') = ds"
      using p path_comps_sep [of "abs_path ds" "[]"] by (simp add: path_comps_Nil)
    then have "Clean (abs_path ds @ ''/'') = abs_path ds"
      using p by (subst Clean_abs) (simp_all add: IsAbs_def abs_path_def)
    with False snoc p show ?thesis by (simp add: Dir_def dir_part_abs_path)
  qed
qed

lemma Base_file:
  assumes "plain_comp p" "s = p \<or> (\<exists>u. s = u @ CHR ''/'' # p)"
  shows "Base s = p"
proof -
  from assms(1) have l: "p \<noteq> []" "CHR ''/'' \<notin> set p"
    by (auto simp: plain_comp_def)
  then have "last p \<noteq> CHR ''/''" by (metis last_in_set)
  with assms(2) l(1) have s: "s \<noteq> []" "last s \<noteq> CHR ''/''" by auto
  then have "hd (rev s) \<noteq> CHR ''/''" "rev s \<noteq> []" by (simp_all add: hd_rev)
  then have "dropWhile (\<lambda>c. c = CHR ''/'') (rev s) = rev s"
    by (cases "rev s") simp_all
  moreover have "file_part s = p"
    using assms(2) l(2) by auto
  ultimately show ?thesis using l(1) s(1) by (simp add: Base_def)
qed

text \<open>A relative path of plain components is clean.\<close>

lemma Clean_rel:
  assumes "list_all plain_comp cs" "cs \<noteq> []"
  shows "Clean (Join ''/'' cs) = Join ''/'' cs"
proof -
  obtain p ps where p: "cs = p # ps" using assms(2) by (cases cs) auto
  with assms(1) have "plain_comp p" by simp
  then obtain c r where c: "p = c # r" "c \<noteq> CHR ''/''"
    by (cases p) (auto simp: plain_comp_def)
  then have hd: "Join ''/'' cs \<noteq> []" "\<not> IsAbs (Join ''/'' cs)"
    by (cases ps; simp add: p IsAbs_def)+
  then show ?thesis
    using assms by (simp add: Clean_def Let_def path_comps_Join)
qed

end
