(* ===== verification/World.thy ===== *)
theory World
  imports Go_Numbers Go_Path
begin

text \<open>
  The outside of the program and the state the program keeps. Portod, the CNI plugins, the
  kernel and the file system are not part of the source: they are an environment, a record of
  functions that answer a call from the history of all calls so far. Every call that can change
  something outside is an \<open>event\<close> with its answer; the state of a run is the list of its events
  together with the program's own globals (\<open>parentCnt\<close>, \<open>tmpfsDirs\<close>, \<open>KnownRegistries\<close>).
\<close>

section \<open>Configuration (config.go, registry.go)\<close>

record RegistryInfo =
  Host :: string
  AuthToken :: string
  AuthPath :: string
  AuthService :: string

record PortoshimConfig =
  ConfigPath :: string
  Socket :: string
  LogsDir :: string
  VolumesDir :: string
  RuntimeName :: string
  PortoSocket :: string
  SocketTimeout :: int
  ImagesDir :: string
  ParentContainer :: string
  ConfDir :: string
  BinDir :: string
  NetnsDir :: string
  NetType :: string
  StreamAddress :: string
  StreamPort :: int
  PauseImage :: string
  Registries :: "RegistryInfo list"
  Place :: string
  SpecDirs :: "string list"

section \<open>Porto requests\<close>

text \<open>\<open>float64(a) / b\<close> is kept as the quotient it rounds.\<close>

datatype float64 = F64Div int int

record TCapabilities =
  Cap :: "string list"
  Action :: bool

record TContainerDevice =
  Device :: string
  Access :: string
  DevicePath :: string

record TContainerSpec =
  Name :: string
  Weak :: "bool option"
  CpuLimit :: "float64 option"
  CpuGuarantee :: "float64 option"
  MemoryLimit :: "u64 option"
  MemoryGuarantee :: "u64 option"
  Env :: "(string \<times> string) list option"
  CommandArgv :: "string list option"
  Root :: "string option"
  Labels :: "(string, string) gomap option"
  Capabilities :: "TCapabilities option"
  Bind :: "(string \<times> string) list option"
  Hostname :: "string option"
  Net :: "(string \<times> string list) list option"
  Ip :: "(string \<times> string) list option"
  Userns :: "bool option"
  Sysctl :: "(string, string) gomap option"
  NetLimit :: "(string \<times> u64) list option"
  NetRxLimit :: "(string \<times> u64) list option"
  Devices :: "TContainerDevice list option"
  DevicesExplicit :: "bool option"
  StdinPath :: "string option"
  StdoutPath :: "string option"
  StderrPath :: "string option"
  ResolvConf :: "string option"
  Isolate :: "bool option"

definition new_spec :: "string \<Rightarrow> TContainerSpec" where
  "new_spec n = \<lparr>Name = n, Weak = None, CpuLimit = None, CpuGuarantee = None, MemoryLimit = None,
     MemoryGuarantee = None, Env = None, CommandArgv = None, Root = None, Labels = None,
     Capabilities = None, Bind = None, Hostname = None, Net = None, Ip = None, Userns = None,
     Sysctl = None, NetLimit = None, NetRxLimit = None, Devices = None, DevicesExplicit = None,
     StdinPath = None, StdoutPath = None, StderrPath = None, ResolvConf = None, Isolate = None\<rparr>"

record TVolumeLink =
  Container :: string
  Target :: string
  LinkReadOnly :: "bool option"

record TVolumeSpec =
  Links :: "TVolumeLink list"
  Backend :: string
  VolPlace :: "string option"
  VolImage :: "string option"
  Storage :: "string option"
  VolReadOnly :: "bool option"

text \<open>A docker image of Porto; \<open>ImageId\<close> may be missing, as a protobuf field may.\<close>

record TDockerImage =
  ImageId :: "string option"
  Tags :: "string list"
  Digests :: "string list"
  ImageSize :: u64
  ConfigCmd :: "string list"
  ConfigEnv :: "string list"

text \<open>One value of a \<open>Get\<close> answer: the variable, its error code and message, its value.\<close>

record GetValue =
  Variable :: string
  ValError :: "eerror option"
  ValErrorMsg :: string
  Val :: string

type_synonym GetResponse = "(string \<times> GetValue list) list"

section \<open>CNI, file system and processes\<close>

datatype cniOpt = WithLoNetwork | WithDefaultConf

text \<open>The result of a CNI setup: for each interface, if it is there, its addresses, each as the
  text of its 16-byte form or \<open>None\<close> where it has none.\<close>

type_synonym cniResult = "(string, string option list option) gomap"

record FileInfo =
  ModeSymlink :: bool
  ModeExec :: bool
  ModeDir :: bool
  ModeSocket :: bool

section \<open>Events\<close>

datatype (plugins only: code size) event =
    EvGetProperty string string "goerr + string"
  | EvSetProperty string string string "goerr + unit"
  | EvGet "string list" "string list" "goerr + GetResponse"
  | EvGetProperties "string list" "string list" "goerr + (string, (string, string) gomap) gomap"
  | EvListContainers string "goerr + string list"
  | EvCreateFromSpec TContainerSpec "TVolumeSpec list" bool "goerr + unit"
  | EvUpdateFromSpec TContainerSpec bool "goerr + unit"
  | EvStart string "goerr + unit"
  | EvKill string int "goerr + unit"
  | EvStopTimeout string int "goerr + unit"
  | EvDestroy string "goerr + unit"
  | EvWait "string list" int "goerr + string"
  | EvGetVersion "goerr + string"
  | EvCreateVolume string "(string, string) gomap" "goerr + string"
  | EvLinkVolumeTarget string string string bool bool "goerr + unit"
  | EvUnlinkVolume string string "goerr + unit"
  | EvListVolumes string string "goerr + (string, string) gomap list"
  | EvDockerImageStatus string string "goerr + TDockerImage"
  | EvPullDockerImage string string string string string "goerr + TDockerImage"
  | EvListDockerImages "goerr + TDockerImage list"
  | EvRemoveDockerImage string string "goerr + unit"
  | EvCniLoad "cniOpt list" "goerr + unit"
  | EvCniSetup string string "(string, string) gomap" "(string, string) gomap" "goerr + cniResult"
  | EvCniRemove string string "(string, string) gomap" "(string, string) gomap" "goerr + unit"
  | EvNewNetNS string "goerr + string"
  | EvNetNSClosed string "goerr + bool"
  | EvNetNSRemove string "goerr + unit"
  | EvMkdirAll string "goerr + unit"
  | EvRemoveAll string "goerr + unit"
  | EvCreateFile string "goerr + int"
  | EvDup int "goerr + int"
  | EvCopyDir string string "goerr + unit"
  | EvMkdirTemp string "goerr + string"
  | EvWriteFile string string "goerr + unit"
  | EvIntn nat nat
  | EvRandRead "goerr + string"
  | EvRemount int string "goerr + unit"
  | EvRunHook string "string list" "string list" int string "goerr + unit"
  | EvSleep int
  | EvDial "goerr + unit"
  | EvHangUp
  | EvPipe "goerr + int \<times> int"
  | EvOpenPty "goerr + int \<times> int"
  | EvClose int
  | EvRemove string "goerr + unit"
  | EvListen string "goerr + unit"
  | EvChmod string int "goerr + unit"

type_synonym history = "event list"

section \<open>The environment\<close>

record porto_api =
  o_GetProperty :: "history \<Rightarrow> string \<Rightarrow> string \<Rightarrow> goerr + string"
  o_SetProperty :: "history \<Rightarrow> string \<Rightarrow> string \<Rightarrow> string \<Rightarrow> goerr + unit"
  o_Get :: "history \<Rightarrow> string list \<Rightarrow> string list \<Rightarrow> goerr + GetResponse"
  o_GetProperties :: "history \<Rightarrow> string list \<Rightarrow> string list \<Rightarrow> goerr + (string, (string, string) gomap) gomap"
  o_ListContainers :: "history \<Rightarrow> string \<Rightarrow> goerr + string list"
  o_CreateFromSpec :: "history \<Rightarrow> TContainerSpec \<Rightarrow> TVolumeSpec list \<Rightarrow> bool \<Rightarrow> goerr + unit"
  o_UpdateFromSpec :: "history \<Rightarrow> TContainerSpec \<Rightarrow> bool \<Rightarrow> goerr + unit"
  o_Start :: "history \<Rightarrow> string \<Rightarrow> goerr + unit"
  o_Kill :: "history \<Rightarrow> string \<Rightarrow> int \<Rightarrow> goerr + unit"
  o_StopTimeout :: "history \<Rightarrow> string \<Rightarrow> int \<Rightarrow> goerr + unit"
  o_Destroy :: "history \<Rightarrow> string \<Rightarrow> goerr + unit"
  o_Wait :: "history \<Rightarrow> string list \<Rightarrow> int \<Rightarrow> goerr + string"
  o_GetVersion :: "history \<Rightarrow> goerr + string"
  o_CreateVolume :: "history \<Rightarrow> string \<Rightarrow> (string, string) gomap \<Rightarrow> goerr + string"
  o_LinkVolumeTarget :: "history \<Rightarrow> string \<Rightarrow> string \<Rightarrow> string \<Rightarrow> bool \<Rightarrow> bool \<Rightarrow> goerr + unit"
  o_UnlinkVolume :: "history \<Rightarrow> string \<Rightarrow> string \<Rightarrow> goerr + unit"
  o_ListVolumes :: "history \<Rightarrow> string \<Rightarrow> string \<Rightarrow> goerr + (string, string) gomap list"
  o_DockerImageStatus :: "history \<Rightarrow> string \<Rightarrow> string \<Rightarrow> goerr + TDockerImage"
  o_PullDockerImage :: "history \<Rightarrow> string \<Rightarrow> string \<Rightarrow> string \<Rightarrow> string \<Rightarrow> string \<Rightarrow> goerr + TDockerImage"
  o_ListDockerImages :: "history \<Rightarrow> goerr + TDockerImage list"
  o_RemoveDockerImage :: "history \<Rightarrow> string \<Rightarrow> string \<Rightarrow> goerr + unit"

record cni_api =
  o_CniLoad :: "history \<Rightarrow> cniOpt list \<Rightarrow> goerr + unit"
  o_CniSetup :: "history \<Rightarrow> string \<Rightarrow> string \<Rightarrow> (string, string) gomap \<Rightarrow> (string, string) gomap \<Rightarrow> goerr + cniResult"
  o_CniRemove :: "history \<Rightarrow> string \<Rightarrow> string \<Rightarrow> (string, string) gomap \<Rightarrow> (string, string) gomap \<Rightarrow> goerr + unit"
  o_NewNetNS :: "history \<Rightarrow> string \<Rightarrow> goerr + string"
  o_NetNSClosed :: "history \<Rightarrow> string \<Rightarrow> goerr + bool"
  o_NetNSRemove :: "history \<Rightarrow> string \<Rightarrow> goerr + unit"

record os_api =
  o_Lstat :: "history \<Rightarrow> string \<Rightarrow> goerr + FileInfo"
  o_Stat :: "history \<Rightarrow> string \<Rightarrow> goerr + FileInfo"
  o_Readlink :: "history \<Rightarrow> string \<Rightarrow> goerr + string"
  o_ReadDir :: "history \<Rightarrow> string \<Rightarrow> goerr + (string \<times> bool) list"
  o_ReadFile :: "history \<Rightarrow> string \<Rightarrow> goerr + string"
  o_MkdirAll :: "history \<Rightarrow> string \<Rightarrow> goerr + unit"
  o_RemoveAll :: "history \<Rightarrow> string \<Rightarrow> goerr + unit"
  o_CreateFile :: "history \<Rightarrow> string \<Rightarrow> goerr + int"
  o_Dup :: "history \<Rightarrow> int \<Rightarrow> goerr + int"
  o_CopyDir :: "history \<Rightarrow> string \<Rightarrow> string \<Rightarrow> goerr + unit"
  o_MkdirTemp :: "history \<Rightarrow> string \<Rightarrow> goerr + string"
  o_WriteFile :: "history \<Rightarrow> string \<Rightarrow> string \<Rightarrow> goerr + unit"
  o_Intn :: "history \<Rightarrow> nat \<Rightarrow> nat"
  o_RandRead :: "history \<Rightarrow> goerr + string"
  o_Remount :: "history \<Rightarrow> int \<Rightarrow> string \<Rightarrow> goerr + unit"
  o_RunHook :: "history \<Rightarrow> string \<Rightarrow> string list \<Rightarrow> string list \<Rightarrow> int \<Rightarrow> string \<Rightarrow> goerr + unit"
  o_Now :: "history \<Rightarrow> int"
  o_Dial :: "history \<Rightarrow> goerr + unit"
  o_Pipe :: "history \<Rightarrow> goerr + int \<times> int"
  o_OpenPty :: "history \<Rightarrow> goerr + int \<times> int"
  o_Remove :: "history \<Rightarrow> string \<Rightarrow> goerr + unit"
  o_Listen :: "history \<Rightarrow> string \<Rightarrow> goerr + unit"
  o_Chmod :: "history \<Rightarrow> string \<Rightarrow> int \<Rightarrow> goerr + unit"

record env =
  Cfg :: PortoshimConfig
  porto :: porto_api
  cni :: cni_api
  os :: os_api

section \<open>The program's globals\<close>

record world =
  w_trace :: history
  w_parent :: "string option"
  w_tmpfs :: "(string, string) gomap"
  w_registries :: "(string, RegistryInfo) gomap"

type_synonym 'a prog = "(world, 'a) io"

section \<open>Calls\<close>

definition ask :: "(history \<Rightarrow> 'r) \<Rightarrow> ('r \<Rightarrow> event) \<Rightarrow> 'r prog" where
  "ask f ev = State (\<lambda>w. let r = f (w_trace w) in (r, w\<lparr>w_trace := w_trace w @ [ev r]\<rparr>))"

definition look :: "(history \<Rightarrow> 'r) \<Rightarrow> 'r prog" where
  "look f = State (\<lambda>w. (f (w_trace w), w))"

definition get_world :: "world prog" where
  "get_world = State (\<lambda>w. (w, w))"

definition mod_world :: "(world \<Rightarrow> world) \<Rightarrow> unit prog" where
  "mod_world f = State (\<lambda>w. ((), f w))"

definition "GetProperty (E :: env) i n = ask (\<lambda>h. o_GetProperty (porto E) h i n) (EvGetProperty i n)"
definition "SetProperty (E :: env) i n v = ask (\<lambda>h. o_SetProperty (porto E) h i n v) (EvSetProperty i n v)"
definition "Get (E :: env) is ns = ask (\<lambda>h. o_Get (porto E) h is ns) (EvGet is ns)"
definition "GetProperties (E :: env) is ns = ask (\<lambda>h. o_GetProperties (porto E) h is ns) (EvGetProperties is ns)"
definition "ListContainers (E :: env) m = ask (\<lambda>h. o_ListContainers (porto E) h m) (EvListContainers m)"
definition "CreateFromSpec (E :: env) s v st = ask (\<lambda>h. o_CreateFromSpec (porto E) h s v st) (EvCreateFromSpec s v st)"
definition "UpdateFromSpec (E :: env) s st = ask (\<lambda>h. o_UpdateFromSpec (porto E) h s st) (EvUpdateFromSpec s st)"
definition "Start (E :: env) i = ask (\<lambda>h. o_Start (porto E) h i) (EvStart i)"
definition "Kill (E :: env) i n = ask (\<lambda>h. o_Kill (porto E) h i n) (EvKill i n)"
definition "StopTimeout (E :: env) i t = ask (\<lambda>h. o_StopTimeout (porto E) h i t) (EvStopTimeout i t)"
definition "Destroy (E :: env) i = ask (\<lambda>h. o_Destroy (porto E) h i) (EvDestroy i)"
definition "Wait (E :: env) is t = ask (\<lambda>h. o_Wait (porto E) h is t) (EvWait is t)"
definition "GetVersion (E :: env) = ask (\<lambda>h. o_GetVersion (porto E) h) EvGetVersion"
definition "CreateVolume (E :: env) p m = ask (\<lambda>h. o_CreateVolume (porto E) h p m) (EvCreateVolume p m)"
definition "LinkVolumeTarget (E :: env) p i t b ro =
  ask (\<lambda>h. o_LinkVolumeTarget (porto E) h p i t b ro) (EvLinkVolumeTarget p i t b ro)"
definition "UnlinkVolume (E :: env) p i = ask (\<lambda>h. o_UnlinkVolume (porto E) h p i) (EvUnlinkVolume p i)"
definition "ListVolumes (E :: env) p i = ask (\<lambda>h. o_ListVolumes (porto E) h p i) (EvListVolumes p i)"
definition "DockerImageStatus (E :: env) n p = ask (\<lambda>h. o_DockerImageStatus (porto E) h n p) (EvDockerImageStatus n p)"
definition "PullDockerImage (E :: env) n p t ap sv =
  ask (\<lambda>h. o_PullDockerImage (porto E) h n p t ap sv) (EvPullDockerImage n p t ap sv)"
definition "ListDockerImages (E :: env) = ask (\<lambda>h. o_ListDockerImages (porto E) h) EvListDockerImages"
definition "RemoveDockerImage (E :: env) n p = ask (\<lambda>h. o_RemoveDockerImage (porto E) h n p) (EvRemoveDockerImage n p)"
definition "CniLoad (E :: env) opts = ask (\<lambda>h. o_CniLoad (cni E) h opts) (EvCniLoad opts)"
definition "CniSetup (E :: env) i p ls an = ask (\<lambda>h. o_CniSetup (cni E) h i p ls an) (EvCniSetup i p ls an)"
definition "CniRemove (E :: env) i p ls an = ask (\<lambda>h. o_CniRemove (cni E) h i p ls an) (EvCniRemove i p ls an)"
definition "NewNetNS (E :: env) d = ask (\<lambda>h. o_NewNetNS (cni E) h d) (EvNewNetNS d)"
definition "NetNSClosed (E :: env) p = ask (\<lambda>h. o_NetNSClosed (cni E) h p) (EvNetNSClosed p)"
definition "NetNSRemove (E :: env) p = ask (\<lambda>h. o_NetNSRemove (cni E) h p) (EvNetNSRemove p)"
definition "MkdirAll (E :: env) p = ask (\<lambda>h. o_MkdirAll (os E) h p) (EvMkdirAll p)"
definition "RemoveAll (E :: env) p = ask (\<lambda>h. o_RemoveAll (os E) h p) (EvRemoveAll p)"
definition "CreateFile (E :: env) p = ask (\<lambda>h. o_CreateFile (os E) h p) (EvCreateFile p)"
definition "Dup (E :: env) fd = ask (\<lambda>h. o_Dup (os E) h fd) (EvDup fd)"
definition "CopyDir (E :: env) d s = ask (\<lambda>h. o_CopyDir (os E) h d s) (EvCopyDir d s)"
definition "MkdirTemp (E :: env) p = ask (\<lambda>h. o_MkdirTemp (os E) h p) (EvMkdirTemp p)"
definition "WriteFile (E :: env) p d = ask (\<lambda>h. o_WriteFile (os E) h p d) (EvWriteFile p d)"
definition "Intn (E :: env) n = ask (\<lambda>h. o_Intn (os E) h n) (EvIntn n)"
definition "RandRead (E :: env) = ask (\<lambda>h. o_RandRead (os E) h) EvRandRead"
definition "Remount (E :: env) pid t = ask (\<lambda>h. o_Remount (os E) h pid t) (EvRemount pid t)"
definition "RunHook (E :: env) p args en t st = ask (\<lambda>h. o_RunHook (os E) h p args en t st) (EvRunHook p args en t st)"
definition "Sleep ms = ask (\<lambda>h. ()) (\<lambda>u. EvSleep ms)"
definition "Dial (E :: env) = ask (\<lambda>h. o_Dial (os E) h) EvDial"
definition "HangUp = ask (\<lambda>h. ()) (\<lambda>u. EvHangUp)"
definition "Pipe (E :: env) = ask (\<lambda>h. o_Pipe (os E) h) EvPipe"
definition "OpenPty (E :: env) = ask (\<lambda>h. o_OpenPty (os E) h) EvOpenPty"
definition "CloseFd fd = ask (\<lambda>h. ()) (\<lambda>u. EvClose fd)"
definition "Remove (E :: env) p = ask (\<lambda>h. o_Remove (os E) h p) (EvRemove p)"
definition "Listen (E :: env) p = ask (\<lambda>h. o_Listen (os E) h p) (EvListen p)"
definition "Chmod (E :: env) p m = ask (\<lambda>h. o_Chmod (os E) h p m) (EvChmod p m)"
definition "Lstat (E :: env) p = look (\<lambda>h. o_Lstat (os E) h p)"
definition "Stat (E :: env) p = look (\<lambda>h. o_Stat (os E) h p)"
definition "Readlink (E :: env) p = look (\<lambda>h. o_Readlink (os E) h p)"
definition "ReadDir (E :: env) p = look (\<lambda>h. o_ReadDir (os E) h p)"
definition "ReadFile (E :: env) p = look (\<lambda>h. o_ReadFile (os E) h p)"
definition "Now (E :: env) = look (\<lambda>h. o_Now (os E) h)"

lemmas call_defs [run_simps] = GetProperty_def SetProperty_def Get_def GetProperties_def
  ListContainers_def CreateFromSpec_def UpdateFromSpec_def Start_def Kill_def StopTimeout_def
  Destroy_def Wait_def GetVersion_def CreateVolume_def LinkVolumeTarget_def UnlinkVolume_def
  ListVolumes_def DockerImageStatus_def PullDockerImage_def ListDockerImages_def
  RemoveDockerImage_def CniLoad_def CniSetup_def CniRemove_def NewNetNS_def NetNSClosed_def
  NetNSRemove_def MkdirAll_def RemoveAll_def CreateFile_def Dup_def CopyDir_def MkdirTemp_def
  WriteFile_def Intn_def RandRead_def Remount_def RunHook_def Sleep_def Dial_def HangUp_def
  Pipe_def OpenPty_def CloseFd_def Remove_def Listen_def Chmod_def Lstat_def Stat_def Readlink_def ReadDir_def ReadFile_def Now_def

lemma run_ask [run_simps]:
  "run_state (ask f ev) w = (f (w_trace w), w\<lparr>w_trace := w_trace w @ [ev (f (w_trace w))]\<rparr>)"
  by (simp add: ask_def Let_def)

lemma run_look [run_simps]: "run_state (look f) w = (f (w_trace w), w)"
  by (simp add: look_def)

lemma run_get_world [run_simps]: "run_state get_world w = (w, w)"
  by (simp add: get_world_def)

lemma run_mod_world [run_simps]: "run_state (mod_world f) w = ((), f w)"
  by (simp add: mod_world_def)

section \<open>Which events a step adds\<close>

text \<open>
  \<open>emits m Q\<close>: whatever the state and the environment, the step only appends to the history,
  and the value it returns and the events it adds satisfy \<open>Q\<close>.
\<close>

definition emits :: "'a prog \<Rightarrow> ('a \<Rightarrow> history \<Rightarrow> bool) \<Rightarrow> bool" where
  "emits m Q \<longleftrightarrow> (\<forall>w. \<exists>es. w_trace (snd (run_state m w)) = w_trace w @ es \<and> Q (fst (run_state m w)) es)"

lemma emits_mono: "emits m P \<Longrightarrow> (\<And>v es. P v es \<Longrightarrow> Q v es) \<Longrightarrow> emits m Q"
  unfolding emits_def by blast

lemma emits_conj: "emits m P \<Longrightarrow> emits m Q \<Longrightarrow> emits m (\<lambda>v es. P v es \<and> Q v es)"
  unfolding emits_def by (metis same_append_eq)

lemma emits_ret_iff [simp]: "emits (ret v) Q \<longleftrightarrow> Q v []"
  by (simp add: emits_def)

lemma emits_ret: "Q v [] \<Longrightarrow> emits (ret v) Q"
  by simp

lemma emits_ask: "(\<And>r. Q r [ev r]) \<Longrightarrow> emits (ask f ev) Q"
  by (simp add: emits_def run_simps)

lemma emits_look: "(\<And>r. Q r []) \<Longrightarrow> emits (look f) Q"
  by (simp add: emits_def run_simps)

lemma emits_get_world: "(\<And>w. Q w []) \<Longrightarrow> emits get_world Q"
  by (simp add: emits_def run_simps)

lemma emits_mod_world:
  "(\<And>w. w_trace (f w) = w_trace w) \<Longrightarrow> Q () [] \<Longrightarrow> emits (mod_world f) Q"
  by (simp add: emits_def run_simps)

lemma emits_bind:
  assumes "emits m P" "\<And>v es. P v es \<Longrightarrow> emits (k v) (\<lambda>u fs. Q u (es @ fs))"
  shows "emits (State_Monad.bind m k) Q"
  unfolding emits_def
proof
  fix w
  obtain v w1 where r: "run_state m w = (v, w1)" by force
  with assms(1) obtain es where es: "w_trace w1 = w_trace w @ es" "P v es"
    unfolding emits_def by (metis fst_conv snd_conv)
  from assms(2) [OF es(2)] obtain fs where
    "w_trace (snd (run_state (k v) w1)) = w_trace w1 @ fs" "Q (fst (run_state (k v) w1)) (es @ fs)"
    unfolding emits_def by blast
  then show "\<exists>es. w_trace (snd (run_state (State_Monad.bind m k) w)) = w_trace w @ es
      \<and> Q (fst (run_state (State_Monad.bind m k) w)) es"
    by (auto simp: r es(1))
qed

lemma emits_call_or:
  assumes "emits m P" "\<And>e es. P (Inl e) es \<Longrightarrow> Q (Err (g e)) es"
    "\<And>v es. P (Inr v) es \<Longrightarrow> emits (k v) (\<lambda>u fs. Q u (es @ fs))"
  shows "emits (call_or g m k) Q"
  unfolding call_or_def
  by (rule emits_bind [OF assms(1)]) (auto split: sum.splits simp: assms(2,3))

lemma emits_step_or:
  assumes "emits m P" "\<And>e es. P (Err e) es \<Longrightarrow> Q (Err (g e)) es"
    "\<And>s es. P (Panic s) es \<Longrightarrow> Q (Panic s) es"
    "\<And>v es. P (Ok v) es \<Longrightarrow> emits (k v) (\<lambda>u fs. Q u (es @ fs))"
  shows "emits (step_or g m k) Q"
  unfolding step_or_def
  by (rule emits_bind [OF assms(1)]) (auto split: res.splits simp: assms(2-4))

text \<open>The rules for a single call: its event goes in front of what follows.\<close>

lemma emits_bind_ask [emit_rules]:
  "(\<And>r. emits (k r) (\<lambda>u es. Q u (ev r # es))) \<Longrightarrow> emits (State_Monad.bind (ask f ev) k) Q"
  by (rule emits_bind [OF emits_ask [where Q = "\<lambda>r es. es = [ev r]"]]) auto

lemma emits_bind_look [emit_rules]:
  "(\<And>r. emits (k r) Q) \<Longrightarrow> emits (State_Monad.bind (look f) k) Q"
  by (rule emits_bind [OF emits_look [where Q = "\<lambda>r es. es = []"]]) auto

lemma emits_bind_get_world [emit_rules]:
  "(\<And>w. emits (k w) Q) \<Longrightarrow> emits (State_Monad.bind get_world k) Q"
  by (rule emits_bind [OF emits_get_world [where Q = "\<lambda>r es. es = []"]]) auto

lemma emits_bind_mod_world [emit_rules]:
  "(\<And>w. w_trace (f w) = w_trace w) \<Longrightarrow> emits (k ()) Q \<Longrightarrow> emits (State_Monad.bind (mod_world f) k) Q"
  by (rule emits_bind [OF emits_mod_world [where Q = "\<lambda>r es. es = []"]]) auto

lemma emits_call_or_ask [emit_rules]:
  "(\<And>e. Q (Err (g e)) [ev (Inl e)]) \<Longrightarrow> (\<And>v. emits (k v) (\<lambda>u es. Q u (ev (Inr v) # es)))
   \<Longrightarrow> emits (call_or g (ask f ev) k) Q"
  by (rule emits_call_or [OF emits_ask [where Q = "\<lambda>r es. es = [ev r]"]]) auto

lemma emits_call_or_look [emit_rules]:
  "(\<And>e. Q (Err (g e)) []) \<Longrightarrow> (\<And>v. emits (k v) Q) \<Longrightarrow> emits (call_or g (look f) k) Q"
  by (rule emits_call_or [OF emits_look [where Q = "\<lambda>r es. es = []"]]) auto

text \<open>A step that makes no call.\<close>

lemma emits_bind_silent:
  "emits m (\<lambda>v es. es = []) \<Longrightarrow> (\<And>v. emits (k v) Q) \<Longrightarrow> emits (State_Monad.bind m k) Q"
  by (erule emits_bind) auto

lemma emits_step_or_silent:
  "emits m (\<lambda>v es. es = []) \<Longrightarrow> (\<And>e. Q (Err (g e)) []) \<Longrightarrow> (\<And>s. Q (Panic s) [])
   \<Longrightarrow> (\<And>v. emits (k v) Q) \<Longrightarrow> emits (step_or g m k) Q"
  by (erule emits_step_or) auto

lemma emitsD:
  assumes "emits m Q" "run_state m w = (v, w')"
  shows "\<exists>es. w_trace w' = w_trace w @ es \<and> Q v es"
  using assms unfolding emits_def by (metis fst_conv snd_conv)

text \<open>The events a run of a step adds.\<close>

definition new_events :: "'a prog \<Rightarrow> world \<Rightarrow> history" where
  "new_events m w = drop (length (w_trace w)) (w_trace (snd (run_state m w)))"

lemma emits_new_events: "emits m Q \<Longrightarrow> Q (fst (run_state m w)) (new_events m w)"
  unfolding emits_def new_events_def by (metis append_eq_conv_conj)

section \<open>A concrete environment\<close>

text \<open>
  An environment in which every container is missing and every other call succeeds, and the
  default configuration; the witnesses change the answers they need.
\<close>

definition no_container :: goerr where
  "no_container = PortoError EError_ContainerDoesNotExist ''container does not exist''"

definition base_image :: TDockerImage where
  "base_image = \<lparr>ImageId = Some ''sha256:1'', Tags = [], Digests = [], ImageSize = 0,
     ConfigCmd = [''/pause''], ConfigEnv = []\<rparr>"

definition base_porto :: porto_api where
  "base_porto = \<lparr>
     o_GetProperty = (\<lambda>h i n. Inl no_container), o_SetProperty = (\<lambda>h i n v. Inr ()),
     o_Get = (\<lambda>h is ns. Inr []), o_GetProperties = (\<lambda>h is ns. Inr []),
     o_ListContainers = (\<lambda>h m. Inr []), o_CreateFromSpec = (\<lambda>h s v st. Inr ()),
     o_UpdateFromSpec = (\<lambda>h s st. Inr ()), o_Start = (\<lambda>h i. Inr ()), o_Kill = (\<lambda>h i n. Inr ()),
     o_StopTimeout = (\<lambda>h i t. Inr ()), o_Destroy = (\<lambda>h i. Inr ()), o_Wait = (\<lambda>h is t. Inr []),
     o_GetVersion = (\<lambda>h. Inr ''5.3''), o_CreateVolume = (\<lambda>h p m. Inr ''/place/vol''),
     o_LinkVolumeTarget = (\<lambda>h p i t b ro. Inr ()), o_UnlinkVolume = (\<lambda>h p i. Inr ()),
     o_ListVolumes = (\<lambda>h p i. Inr []), o_DockerImageStatus = (\<lambda>h n p. Inr base_image),
     o_PullDockerImage = (\<lambda>h n p t a s. Inr base_image), o_ListDockerImages = (\<lambda>h. Inr []),
     o_RemoveDockerImage = (\<lambda>h n p. Inr ())\<rparr>"

definition base_cni :: cni_api where
  "base_cni = \<lparr>o_CniLoad = (\<lambda>h os. Inr ()), o_CniSetup = (\<lambda>h i p ls an. Inr []),
     o_CniRemove = (\<lambda>h i p ls an. Inr ()), o_NewNetNS = (\<lambda>h d. Inr (d @ ''/cni-1'')),
     o_NetNSClosed = (\<lambda>h p. Inr False), o_NetNSRemove = (\<lambda>h p. Inr ())\<rparr>"

definition base_os :: os_api where
  "base_os = \<lparr>o_Lstat = (\<lambda>h p. Inl (OsNotExist p)), o_Stat = (\<lambda>h p. Inl (OsNotExist p)),
     o_Readlink = (\<lambda>h p. Inl (OsNotExist p)), o_ReadDir = (\<lambda>h p. Inl (OsNotExist p)),
     o_ReadFile = (\<lambda>h p. Inl (OsNotExist p)), o_MkdirAll = (\<lambda>h p. Inr ()),
     o_RemoveAll = (\<lambda>h p. Inr ()), o_CreateFile = (\<lambda>h p. Inr 7), o_Dup = (\<lambda>h fd. Inr 8),
     o_CopyDir = (\<lambda>h d s. Inr ()), o_MkdirTemp = (\<lambda>h p. Inr (''/tmp/'' @ p)),
     o_WriteFile = (\<lambda>h p d. Inr ()), o_Intn = (\<lambda>h n. 7), o_RandRead = (\<lambda>h. Inr ''01234567''),
     o_Remount = (\<lambda>h pid t. Inr ()), o_RunHook = (\<lambda>h p a e n s. Inr ()), o_Now = (\<lambda>h. 0),
     o_Dial = (\<lambda>h. Inr ()), o_Pipe = (\<lambda>h. Inr (9, 10)), o_OpenPty = (\<lambda>h. Inr (11, 12)),
     o_Remove = (\<lambda>h p. Inr ()), o_Listen = (\<lambda>h p. Inr ()), o_Chmod = (\<lambda>h p m. Inr ())\<rparr>"

definition base_config :: PortoshimConfig where
  "base_config = \<lparr>ConfigPath = ''/etc/portoshim.yaml'', Socket = ''/run/portoshim.sock'',
     LogsDir = ''/var/log/portoshim'', VolumesDir = ''/place/portoshim_volumes'', RuntimeName = ''porto'',
     PortoSocket = ''/run/portod.socket'', SocketTimeout = 300000000000,
     ImagesDir = ''/place/porto_docker'', ParentContainer = [], ConfDir = ''/etc/cni/net.d'',
     BinDir = ''/opt/cni/bin'', NetnsDir = ''/var/run/netns'', NetType = ''netns'',
     StreamAddress = ''[::]'', StreamPort = 7255, PauseImage = ''registry.k8s.io/pause:3.7'',
     Registries = [], Place = [], SpecDirs = [''/etc/cdi'', ''/var/run/cdi'']\<rparr>"

definition base_env :: env where
  "base_env = \<lparr>Cfg = base_config, porto = base_porto, cni = base_cni, os = base_os\<rparr>"

definition base_world :: world where
  "base_world = \<lparr>w_trace = [], w_parent = Some [], w_tmpfs = [], w_registries = []\<rparr>"

lemmas base_defs = base_env_def base_porto_def base_cni_def base_os_def base_config_def
  base_world_def base_image_def no_container_def

end
