(* ===== verification/Porto_Id.thy ===== *)
theory Porto_Id
  imports World
begin

text \<open>
  Identifiers (the INTERNAL part of runtime_mapper.go and the helpers around it): how CRI
  identifiers are generated and classified as pods and containers, how they become names of Porto
  containers under the parent container, and how the alias of a privileged container is hidden.
\<close>

section \<open>Operations\<close>

definition privCntName :: string where
  "privCntName = ''privileged''"

definition create_id :: "string \<Rightarrow> nat \<Rightarrow> string" where
  "create_id name r =
     (let len = (if length name < 58 then length name else 58) in take len name @ ''-'' @ hex04 r)"

definition createID :: "env \<Rightarrow> string \<Rightarrow> string prog" where
  "createID E name = do { r \<leftarrow> Intn E 65536; ret (create_id name r) }"

definition getPodAndContainer :: "PortoshimConfig \<Rightarrow> string \<Rightarrow> string \<times> string" where
  "getPodAndContainer cfg i =
     (let idx = (if ParentContainer cfg \<noteq> [] \<and> HasPrefix i (ParentContainer cfg) then 1 else 0);
          parts = Split (CHR ''/'') i;
          podID = (if length parts > idx then parts ! idx else []);
          containerID = (if length parts > idx + 1 then parts ! (idx + 1) else [])
      in (podID, containerID))"

definition getParentCnt :: "env \<Rightarrow> string prog" where
  "getParentCnt E = do {
     w \<leftarrow> get_world;
     case w_parent w of
       Some p \<Rightarrow> ret p
     | None \<Rightarrow> do {
         r \<leftarrow> GetProperty E (ParentContainer (Cfg E)) ''absolute_name'';
         let p = (case r of Inl e \<Rightarrow> [] | Inr v \<Rightarrow> v);
         let q = (case after_last (CHR ''/'') p of None \<Rightarrow> p | Some t \<Rightarrow> t);
         mod_world (\<lambda>w. w\<lparr>w_parent := Some q\<rparr>);
         ret q
       }
   }"

definition checkSlashCount :: "nat \<Rightarrow> string \<Rightarrow> string \<Rightarrow> bool" where
  "checkSlashCount slashCount i parent =
     (let n = (if parent \<noteq> [] \<and> HasPrefix i parent
               then slashCount + count_char (CHR ''/'') parent + 1 else slashCount)
      in if list_ex (\<lambda>part. part = []) (Split (CHR ''/'') i) then False
         else count_char (CHR ''/'') i = n)"

definition isPod :: "string \<Rightarrow> string \<Rightarrow> bool" where
  "isPod i parent = checkSlashCount 0 i parent"

definition isContainer :: "string \<Rightarrow> string \<Rightarrow> bool" where
  "isContainer i parent = checkSlashCount 1 i parent"

definition isPrivilegedContainer :: "string \<Rightarrow> bool" where
  "isPrivilegedContainer i =
     (let parts = Split (CHR ''/'') i in length parts \<ge> 3 \<and> parts ! (length parts - 1) = privCntName)"

definition toContainerCriID :: "string \<Rightarrow> string" where
  "toContainerCriID i =
     (if \<not> isPrivilegedContainer i then i
      else let parts = Split (CHR ''/'') i in Join ''/'' (take (length parts - 1) parts))"

definition add_prefix :: "string \<Rightarrow> string \<Rightarrow> string" where
  "add_prefix parent i =
     (if parent \<noteq> [] then TrimPrefix (Join ''/'' [parent, i]) ''/'' else i)"

definition addPortoPrefix :: "env \<Rightarrow> string \<Rightarrow> string prog" where
  "addPortoPrefix E i = do { parent \<leftarrow> getParentCnt E; ret (add_prefix parent i) }"

text \<open>\<open>id[len(parent)+1:]\<close> panics when the name is the parent itself.\<close>

definition remove_prefix :: "string \<Rightarrow> string \<Rightarrow> string res" where
  "remove_prefix parent i =
     (if parent \<noteq> [] \<and> HasPrefix i parent
      then if length parent + 1 \<le> length i then Ok (drop (length parent + 1) i)
           else Panic ''slice bounds out of range''
      else Ok i)"

definition removePortoPrefix :: "env \<Rightarrow> string \<Rightarrow> string res prog" where
  "removePortoPrefix E i = do { parent \<leftarrow> getParentCnt E; ret (remove_prefix parent i) }"

text \<open>
  \<open>filterContainerIDs\<close> filters in place: \<open>filtered := ids[:0]\<close> shares the array of \<open>ids\<close>, so
  \<open>append\<close> writes into the slots the \<open>range\<close> loop has already read. The loop keeps the array, the
  read index and the number of elements written.
\<close>

definition under_target :: "string \<Rightarrow> string \<Rightarrow> bool" where
  "under_target target i \<longleftrightarrow> i = target \<or> HasPrefix i (target @ ''/'')"

function filter_loop :: "string \<Rightarrow> string \<Rightarrow> string list \<Rightarrow> nat \<Rightarrow> nat \<Rightarrow> string list res" where
  "filter_loop parent target arr i n =
     (if i < length arr
      then bind_res (remove_prefix parent (arr ! i)) (\<lambda>cid.
             if under_target target cid
             then filter_loop parent target (arr[n := arr ! i]) (Suc i) (Suc n)
             else filter_loop parent target arr (Suc i) n)
      else Ok (take n arr))"
  by pat_completeness auto
termination
  by (relation "measure (\<lambda>(parent, target, arr, i, n). length arr - i)") auto

declare filter_loop.simps [simp del]

definition filterContainerIDs :: "env \<Rightarrow> string list \<Rightarrow> string \<Rightarrow> string list res prog" where
  "filterContainerIDs E ids target =
     (if ids = [] then ret (Ok [])
      else do { parent \<leftarrow> getParentCnt E; ret (filter_loop parent target ids 0 0) })"

definition generateFullContainerName :: "env \<Rightarrow> string \<Rightarrow> string prog" where
  "generateFullContainerName E i = do {
     let privID = Join ''/'' [Dir i, Base i, privCntName];
     r \<leftarrow> GetProperty E privID ''state'';
     case r of
       Inr s \<Rightarrow> ret privID
     | Inl e \<Rightarrow> do {
         portoid \<leftarrow> addPortoPrefix E i;
         r2 \<leftarrow> GetProperty E portoid ''state'';
         ret portoid
       }
   }"

section \<open>Prefixing round trips\<close>

text \<open>
  The interface the handlers rely on: a name given to Porto is turned back into the CRI
  identifier it came from, whatever valid parent the shim runs under.
\<close>

locale id_alias =
  fixes add :: "'p \<Rightarrow> string \<Rightarrow> string" and rem :: "'p \<Rightarrow> string \<Rightarrow> string res"
    and valid_parent :: "'p \<Rightarrow> bool"
  assumes rem_add: "valid_parent p \<Longrightarrow> rem p (add p i) = Ok i"
begin

lemma add_inj: "valid_parent p \<Longrightarrow> add p i = add p j \<longleftrightarrow> i = j"
  by (metis rem_add res.inject(1))

lemma rem_map_add: "valid_parent p \<Longrightarrow> map (rem p) (map (add p) is) = map Ok is"
  by (simp add: rem_add)

end

definition slash_free :: "string \<Rightarrow> bool" where
  "slash_free p \<longleftrightarrow> CHR ''/'' \<notin> set p"

lemma add_prefix_slash_free:
  assumes "slash_free p"
  shows "add_prefix p i = (if p = [] then i else p @ CHR ''/'' # i)"
proof (cases p)
  case (Cons c cs)
  with assms have "c \<noteq> CHR ''/''" by (auto simp: slash_free_def)
  with Cons show ?thesis by (simp add: add_prefix_def TrimPrefix_def)
qed (simp add: add_prefix_def)

interpretation pid: id_alias add_prefix remove_prefix slash_free
  by unfold_locales (auto simp: add_prefix_slash_free remove_prefix_def)

text \<open>\<open>getParentCnt\<close> returns the last component of the parent's absolute name: no slash in it.\<close>

lemma parent_of_absolute_slash_free:
  "slash_free (case after_last (CHR ''/'') p of None \<Rightarrow> p | Some t \<Rightarrow> t)"
  by (auto simp: slash_free_def split: option.splits dest: after_last_Some)

definition parent_ok :: "world \<Rightarrow> bool" where
  "parent_ok w \<longleftrightarrow> (\<forall>p. w_parent w = Some p \<longrightarrow> slash_free p)"

lemma getParentCnt_cached [simp]:
  "w_parent w = Some p \<Longrightarrow> run_state (getParentCnt E) w = (p, w)"
  by (simp add: getParentCnt_def run_simps)

lemma getParentCnt_run:
  assumes "parent_ok w" "run_state (getParentCnt E) w = (p, w')"
  shows "slash_free p \<and> w_parent w' = Some p \<and> parent_ok w'"
  using assms parent_of_absolute_slash_free
  by (cases "w_parent w") (auto simp: getParentCnt_def run_simps Let_def parent_ok_def)

lemma emits_getParentCnt:
  "emits (getParentCnt E)
     (\<lambda>p es. es = [] \<or> (\<exists>r. es = [EvGetProperty (ParentContainer (Cfg E)) ''absolute_name'' r]))"
  unfolding getParentCnt_def GetProperty_def Let_def
  by (auto intro!: emits_bind [OF emits_get_world [where Q = "\<lambda>w es. es = []"]]
      emits_bind [OF emits_ask [where Q = "\<lambda>r es. es = [EvGetProperty (ParentContainer (Cfg E)) ''absolute_name'' r]"]]
      emits_bind [OF emits_mod_world [where Q = "\<lambda>r es. es = []"]]
      split: option.split)

lemma emits_addPortoPrefix:
  "emits (addPortoPrefix E i)
     (\<lambda>p es. es = [] \<or> (\<exists>r. es = [EvGetProperty (ParentContainer (Cfg E)) ''absolute_name'' r]))"
  unfolding addPortoPrefix_def by (rule emits_bind [OF emits_getParentCnt]) auto

section \<open>Classification\<close>

lemma checkSlashCount_excl: "checkSlashCount m i p \<Longrightarrow> checkSlashCount n i p \<Longrightarrow> m = n"
  by (auto simp: checkSlashCount_def Let_def split: if_splits)

lemma list_ex_Split_append:
  "list_ex (\<lambda>p. p = []) (Split c (s @ c # t)) \<longleftrightarrow>
     list_ex (\<lambda>p. p = []) (Split c s) \<or> list_ex (\<lambda>p. p = []) (Split c t)"
  by (simp add: Split_concat_sep)

text \<open>With the parent's prefix on, an identifier is classified by its own components.\<close>

lemma checkSlashCount_prefixed:
  assumes "slash_free p" "p \<noteq> []"
  shows "checkSlashCount n (p @ CHR ''/'' # i) p \<longleftrightarrow>
     list_all (\<lambda>part. part \<noteq> []) (Split (CHR ''/'') i) \<and> count_char (CHR ''/'') i = n"
proof -
  have "Split (CHR ''/'') p = [p]" "count_char (CHR ''/'') p = 0"
    using assms(1) by (simp_all add: slash_free_def)
  then have "list_ex (\<lambda>q. q = []) (Split (CHR ''/'') (p @ CHR ''/'' # i))
      \<longleftrightarrow> \<not> list_all (\<lambda>part. part \<noteq> []) (Split (CHR ''/'') i)"
    using assms(2) by (simp only: list_ex_Split_append) (auto simp: list_all_iff list_ex_iff)
  moreover have "count_char (CHR ''/'') (p @ CHR ''/'' # i) = count_char (CHR ''/'') i + 1"
    using \<open>count_char (CHR ''/'') p = 0\<close> by simp
  ultimately show ?thesis
    using assms(2) \<open>count_char (CHR ''/'') p = 0\<close>
    by (simp add: checkSlashCount_def Let_def)
qed

lemma checkSlashCount_no_prefix:
  assumes "p = [] \<or> \<not> HasPrefix i p"
  shows "checkSlashCount n i p \<longleftrightarrow>
     list_all (\<lambda>part. part \<noteq> []) (Split (CHR ''/'') i) \<and> count_char (CHR ''/'') i = n"
  using assms by (auto simp: checkSlashCount_def Let_def list_all_iff list_ex_iff)

text \<open>The shape of identifiers: a pod is one non-empty component, a container two.\<close>

definition pod_shape :: "string \<Rightarrow> bool" where
  "pod_shape i \<longleftrightarrow> i \<noteq> [] \<and> slash_free i"

definition container_shape :: "string \<Rightarrow> bool" where
  "container_shape i \<longleftrightarrow> (\<exists>a b. i = a @ CHR ''/'' # b \<and> pod_shape a \<and> pod_shape b)"

lemma count_zero_shape:
  "list_all (\<lambda>part. part \<noteq> []) (Split (CHR ''/'') i) \<and> count_char (CHR ''/'') i = 0 \<longleftrightarrow> pod_shape i"
  by (auto simp: pod_shape_def slash_free_def)

lemma count_one_split:
  "count_char c i = 1 \<longleftrightarrow> (\<exists>a b. i = a @ c # b \<and> c \<notin> set a \<and> c \<notin> set b)"
proof
  assume "count_char c i = 1"
  then have "c \<in> set i" using count_char_eq_0 [of c i] by auto
  then obtain a b where ab: "i = a @ c # b" "c \<notin> set a" by (meson split_list_first)
  with \<open>count_char c i = 1\<close> have "count_char c b = 0"
    using count_char_eq_0 [of c a] by simp
  with ab show "\<exists>a b. i = a @ c # b \<and> c \<notin> set a \<and> c \<notin> set b" by auto
next
  assume "\<exists>a b. i = a @ c # b \<and> c \<notin> set a \<and> c \<notin> set b"
  then show "count_char c i = 1" by auto
qed

lemma count_one_shape:
  "list_all (\<lambda>part. part \<noteq> []) (Split (CHR ''/'') i) \<and> count_char (CHR ''/'') i = 1 \<longleftrightarrow> container_shape i"
proof
  assume "list_all (\<lambda>part. part \<noteq> []) (Split (CHR ''/'') i) \<and> count_char (CHR ''/'') i = 1"
  then obtain a b where "i = a @ CHR ''/'' # b" "CHR ''/'' \<notin> set a" "CHR ''/'' \<notin> set b"
    "list_all (\<lambda>part. part \<noteq> []) (Split (CHR ''/'') i)"
    unfolding count_one_split by blast
  then show "container_shape i"
    unfolding container_shape_def pod_shape_def slash_free_def
    by (intro exI [of _ a] exI [of _ b]) (simp add: Split_append_sep)
next
  assume "container_shape i"
  then show "list_all (\<lambda>part. part \<noteq> []) (Split (CHR ''/'') i) \<and> count_char (CHR ''/'') i = 1"
    by (auto simp: container_shape_def pod_shape_def slash_free_def Split_append_sep)
qed

lemma isPod_iff:
  "p = [] \<or> \<not> HasPrefix i p \<Longrightarrow> isPod i p \<longleftrightarrow> pod_shape i"
  by (simp add: isPod_def checkSlashCount_no_prefix count_zero_shape del: count_char_eq_0)

lemma isContainer_iff:
  "p = [] \<or> \<not> HasPrefix i p \<Longrightarrow> isContainer i p \<longleftrightarrow> container_shape i"
  by (simp add: isContainer_def checkSlashCount_no_prefix count_one_shape del: One_nat_def)

section \<open>Privileged alias\<close>

lemma Split_three:
  assumes "slash_free a" "slash_free b" "slash_free c"
  shows "Split (CHR ''/'') (a @ CHR ''/'' # b @ CHR ''/'' # c) = [a, b, c]"
  using assms by (simp add: Split_append_sep slash_free_def)

lemma toContainerCriID_privileged:
  assumes "pod_shape a" "pod_shape b"
  shows "toContainerCriID (Join ''/'' [a, b, privCntName]) = Join ''/'' [a, b]"
proof -
  have "slash_free privCntName" by (simp add: slash_free_def privCntName_def)
  with assms have "Split (CHR ''/'') (Join ''/'' [a, b, privCntName]) = [a, b, privCntName]"
    using Split_three [of a b privCntName] by (simp add: pod_shape_def)
  then show ?thesis
    by (simp add: toContainerCriID_def isPrivilegedContainer_def)
qed

lemma toContainerCriID_plain:
  "container_shape i \<or> pod_shape i \<Longrightarrow> toContainerCriID i = i"
  by (auto simp: toContainerCriID_def isPrivilegedContainer_def container_shape_def pod_shape_def
      slash_free_def Split_append_sep)

lemma priv_name_of_container:
  assumes "plain_comp a" "plain_comp b"
  shows "Join ''/'' [Dir (a @ CHR ''/'' # b), Base (a @ CHR ''/'' # b), privCntName]
         = Join ''/'' [a, b, privCntName]"
proof -
  have "path_comps (a @ ''/'') = [a]"
    using assms(1) path_comps_sep [of a "[]"] by simp
  moreover have "\<not> IsAbs (a @ ''/'')" "a \<noteq> []" "a @ ''/'' \<noteq> []"
    using assms(1) by (auto simp: IsAbs_def plain_comp_def) (metis hd_append2 hd_in_set)
  ultimately have "Clean (a @ ''/'') = a"
    using assms(1) by (simp add: Clean_def Let_def)
  then have "Dir (a @ CHR ''/'' # b) = a"
    using assms(2) by (simp add: Dir_def plain_comp_def)
  moreover have "Base (a @ CHR ''/'' # b) = b"
    using assms(2) by (rule Base_file) auto
  ultimately show ?thesis by simp
qed

section \<open>Generated identifiers\<close>

lemma create_id_eq: "create_id name r = take 58 name @ ''-'' @ hex04 r"
  by (simp add: create_id_def Let_def)

lemma length_create_id: "r < 65536 \<Longrightarrow> length (create_id name r) = min (length name) 58 + 5"
  by (simp add: create_id_eq length_hex04)

lemma create_id_slash_free: "slash_free name \<Longrightarrow> slash_free (create_id name r)"
  using hex04_no_slash [of r] set_take_subset [of 58 name]
  by (auto simp: create_id_eq slash_free_def)

section \<open>The in-place filter\<close>

text \<open>The elements not yet read are untouched, so the loop computes the filtered list.\<close>

lemma filter_loop_spec:
  assumes "n \<le> i" "i \<le> length arr"
    "\<And>x. x \<in> set (drop i arr) \<Longrightarrow> \<exists>c. remove_prefix parent x = Ok c"
  shows "filter_loop parent target arr i n =
     Ok (take n arr @ filter (\<lambda>x. \<exists>c. remove_prefix parent x = Ok c \<and> under_target target c) (drop i arr))"
  using assms
proof (induction parent target arr i n rule: filter_loop.induct)
  case (1 parent target arr i n)
  show ?case
  proof (cases "i < length arr")
    case False
    with 1 show ?thesis by (simp add: filter_loop.simps)
  next
    case True
    then have d: "drop i arr = arr ! i # drop (Suc i) arr" by (rule Cons_nth_drop_Suc [symmetric])
    with "1.prems"(3) obtain c where c: "remove_prefix parent (arr ! i) = Ok c" by auto
    have rest: "\<And>x. x \<in> set (drop (Suc i) arr) \<Longrightarrow> \<exists>c. remove_prefix parent x = Ok c"
      using "1.prems"(3) d by auto
    show ?thesis
    proof (cases "under_target target c")
      case kept: True
      have same: "drop (Suc i) (arr[n := arr ! i]) = drop (Suc i) arr"
        using "1.prems"(1) by (simp add: drop_update_cancel)
      have "take (Suc n) (arr[n := arr ! i]) = take n arr @ [arr ! i]"
        using "1.prems"(1) True by (simp add: take_Suc_conv_app_nth)
      with "1.IH"(1) [OF True kept] "1.prems"(1) True rest same c kept show ?thesis
        by (subst filter_loop.simps) (simp add: d)
    next
      case skipped: False
      with "1.IH"(2) [OF True skipped] "1.prems"(1) True rest c show ?thesis
        by (subst filter_loop.simps) (simp add: d)
    qed
  qed
qed

lemma filter_loop_Ok:
  "filter_loop parent target arr i n = Ok out \<Longrightarrow> n \<le> i \<Longrightarrow> x \<in> set (drop i arr) \<Longrightarrow> \<exists>c. remove_prefix parent x = Ok c"
proof (induction parent target arr i n rule: filter_loop.induct)
  case (1 parent target arr i n)
  show ?case
  proof (cases "i < length arr")
    case True
    then obtain c where c: "remove_prefix parent (arr ! i) = Ok c"
      using "1.prems"(1) by (cases "remove_prefix parent (arr ! i)") (simp_all add: filter_loop.simps [of parent target arr i n])
    from True have d: "drop i arr = arr ! i # drop (Suc i) arr" by (simp add: Cons_nth_drop_Suc)
    have keep: "drop (Suc i) (arr[n := arr ! i]) = drop (Suc i) arr" using "1.prems"(2) by simp
    have "\<exists>c. remove_prefix parent x = Ok c" if "x \<in> set (drop (Suc i) arr)"
      using "1.IH" [OF True] "1.prems" True c keep that
      by (cases "under_target target c") (simp_all add: filter_loop.simps [of parent target arr i n])
    then show ?thesis using "1.prems"(3) c d by auto
  qed (use "1.prems"(3) in simp)
qed

lemma filterContainerIDs_sound:
  assumes "run_state (filterContainerIDs E ids target) w = (Ok out, w')" "w_parent w = Some p"
  shows "w' = w \<and> set out \<subseteq> {n \<in> set ids. \<exists>c. remove_prefix p n = Ok c \<and> under_target target c}"
proof (cases "ids = []")
  case False
  then have f: "filter_loop p target ids 0 0 = Ok out" "w' = w"
    using assms by (auto simp: filterContainerIDs_def)
  have "\<And>x. x \<in> set ids \<Longrightarrow> \<exists>c. remove_prefix p x = Ok c" using filter_loop_Ok [OF f(1)] by simp
  from filter_loop_spec [of 0 0 ids p target, OF _ _ this] f show ?thesis by auto
qed (use assms in \<open>simp add: filterContainerIDs_def\<close>)

section \<open>Properties\<close>

text \<open>
  The name given to Porto for a CRI identifier is turned back into that identifier, whether
  the shim runs at the top level or under a parent container.
\<close>

theorem porto_prefix_roundtrip:
  assumes "parent_ok w" "run_state (addPortoPrefix E i) w = (name, w')"
  shows "fst (run_state (removePortoPrefix E name) w') = Ok i"
proof -
  obtain p w1 where p: "run_state (getParentCnt E) w = (p, w1)" by force
  with assms(1) have ok: "slash_free p" "w_parent w1 = Some p"
    using getParentCnt_run by blast+
  from assms(2) p have "name = add_prefix p i" "w' = w1"
    by (auto simp: addPortoPrefix_def)
  with ok show ?thesis
    by (simp add: removePortoPrefix_def pid.rem_add)
qed

theorem porto_prefix_roundtrip_witness:
  "fst (run_state (removePortoPrefix base_env ''box/pod-0001'') (base_world\<lparr>w_parent := Some ''box''\<rparr>))
     = Ok ''pod-0001''"
proof (rule porto_prefix_roundtrip [of "base_world\<lparr>w_parent := Some ''box''\<rparr>" _ "''pod-0001''"])
  show "parent_ok (base_world\<lparr>w_parent := Some ''box''\<rparr>)"
    by (simp add: parent_ok_def slash_free_def)
  show "run_state (addPortoPrefix base_env ''pod-0001'') (base_world\<lparr>w_parent := Some ''box''\<rparr>)
      = (''box/pod-0001'', base_world\<lparr>w_parent := Some ''box''\<rparr>)"
    by (simp add: addPortoPrefix_def add_prefix_slash_free slash_free_def)
qed

text \<open>
  What removing the parent prefix does to an arbitrary name: it panics exactly on the parent's
  own name, and it cuts one character after any text that starts with the parent's name, also when
  that character is no slash, so the name of a container beside the parent is mangled.
\<close>

theorem remove_prefix_exact:
  "(is_Panic (remove_prefix p i) \<longleftrightarrow> p \<noteq> [] \<and> i = p)
   \<and> (p \<noteq> [] \<longrightarrow> remove_prefix p (p @ c # rest) = Ok rest)
   \<and> (p = [] \<or> \<not> HasPrefix i p \<longrightarrow> remove_prefix p i = Ok i)"
proof -
  have "is_Panic (remove_prefix p i) \<longleftrightarrow> p \<noteq> [] \<and> i = p"
    by (auto simp: remove_prefix_def prefix_def not_less_eq_eq [symmetric])
  then show ?thesis by (auto simp: remove_prefix_def)
qed

theorem remove_prefix_exact_witness:
  "is_Panic (remove_prefix ''ps'' ''ps'') \<and> remove_prefix ''ps'' ''ps-web-12ab'' = Ok ''web-12ab''
   \<and> remove_prefix ''ps'' ''app'' = Ok ''app''"
  using remove_prefix_exact [of "''ps''" "''ps''" "CHR ''-''" "''web-12ab''"]
    remove_prefix_exact [of "''ps''" "''app''" "CHR ''-''" "[]"] by simp

text \<open>
  Identifiers are classified by their shape: with the parent's prefix on, or without it when
  they do not start with the parent's name, a pod is one non-empty component and a container two;
  no identifier is both.
\<close>

theorem id_classification:
  "(slash_free p \<and> p \<noteq> [] \<longrightarrow>
      (isPod (p @ CHR ''/'' # i) p \<longleftrightarrow> pod_shape i) \<and> (isContainer (p @ CHR ''/'' # i) p \<longleftrightarrow> container_shape i))
   \<and> (p = [] \<or> \<not> HasPrefix i p \<longrightarrow>
      (isPod i p \<longleftrightarrow> pod_shape i) \<and> (isContainer i p \<longleftrightarrow> container_shape i))
   \<and> \<not> (isPod i p \<and> isContainer i p)"
proof (intro conjI impI)
  assume "slash_free p \<and> p \<noteq> []"
  then have p: "slash_free p" "p \<noteq> []" by auto
  show "isPod (p @ CHR ''/'' # i) p \<longleftrightarrow> pod_shape i"
    unfolding isPod_def checkSlashCount_prefixed [OF p] by (rule count_zero_shape)
  show "isContainer (p @ CHR ''/'' # i) p \<longleftrightarrow> container_shape i"
    unfolding isContainer_def checkSlashCount_prefixed [OF p] by (rule count_one_shape)
next
  assume "p = [] \<or> \<not> HasPrefix i p"
  then show "isPod i p \<longleftrightarrow> pod_shape i" "isContainer i p \<longleftrightarrow> container_shape i"
    by (rule isPod_iff, rule isContainer_iff)
next
  show "\<not> (isPod i p \<and> isContainer i p)"
    using checkSlashCount_excl [of 0 i p 1] by (auto simp: isPod_def isContainer_def)
qed

theorem id_classification_witness:
  "isPod ''box/pod-1'' ''box'' \<and> isContainer ''pod-1/app-2'' ''box''"
proof -
  have "pod_shape ''pod-1''" by (simp add: pod_shape_def slash_free_def)
  moreover have "container_shape ''pod-1/app-2''"
    unfolding container_shape_def
    by (intro exI [of _ "''pod-1''"] exI [of _ "''app-2''"]) (simp add: pod_shape_def slash_free_def)
  ultimately show ?thesis
    using id_classification [of "''box''" "''pod-1''"] id_classification [of "''box''" "''pod-1/app-2''"]
    by (simp add: slash_free_def)
qed

text \<open>
  Under a parent whose name is the beginning of a pod's name, the CRI identifier of a
  container of that pod (which carries no prefix) is taken for a pod and not for a container: the
  check looks for the prefix as text and not as a component.
\<close>

theorem container_taken_for_pod:
  assumes "slash_free p" "p \<noteq> []" "pod_shape (p @ s)" "pod_shape c" "s \<noteq> []"
  shows "isPod (p @ s @ CHR ''/'' # c) p \<and> \<not> isContainer (p @ s @ CHR ''/'' # c) p"
proof -
  have "count_char (CHR ''/'') p = 0" "count_char (CHR ''/'') s = 0" "count_char (CHR ''/'') c = 0"
    using assms by (simp_all add: pod_shape_def slash_free_def)
  moreover have "Split (CHR ''/'') ((p @ s) @ CHR ''/'' # c) = [p @ s, c]"
    using assms(3,4) by (subst Split_append_sep) (simp_all add: pod_shape_def slash_free_def)
  ultimately show ?thesis
    using assms by (simp add: isPod_def isContainer_def checkSlashCount_def pod_shape_def
        del: count_char_eq_0)
qed

theorem container_taken_for_pod_witness:
  "isPod ''ps-87378-0001/app-0002'' ''ps'' \<and> \<not> isContainer ''ps-87378-0001/app-0002'' ''ps''"
  using container_taken_for_pod [of "''ps''" "''-87378-0001''" "''app-0002''"]
  by (simp add: slash_free_def pod_shape_def)

text \<open>
  A generated identifier has at most 63 characters and the name of a container in its pod at
  most 127; for names without slashes they classify as pod and as container.
\<close>

theorem generated_ids:
  assumes "r < 65536" "s < 65536" "slash_free pod" "slash_free ctr"
  defines "i \<equiv> create_id pod r" and "j \<equiv> create_id ctr s"
  shows "length i \<le> 63 \<and> length (Join ''/'' [i, j]) \<le> 127
    \<and> isPod i [] \<and> isContainer (Join ''/'' [i, j]) []"
proof -
  have ne: "i \<noteq> []" "j \<noteq> []" by (simp_all add: i_def j_def create_id_eq)
  have sf: "slash_free i" "slash_free j"
    using assms(3,4) by (simp_all add: i_def j_def create_id_slash_free)
  then have "pod_shape i" "container_shape (Join ''/'' [i, j])"
    using ne by (auto simp: pod_shape_def container_shape_def)
  moreover have "length i \<le> 63" "length j \<le> 63"
    using assms(1,2) by (simp_all add: i_def j_def length_create_id)
  ultimately show ?thesis by (simp add: isPod_iff isContainer_iff)
qed

theorem generated_ids_witness:
  "length (create_id ''web'' 7) \<le> 63 \<and> length (Join ''/'' [create_id ''web'' 7, create_id ''app'' 65535]) \<le> 127
   \<and> isPod (create_id ''web'' 7) [] \<and> isContainer (Join ''/'' [create_id ''web'' 7, create_id ''app'' 65535]) []"
  by (rule generated_ids) (simp_all add: slash_free_def)

text \<open>
  Filtering container names in place gives what filtering into a fresh slice would give: the
  names whose CRI identifier is the target or below it, in their order.
\<close>

theorem filterContainerIDs_filters:
  assumes "w_parent w = Some p" "list_all (\<lambda>x. is_Ok (remove_prefix p x)) ids"
  shows "run_state (filterContainerIDs E ids target) w =
    (Ok (filter (\<lambda>x. case remove_prefix p x of Ok c \<Rightarrow> under_target target c | _ \<Rightarrow> False) ids), w)"
proof -
  have "(\<lambda>x. \<exists>c. remove_prefix p x = Ok c \<and> under_target target c)
      = (\<lambda>x. case remove_prefix p x of Ok c \<Rightarrow> under_target target c | _ \<Rightarrow> False)"
    by (rule ext) (simp split: res.splits)
  moreover have "\<And>x. x \<in> set ids \<Longrightarrow> \<exists>c. remove_prefix p x = Ok c"
    using assms(2) by (auto simp: list_all_iff is_Ok_iff)
  ultimately have "filter_loop p target ids 0 0 =
      Ok (filter (\<lambda>x. case remove_prefix p x of Ok c \<Rightarrow> under_target target c | _ \<Rightarrow> False) ids)"
    using filter_loop_spec [of 0 0 ids p target] by simp
  with assms(1) show ?thesis by (simp add: filterContainerIDs_def)
qed

theorem filterContainerIDs_filters_witness:
  "run_state (filterContainerIDs base_env [''pod/a'', ''pod/a/privileged'', ''pod/ab''] ''pod/a'') base_world
     = (Ok [''pod/a'', ''pod/a/privileged''], base_world)"
  by (subst filterContainerIDs_filters [where p = "[]"])
    (simp_all add: base_world_def remove_prefix_def under_target_def)

text \<open>
  The Porto name a container identifier "pod/cnt" stands for is its privileged child exactly
  when Porto has that child, and otherwise the prefixed identifier; in both cases the CRI
  identifier is recovered from the name.
\<close>

theorem full_name_alias:
  assumes "plain_comp a" "plain_comp b" "parent_ok w"
    and "run_state (generateFullContainerName E (a @ CHR ''/'' # b)) w = (n, w')"
  shows "case o_GetProperty (porto E) (w_trace w) (Join ''/'' [a, b, ''privileged'']) ''state'' of
           Inr st \<Rightarrow> n = Join ''/'' [a, b, ''privileged''] \<and> toContainerCriID n = a @ CHR ''/'' # b
         | Inl e \<Rightarrow> \<exists>p. w_parent w' = Some p \<and> n = add_prefix p (a @ CHR ''/'' # b)
                      \<and> remove_prefix p n = Ok (a @ CHR ''/'' # b)"
proof -
  let ?q = "Join ''/'' [a, b, privCntName]"
  have q: "Join ''/'' [Dir (a @ CHR ''/'' # b), Base (a @ CHR ''/'' # b), privCntName] = ?q"
    using assms(1,2) by (rule priv_name_of_container)
  have "pod_shape a" "pod_shape b"
    using assms(1,2) by (simp_all add: plain_comp_def pod_shape_def slash_free_def)
  then have cri: "toContainerCriID ?q = a @ CHR ''/'' # b"
    using toContainerCriID_privileged by simp
  show ?thesis
  proof (cases "o_GetProperty (porto E) (w_trace w) ?q ''state''")
    case (Inr st)
    with assms(4) have "n = ?q"
      unfolding generateFullContainerName_def Let_def q by (simp add: run_simps)
    with Inr cri show ?thesis by (simp add: privCntName_def)
  next
    case (Inl e)
    define w1 where "w1 = w\<lparr>w_trace := w_trace w @ [EvGetProperty ?q ''state'' (Inl e)]\<rparr>"
    obtain p w2 where p: "run_state (getParentCnt E) w1 = (p, w2)" by force
    have "parent_ok w1" using assms(3) by (simp add: parent_ok_def w1_def)
    from getParentCnt_run [OF this p] have ok: "slash_free p" "w_parent w2 = Some p" by auto
    from assms(4) Inl p have "n = add_prefix p (a @ CHR ''/'' # b)" "w_parent w' = w_parent w2"
      unfolding generateFullContainerName_def Let_def q
      by (auto simp: run_simps w1_def addPortoPrefix_def)
    with ok Inl show ?thesis by (simp add: privCntName_def pid.rem_add)
  qed
qed

theorem full_name_alias_witness:
  "case o_GetProperty (porto base_env) (w_trace base_world) (Join ''/'' [''pod'', ''cnt'', ''privileged'']) ''state'' of
      Inr st \<Rightarrow> ''pod/cnt'' = Join ''/'' [''pod'', ''cnt'', ''privileged''] \<and> toContainerCriID ''pod/cnt'' = ''pod/cnt''
    | Inl e \<Rightarrow> \<exists>p. w_parent (snd (run_state (generateFullContainerName base_env ''pod/cnt'') base_world)) = Some p
                 \<and> ''pod/cnt'' = add_prefix p ''pod/cnt'' \<and> remove_prefix p ''pod/cnt'' = Ok ''pod/cnt''"
proof -
  have a: "plain_comp ''pod''" "plain_comp ''cnt''" by (simp_all add: plain_comp_def)
  have w: "parent_ok base_world" by (simp add: parent_ok_def base_world_def slash_free_def)
  have "fst (run_state (generateFullContainerName base_env ''pod/cnt'') base_world) = ''pod/cnt''"
    by (simp add: generateFullContainerName_def addPortoPrefix_def add_prefix_def Let_def run_simps base_defs)
  then have r: "run_state (generateFullContainerName base_env (''pod'' @ CHR ''/'' # ''cnt'')) base_world
      = (''pod/cnt'', snd (run_state (generateFullContainerName base_env ''pod/cnt'') base_world))"
    by (simp add: prod_eq_iff)
  have c: "''pod'' @ CHR ''/'' # ''cnt'' = ''pod/cnt''" by simp
  show ?thesis using full_name_alias [OF a w r] unfolding c .
qed

end
