(* ===== verification/Base64.thy ===== *)
theory Base64
  imports Go_Strings
begin

text \<open>
  \<open>base64.RawStdEncoding\<close> of Go's encoding/base64: the standard alphabet without padding. The
  decoder skips CR and LF, refuses every other character outside the alphabet and a single
  left-over character, and does not check the trailing bits.
\<close>

definition b64_char :: "nat \<Rightarrow> char" where
  "b64_char n = char_of (if n < 26 then 65 + n else if n < 52 then 71 + n
                         else if n < 62 then n - 4 else if n = 62 then 43 else 47)"

definition b64_val :: "char \<Rightarrow> nat option" where
  "b64_val c =
     (let n = (of_char c :: nat) in
      if 65 \<le> n \<and> n \<le> 90 then Some (n - 65) else if 97 \<le> n \<and> n \<le> 122 then Some (n - 71)
      else if 48 \<le> n \<and> n \<le> 57 then Some (n + 4) else if n = 43 then Some 62
      else if n = 47 then Some 63 else None)"

fun enc_groups :: "nat list \<Rightarrow> nat list" where
  "enc_groups [] = []"
| "enc_groups [a] = [a div 4, a mod 4 * 16]"
| "enc_groups [a, b] = [a div 4, a mod 4 * 16 + b div 16, b mod 16 * 4]"
| "enc_groups (a # b # c # ns) =
     a div 4 # (a mod 4 * 16 + b div 16) # (b mod 16 * 4 + c div 64) # c mod 64 # enc_groups ns"

fun dec_groups :: "nat list \<Rightarrow> nat list option" where
  "dec_groups [] = Some []"
| "dec_groups [a] = None"
| "dec_groups [a, b] = Some [(a * 4 + b div 16) mod 256]"
| "dec_groups [a, b, c] = Some [(a * 4 + b div 16) mod 256, (b * 16 + c div 4) mod 256]"
| "dec_groups (a # b # c # d # ns) =
     map_option (\<lambda>r. (a * 4 + b div 16) mod 256 # (b * 16 + c div 4) mod 256
                     # (c * 64 + d) mod 256 # r) (dec_groups ns)"

definition b64_encode :: "string \<Rightarrow> string" where
  "b64_encode s = map b64_char (enc_groups (map of_char s))"

definition b64_decode :: "string \<Rightarrow> string option" where
  "b64_decode s =
     (let t = filter (\<lambda>c. c \<noteq> CHR 0x0A \<and> c \<noteq> CHR 0x0D) s
      in if list_all (\<lambda>c. b64_val c \<noteq> None) t
         then map_option (map char_of) (dec_groups (map (the \<circ> b64_val) t))
         else None)"

section \<open>Decoding inverts encoding\<close>

text \<open>Each value goes to a character of the alphabet and back, and no character of the
  alphabet is a separator the program uses or white space.\<close>

definition b64_safe :: "char \<Rightarrow> bool" where
  "b64_safe c \<longleftrightarrow> b64_val c \<noteq> None"

lemma b64_val_char [simp]: "n < 64 \<Longrightarrow> b64_val (b64_char n) = Some n"
  by (auto simp: b64_val_def b64_char_def Let_def)

lemma b64_char_safe: "n < 64 \<Longrightarrow> b64_safe (b64_char n)"
  by (simp add: b64_safe_def)

lemma b64_safe_plain: "b64_safe c \<Longrightarrow> plain_char c"
  by (auto simp: b64_safe_def b64_val_def plain_char_def Let_def split: if_splits)

lemma not_b64_safe [simp]:
  "\<not> b64_safe (CHR '';'')" "\<not> b64_safe (CHR '':'')" "\<not> b64_safe (CHR ''.'')" "\<not> b64_safe (CHR 0x0A)"
  "\<not> b64_safe (CHR 0x0D)" "\<not> b64_safe (CHR '' '')"
  by (simp_all add: b64_safe_def b64_val_def)

lemma six_bits:
  fixes a b c :: nat
  shows "a < 256 \<Longrightarrow> a div 4 < 64" "a mod 4 * 16 < 64" "b < 256 \<Longrightarrow> a mod 4 * 16 + b div 16 < 64"
    "b mod 16 * 4 < 64" "c < 256 \<Longrightarrow> b mod 16 * 4 + c div 64 < 64" "c mod 64 < 64"
proof -
  have m: "a mod 4 < 4" "b mod 16 < 16" "c mod 64 < 64" by simp_all
  show "a < 256 \<Longrightarrow> a div 4 < 64" by (rule less_mult_imp_div_less) simp
  show "a mod 4 * 16 < 64" "b mod 16 * 4 < 64" "c mod 64 < 64" using m by simp_all
  have "b < 256 \<Longrightarrow> b div 16 < 16" by (rule less_mult_imp_div_less) simp
  with m(1) show "b < 256 \<Longrightarrow> a mod 4 * 16 + b div 16 < 64" by linarith
  have "c < 256 \<Longrightarrow> c div 64 < 4" by (rule less_mult_imp_div_less) simp
  with m(2) show "c < 256 \<Longrightarrow> b mod 16 * 4 + c div 64 < 64" by linarith
qed

lemma enc_groups_bound: "\<forall>n \<in> set ns. n < 256 \<Longrightarrow> \<forall>m \<in> set (enc_groups ns). m < 64"
  by (induction ns rule: enc_groups.induct) (simp_all add: six_bits)

lemma enc_dec_bytes:
  fixes a b c :: nat
  assumes "a < 256" "b < 256" "c < 256"
  shows "(a div 4 * 4 + (a mod 4 * 16 + b div 16) div 16) mod 256 = a"
    and "((a mod 4 * 16 + b div 16) * 16 + (b mod 16 * 4 + c div 64) div 4) mod 256 = b"
    and "((b mod 16 * 4 + c div 64) * 64 + c mod 64) mod 256 = c"
proof -
  have lt: "b div 16 < 16" "c div 64 < 4"
    using assms(2,3) by (simp_all add: less_mult_imp_div_less)
  have q: "(a mod 4 * 16 + b div 16) div 16 = a mod 4" "(b mod 16 * 4 + c div 64) div 4 = b mod 16"
    using lt by simp_all
  have "a div 4 * 4 + a mod 4 = a" by simp
  then show "(a div 4 * 4 + (a mod 4 * 16 + b div 16) div 16) mod 256 = a"
    using assms(1) by (simp only: q(1) mod_less)
  have "(a mod 4 * 16 + b div 16) * 16 + b mod 16 = b + a mod 4 * 256"
    by (simp add: algebra_simps)
  then show "((a mod 4 * 16 + b div 16) * 16 + (b mod 16 * 4 + c div 64) div 4) mod 256 = b"
    using assms(2) by (simp add: q(2))
  have "(b mod 16 * 4 + c div 64) * 64 + c mod 64 = c + b mod 16 * 256"
    by (simp add: algebra_simps)
  then show "((b mod 16 * 4 + c div 64) * 64 + c mod 64) mod 256 = c"
    using assms(3) by simp
qed

lemma dec_enc_groups: "\<forall>n \<in> set ns. n < 256 \<Longrightarrow> dec_groups (enc_groups ns) = Some ns"
proof (induction ns rule: enc_groups.induct)
  case (2 a)
  then have "a < 256" by simp
  from enc_dec_bytes(1) [OF this, of 0 0] show ?case by simp
next
  case (3 a b)
  then have "a < 256" "b < 256" by simp_all
  from enc_dec_bytes(1,2) [OF this, of 0] show ?case by simp
next
  case (4 a b c ns)
  then have "a < 256" "b < 256" "c < 256" "dec_groups (enc_groups ns) = Some ns" by simp_all
  then show ?case using enc_dec_bytes [of a b c] by simp
qed simp

lemma b64_encode_safe: "c \<in> set (b64_encode s) \<Longrightarrow> b64_safe c"
proof -
  assume "c \<in> set (b64_encode s)"
  then obtain n where n: "n \<in> set (enc_groups (map of_char s))" "c = b64_char n"
    by (auto simp: b64_encode_def)
  have "\<forall>n \<in> set (map (of_char :: char \<Rightarrow> nat) s). n < 256" by auto
  from enc_groups_bound [OF this] n(1) have "n < 64" by blast
  then show ?thesis by (simp add: n(2) b64_char_safe)
qed

lemma b64_safe_not_crlf: "b64_safe c \<Longrightarrow> c \<noteq> CHR 0x0A \<and> c \<noteq> CHR 0x0D"
  by (metis not_b64_safe(4,5))

theorem b64_decode_encode: "b64_decode (b64_encode s) = Some s"
proof -
  let ?ns = "map (of_char :: char \<Rightarrow> nat) s"
  have bytes: "\<forall>n \<in> set ?ns. n < 256" by auto
  then have six: "\<forall>m \<in> set (enc_groups ?ns). m < 64" by (rule enc_groups_bound)
  have keep: "filter (\<lambda>c. c \<noteq> CHR 0x0A \<and> c \<noteq> CHR 0x0D) (b64_encode s) = b64_encode s"
    using b64_encode_safe [THEN b64_safe_not_crlf] by (simp add: filter_id_conv)
  have vals: "map (the \<circ> b64_val) (b64_encode s) = enc_groups ?ns"
    unfolding b64_encode_def map_map by (rule map_idI) (use six in auto)
  have valid: "list_all (\<lambda>c. b64_val c \<noteq> None) (b64_encode s)"
    using six by (auto simp: b64_encode_def list_all_iff)
  have "dec_groups (map (the \<circ> b64_val) (b64_encode s)) = Some ?ns"
    using bytes by (simp add: vals dec_enc_groups)
  moreover have "map (char_of \<circ> (of_char :: char \<Rightarrow> nat)) s = s"
    by (rule map_idI) simp
  ultimately show ?thesis
    using valid by (simp add: b64_decode_def keep Let_def)
qed

lemma b64_encode_inj: "b64_encode s = b64_encode t \<longleftrightarrow> s = t"
  by (metis b64_decode_encode option.inject)

lemma b64_encode_no [simp]:
  "CHR '';'' \<notin> set (b64_encode s)" "CHR '':'' \<notin> set (b64_encode s)" "CHR ''.'' \<notin> set (b64_encode s)"
  by (metis b64_encode_safe not_b64_safe)+

lemma TrimSpace_b64 [simp]: "TrimSpace (b64_encode s) = b64_encode s"
proof (cases "b64_encode s = []")
  case False
  then have "hd (b64_encode s) \<in> set (b64_encode s)" "last (b64_encode s) \<in> set (b64_encode s)"
    by simp_all
  then have "plain_char (hd (b64_encode s))" "plain_char (last (b64_encode s))"
    by (metis b64_encode_safe b64_safe_plain)+
  then show ?thesis by (simp add: TrimSpace_plain)
qed (simp add: TrimSpace_plain)

end
