(* ===== verification/Cri.thy ===== *)
theory Cri
  imports Go_Numbers
begin

text \<open>
  The messages of the Container Runtime Interface the handlers read and write (package v1 of
  cri-api). A nil message whose getters answer zero values is the record of zero values; a pointer
  the source compares with nil is an option.
\<close>

datatype PodSandboxState = SANDBOX_READY | SANDBOX_NOTREADY

datatype ContainerState = CONTAINER_CREATED | CONTAINER_RUNNING | CONTAINER_EXITED | CONTAINER_UNKNOWN

datatype NamespaceMode = NS_POD | NS_CONTAINER | NS_NODE | NS_TARGET

record PodSandboxMetadata =
  pm_Name :: string
  pm_Uid :: string
  pm_Namespace :: string
  pm_Attempt :: u32

record ContainerMetadata =
  cm_Name :: string
  cm_Attempt :: u32

record LinuxContainerResources =
  CpuQuota :: i64
  MemoryLimitInBytes :: i64

record DNSConfig =
  Servers :: "string list"
  Searches :: "string list"
  Options :: "string list"

record PodSandboxConfig =
  pc_Metadata :: PodSandboxMetadata
  pc_Labels :: "(string, string) gomap"
  pc_Annotations :: "(string, string) gomap"
  pc_Hostname :: string
  pc_Dns :: "DNSConfig option"
  pc_Resources :: "LinuxContainerResources option"
  pc_NetworkMode :: "NamespaceMode option"
  pc_Sysctls :: "(string, string) gomap"

record Mount =
  ContainerPath :: string
  HostPath :: string
  Readonly :: bool

record CriDevice =
  d_ContainerPath :: string
  d_HostPath :: string
  d_Permissions :: string

record ContainerConfig =
  cc_Metadata :: ContainerMetadata
  cc_Image :: string
  cc_Command :: "string list"
  cc_Args :: "string list"
  cc_Envs :: "(string \<times> string) list"
  cc_Mounts :: "Mount list"
  cc_Devices :: "CriDevice list"
  cc_Labels :: "(string, string) gomap"
  cc_Annotations :: "(string, string) gomap"
  cc_Resources :: "LinuxContainerResources option"
  cc_Privileged :: bool

record PodSandboxNetworkStatus =
  n_Ip :: string
  n_AdditionalIps :: "string list"

record PodSandboxStatus =
  ps_Id :: string
  ps_Metadata :: PodSandboxMetadata
  ps_State :: PodSandboxState
  ps_CreatedAt :: i64
  ps_Network :: PodSandboxNetworkStatus
  ps_NetworkMode :: NamespaceMode
  ps_Labels :: "(string, string) gomap"
  ps_Annotations :: "(string, string) gomap"

record PodSandbox =
  pl_Id :: string
  pl_Metadata :: PodSandboxMetadata
  pl_State :: PodSandboxState
  pl_CreatedAt :: i64
  pl_Labels :: "(string, string) gomap"
  pl_Annotations :: "(string, string) gomap"

record CriContainer =
  c_Id :: string
  c_PodSandboxId :: string
  c_Metadata :: ContainerMetadata
  c_Image :: string
  c_State :: ContainerState
  c_CreatedAt :: i64
  c_Labels :: "(string, string) gomap"
  c_Annotations :: "(string, string) gomap"

record ContainerStatusRec =
  cs_Id :: string
  cs_Metadata :: ContainerMetadata
  cs_State :: ContainerState
  cs_CreatedAt :: i64
  cs_StartedAt :: i64
  cs_FinishedAt :: i64
  cs_ExitCode :: i32
  cs_Image :: string
  cs_Labels :: "(string, string) gomap"
  cs_Annotations :: "(string, string) gomap"
  cs_LogPath :: string

record ExecSyncResponse =
  Stdout :: string
  Stderr :: string
  ExitCode :: i32

end
