(* ===== verification/Labels.thy ===== *)
theory Labels
  imports Porto_Id Base64 Cri
begin

text \<open>
  Labels, annotations and the property texts of Porto (runtime_mapper.go): the base64 label
  encoding, the labels a pod and a container carry, what is read back from them, and the
  conversion of states, times and numbers.
\<close>

section \<open>Encoding\<close>

definition convertBase64 :: "string \<Rightarrow> bool \<Rightarrow> string" where
  "convertBase64 src enc =
     (if enc then b64_encode src
      else case b64_decode src of None \<Rightarrow> src | Some dst \<Rightarrow> dst)"

definition encodeLabel :: "string \<Rightarrow> string \<Rightarrow> string" where
  "encodeLabel src pfx =
     (let dst = convertBase64 src True in if pfx \<noteq> [] then pfx @ ''.'' @ dst else dst)"

definition decodeLabel :: "string \<Rightarrow> string \<Rightarrow> string" where
  "decodeLabel src pfx =
     (let dst = (if pfx \<noteq> [] then TrimPrefix src (pfx @ ''.'') else src) in convertBase64 dst False)"

definition convertToStringMap :: "(string, string) gomap \<Rightarrow> (string, string) gomap" where
  "convertToStringMap m = map (\<lambda>(k, v). (k, v)) m"

definition convertToPortoLabels ::
  "(string, string) gomap \<Rightarrow> (string, string) gomap \<Rightarrow> (string, string) gomap" where
  "convertToPortoLabels labels annotations =
     (let m1 = foldl (\<lambda>m (k, v). mset_at (encodeLabel k ''LABEL'') (encodeLabel v []) m) [] labels
      in foldl (\<lambda>m (k, v). mset_at (encodeLabel k ''ANNOTATION'') (encodeLabel v []) m) m1 annotations)"

text \<open>\<open>splitedPair[1]\<close> panics on a pair without a colon.\<close>

fun from_pairs :: "string list \<Rightarrow> (string, string) gomap \<Rightarrow> (string, string) gomap
    \<Rightarrow> ((string, string) gomap \<times> (string, string) gomap) res" where
  "from_pairs [] labels annotations = Ok (labels, annotations)"
| "from_pairs (pair # pairs) labels annotations =
     (case Split (CHR '':'') pair of
        a # b # r \<Rightarrow>
          let rawLabel = TrimSpace a; rawValue = TrimSpace b
          in if HasPrefix rawLabel ''LABEL''
             then from_pairs pairs (mset_at (decodeLabel rawLabel ''LABEL'') (decodeLabel rawValue []) labels) annotations
             else if HasPrefix rawLabel ''ANNOTATION''
             then from_pairs pairs labels (mset_at (decodeLabel rawLabel ''ANNOTATION'') (decodeLabel rawValue []) annotations)
             else from_pairs pairs labels annotations
      | _ \<Rightarrow> Panic ''index out of range [1] with length 1'')"

definition convertFromPortoLabels ::
  "string \<Rightarrow> ((string, string) gomap \<times> (string, string) gomap) res" where
  "convertFromPortoLabels portoLabels =
     (if length portoLabels = 0 then Ok ([], [])
      else from_pairs (Split (CHR '';'') portoLabels) [] [])"

section \<open>The labels of pods and containers\<close>

definition set_default :: "string \<Rightarrow> string \<Rightarrow> (string, string) gomap \<Rightarrow> (string, string) gomap" where
  "set_default k v m = (if mget m k = None then if v \<noteq> [] then mset_at k v m else m else m)"

definition pod_labels :: "env \<Rightarrow> string \<Rightarrow> PodSandboxConfig \<Rightarrow> (string, string) gomap" where
  "pod_labels E i cfg =
     (let md = pc_Metadata cfg;
          l = pc_Labels cfg;
          l = set_default ''io.kubernetes.pod.name'' (pm_Name md) l;
          l = set_default ''io.kubernetes.pod.uid'' (pm_Uid md) l;
          l = set_default ''io.kubernetes.pod.namespace'' (pm_Namespace md) l;
          l = mset_at ''attempt'' (dec (unat (pm_Attempt md))) l;
          l = mset_at ''portoshim.pod.id'' i l
      in mset_at ''portoshim.pod.image'' (PauseImage (Cfg E)) l)"

definition preparePodLabels :: "env \<Rightarrow> TContainerSpec \<Rightarrow> PodSandboxConfig \<Rightarrow> TContainerSpec" where
  "preparePodLabels E podSpec cfg =
     (let portoLabels = convertToPortoLabels (pod_labels E (Name podSpec) cfg) (pc_Annotations cfg);
          portoLabels = mset_at ''INFRA.engine'' ''k8s'' portoLabels
      in podSpec\<lparr>Labels := Some (convertToStringMap portoLabels)\<rparr>)"

text \<open>\<open>marshal\<close> is \<open>json.Marshal\<close> on a list of strings, which does not fail.\<close>

definition container_labels :: "(string list \<Rightarrow> string) \<Rightarrow> string \<Rightarrow> ContainerConfig \<Rightarrow> string \<Rightarrow> string
    \<Rightarrow> string list \<Rightarrow> bool \<Rightarrow> (string, string) gomap" where
  "container_labels marshal i cfg img logPath privCmds privileged =
     (let md = cc_Metadata cfg;
          l = cc_Labels cfg;
          l = set_default ''io.kubernetes.container.name'' (cm_Name md) l;
          l = mset_at ''attempt'' (dec (unat (cm_Attempt md))) l;
          l = mset_at ''io.kubernetes.container.logpath'' logPath l;
          l = mset_at ''portoshim.container.id'' i l;
          l = mset_at ''portoshim.container.image'' img l
      in if privileged
         then mset_at ''privCmd'' (marshal privCmds) (mset_at ''priv'' ''true'' l)
         else l)"

definition prepareContainerLabels :: "(string list \<Rightarrow> string) \<Rightarrow> TContainerSpec \<Rightarrow> ContainerConfig
    \<Rightarrow> string \<Rightarrow> string \<Rightarrow> string list \<Rightarrow> bool \<Rightarrow> TContainerSpec" where
  "prepareContainerLabels marshal containerSpec cfg img logPath privCmds privileged =
     (let labels = container_labels marshal (Name containerSpec) cfg img logPath privCmds privileged;
          portoLabels = convertToPortoLabels labels (cc_Annotations cfg);
          portoLabels = mset_at ''INFRA.engine'' ''k8s'' portoLabels
      in containerSpec\<lparr>Labels := Some (convertToStringMap portoLabels)\<rparr>)"

section \<open>Values, metadata and states\<close>

definition convertValueToUint :: "string \<Rightarrow> u64" where
  "convertValueToUint value =
     (case parse_uint 64 value of (res, None) \<Rightarrow> of_nat res | (res, Some e) \<Rightarrow> 0)"

definition convertValueToInt :: "string \<Rightarrow> i64" where
  "convertValueToInt value =
     (case parse_int 64 value of (res, None) \<Rightarrow> of_int res | (res, Some e) \<Rightarrow> 0)"

text \<open>\<open>time.Unix(sec, 0).UnixNano()\<close> multiplies in \<open>int64\<close>.\<close>

definition convertValueToTime :: "string \<Rightarrow> i64" where
  "convertValueToTime value = convertValueToInt value * 1000000000"

definition convertPodMetadata :: "(string, string) gomap \<Rightarrow> PodSandboxMetadata" where
  "convertPodMetadata labels =
     \<lparr>pm_Name = mget_str labels ''io.kubernetes.pod.name'',
      pm_Uid = mget_str labels ''io.kubernetes.pod.uid'',
      pm_Namespace = mget_str labels ''io.kubernetes.pod.namespace'',
      pm_Attempt = of_nat (fst (parse_uint 64 (mget_str labels ''attempt'')))\<rparr>"

definition convertContainerMetadata :: "(string, string) gomap \<Rightarrow> ContainerMetadata" where
  "convertContainerMetadata labels =
     \<lparr>cm_Name = mget_str labels ''io.kubernetes.container.name'',
      cm_Attempt = of_nat (fst (parse_uint 64 (mget_str labels ''attempt'')))\<rparr>"

definition podStateMap :: "(string, PodSandboxState) gomap" where
  "podStateMap =
     [(''stopped'', SANDBOX_NOTREADY), (''paused'', SANDBOX_NOTREADY), (''starting'', SANDBOX_NOTREADY),
      (''running'', SANDBOX_READY), (''stopping'', SANDBOX_NOTREADY), (''respawning'', SANDBOX_NOTREADY),
      (''meta'', SANDBOX_NOTREADY), (''dead'', SANDBOX_NOTREADY)]"

definition containerStateMap :: "(string, ContainerState) gomap" where
  "containerStateMap =
     [(''stopped'', CONTAINER_CREATED), (''paused'', CONTAINER_RUNNING), (''starting'', CONTAINER_RUNNING),
      (''running'', CONTAINER_RUNNING), (''stopping'', CONTAINER_RUNNING), (''respawning'', CONTAINER_RUNNING),
      (''meta'', CONTAINER_RUNNING), (''dead'', CONTAINER_EXITED)]"

definition convertPodState :: "string \<Rightarrow> PodSandboxState" where
  "convertPodState state = (case mget podStateMap state of Some s \<Rightarrow> s | None \<Rightarrow> SANDBOX_NOTREADY)"

definition convertContainerState :: "string \<Rightarrow> ContainerState" where
  "convertContainerState state =
     (case mget containerStateMap state of Some s \<Rightarrow> s | None \<Rightarrow> CONTAINER_UNKNOWN)"

section \<open>Reading properties\<close>

fun collect_values :: "GetValue list \<Rightarrow> (string, string) gomap \<Rightarrow> (string, string) gomap res" where
  "collect_values [] props = Ok props"
| "collect_values (v # vs) props =
     (if ValError v = Some EError_ContainerDoesNotExist
      then Err (Errorf ''getProperties'' [ValErrorMsg v])
      else collect_values vs (mset_at (Variable v) (Val v) props))"

fun collect_items :: "string \<Rightarrow> GetResponse \<Rightarrow> (string, string) gomap \<Rightarrow> (string, string) gomap res" where
  "collect_items i [] props = Ok props"
| "collect_items i ((name, vals) # items) props =
     (if name \<noteq> i then collect_items i items props
      else bind_res (collect_values vals props) (\<lambda>props. collect_items i items props))"

definition getProperties :: "env \<Rightarrow> string \<Rightarrow> string list \<Rightarrow> (string, string) gomap res prog" where
  "getProperties E i names = do {
     rsp \<leftarrow> Get E [i] names;
     case rsp of
       Inl err \<Rightarrow> ret (Err (FmtV ''getProperties'' err))
     | Inr items \<Rightarrow> ret (collect_items i items [])
   }"

section \<open>The codec interface\<close>

text \<open>
  What reading labels back needs of their encoding: it is inverted by the decoder, it contains
  neither the separator of pairs nor the one of key and value, and trimming leaves it alone.
\<close>

locale label_codec =
  fixes enc :: "string \<Rightarrow> string" and dcd :: "string \<Rightarrow> string"
  assumes dcd_enc: "dcd (enc s) = s"
    and enc_no_semi: "CHR '';'' \<notin> set (enc s)"
    and enc_no_colon: "CHR '':'' \<notin> set (enc s)"
    and enc_trim: "TrimSpace (enc s) = enc s"
begin

lemma enc_inj: "enc s = enc t \<longleftrightarrow> s = t"
  by (metis dcd_enc)

lemma pair_split:
  assumes "CHR '':'' \<notin> set k"
  shows "Split (CHR '':'') (k @ CHR '':'' # replicate n (CHR '' '') @ enc v) = [k, replicate n (CHR '' '') @ enc v]"
  using assms enc_no_colon [of v] by (simp add: Split_append_sep)

lemma pair_no_semi:
  assumes "CHR '';'' \<notin> set k"
  shows "CHR '';'' \<notin> set (k @ CHR '':'' # replicate n (CHR '' '') @ enc v)"
  using assms enc_no_semi [of v] by auto

lemma trim_blanks_enc: "TrimSpace (replicate n (CHR '' '') @ enc v) = enc v"
  by (induction n) (simp_all add: TrimSpace_blank enc_trim)

lemma dcd_trim_blanks: "dcd (TrimSpace (replicate n (CHR '' '') @ enc v)) = v"
  by (simp add: trim_blanks_enc dcd_enc)

end

interpretation b64: label_codec "\<lambda>s. convertBase64 s True" "\<lambda>s. convertBase64 s False"
  by unfold_locales (simp_all add: convertBase64_def b64_decode_encode)

lemma encodeLabel_value [simp]: "encodeLabel v [] = convertBase64 v True"
  by (simp add: encodeLabel_def)

lemma decodeLabel_value [simp]: "decodeLabel s [] = convertBase64 s False"
  by (simp add: decodeLabel_def)

lemma decode_encodeLabel: "decodeLabel (encodeLabel k pfx) pfx = k"
  using TrimPrefix_append [of "pfx @ ''.''"] by (auto simp: decodeLabel_def encodeLabel_def Let_def b64.dcd_enc)

lemma encodeLabel_inj: "encodeLabel k p = encodeLabel k' p \<longleftrightarrow> k = k'"
  by (metis decode_encodeLabel)

section \<open>Labels read back\<close>

text \<open>
  How portod prints the property "labels": the entries in some order, key and value separated by
  a colon, entries by a semicolon, with any number of blanks before each key and each value. A text
  is given by its entries with the numbers of blanks.
\<close>

type_synonym padded = "(string \<times> string) \<times> nat \<times> nat"

fun render_entry :: "padded \<Rightarrow> string" where
  "render_entry ((k, v), i, j) =
     replicate i (CHR '' '') @ k @ CHR '':'' # replicate j (CHR '' '') @ v"

definition render_labels :: "padded list \<Rightarrow> string" where
  "render_labels es = Join '';'' (map render_entry es)"

text \<open>An entry the shim wrote: a label, an annotation, or the engine mark.\<close>

datatype entry = LabelE string string | AnnotationE string string | EngineE

fun porto_entry :: "entry \<Rightarrow> string \<times> string" where
  "porto_entry (LabelE k v) = (encodeLabel k ''LABEL'', encodeLabel v [])"
| "porto_entry (AnnotationE k v) = (encodeLabel k ''ANNOTATION'', encodeLabel v [])"
| "porto_entry EngineE = (''INFRA.engine'', ''k8s'')"

fun label_of :: "entry \<Rightarrow> (string \<times> string) option" where
  "label_of (LabelE k v) = Some (k, v)"
| "label_of _ = None"

fun annotation_of :: "entry \<Rightarrow> (string \<times> string) option" where
  "annotation_of (AnnotationE k v) = Some (k, v)"
| "annotation_of _ = None"

lemma porto_entry_inj: "porto_entry a = porto_entry b \<longleftrightarrow> a = b"
proof -
  have enc: "encodeLabel x p = p @ CHR ''.'' # convertBase64 x True" if "p \<noteq> []" for x p
    using that by (simp add: encodeLabel_def)
  show ?thesis
    by (cases a; cases b) (auto simp: b64.enc_inj encodeLabel_inj, auto simp: enc)
qed

lemma trim_key:
  assumes "k \<noteq> []" "plain_char (hd k)" "plain_char (last k)"
  shows "TrimSpace (replicate i (CHR '' '') @ k) = k"
  using assms by (induction i) (simp_all add: TrimSpace_blank TrimSpace_plain)

lemma trim_encoded_key:
  assumes "p \<noteq> []" "plain_char (hd p)"
  shows "TrimSpace (replicate i (CHR '' '') @ encodeLabel k p) = encodeLabel k p"
proof (rule trim_key)
  have e: "encodeLabel k p = p @ CHR ''.'' # b64_encode k"
    using assms(1) by (simp add: encodeLabel_def convertBase64_def)
  show "encodeLabel k p \<noteq> []" "plain_char (hd (encodeLabel k p))"
    using assms by (simp_all add: e)
  have "plain_char (last (CHR ''.'' # b64_encode k))"
  proof (cases "b64_encode k = []")
    case True
    then show ?thesis by (simp add: plain_char_def)
  next
    case False
    then have "last (b64_encode k) \<in> set (b64_encode k)" by simp
    then have "b64_safe (last (b64_encode k))" by (rule b64_encode_safe)
    with False show ?thesis by (simp add: b64_safe_plain)
  qed
  then show "plain_char (last (encodeLabel k p))" by (simp add: e)
qed

lemma encodeLabel_clean:
  assumes "p \<noteq> []" "c \<notin> set p" "c \<noteq> CHR ''.''" "c \<notin> set (b64_encode k)"
  shows "c \<notin> set (encodeLabel k p)"
  using assms by (simp add: encodeLabel_def convertBase64_def)

lemma HasPrefix_encodeLabel:
  "HasPrefix (encodeLabel k ''LABEL'') ''LABEL''" "HasPrefix (encodeLabel k ''ANNOTATION'') ''ANNOTATION''"
  "\<not> HasPrefix (encodeLabel k ''ANNOTATION'') ''LABEL''"
  by (simp_all add: encodeLabel_def)

text \<open>One entry of the text is read as the entry that was written.\<close>

lemma from_pairs_entry:
  "from_pairs (render_entry (porto_entry e, i, j) # ps) L A =
     from_pairs ps
       (case label_of e of None \<Rightarrow> L | Some (k, v) \<Rightarrow> mset_at k v L)
       (case annotation_of e of None \<Rightarrow> A | Some (k, v) \<Rightarrow> mset_at k v A)"
proof (cases e)
  case (LabelE k v)
  have "CHR '':'' \<notin> set (replicate i (CHR '' '') @ encodeLabel k ''LABEL'')"
    using encodeLabel_clean [of "''LABEL''" "CHR '':''" k] by simp
  from b64.pair_split [OF this, of j v] show ?thesis
    by (simp add: LabelE HasPrefix_encodeLabel trim_encoded_key plain_char_def
        b64.dcd_trim_blanks decode_encodeLabel Let_def)
next
  case (AnnotationE k v)
  have "CHR '':'' \<notin> set (replicate i (CHR '' '') @ encodeLabel k ''ANNOTATION'')"
    using encodeLabel_clean [of "''ANNOTATION''" "CHR '':''" k] by simp
  from b64.pair_split [OF this, of j v] show ?thesis
    by (simp add: AnnotationE HasPrefix_encodeLabel trim_encoded_key plain_char_def
        b64.dcd_trim_blanks decode_encodeLabel Let_def)
next
  case EngineE
  have "CHR '':'' \<notin> set (replicate i (CHR '' '') @ ''INFRA.engine'')" by auto
  then have "Split (CHR '':'') (render_entry (porto_entry EngineE, i, j))
      = [replicate i (CHR '' '') @ ''INFRA.engine'', replicate j (CHR '' '') @ ''k8s'']"
    using Split_append_sep [of "CHR '':''" "replicate i (CHR '' '') @ ''INFRA.engine''"
        "replicate j (CHR '' '') @ ''k8s''"] by simp
  moreover have "TrimSpace (replicate i (CHR '' '') @ ''INFRA.engine'') = ''INFRA.engine''"
    by (rule trim_key) (simp_all add: plain_char_def)
  ultimately show ?thesis by (simp add: EngineE Let_def)
qed

lemma update_fresh: "k \<notin> fst ` set m \<Longrightarrow> AList.update k v m = m @ [(k, v)]"
  by (induction m) auto

lemma from_pairs_entries:
  assumes "wf_map (L @ List.map_filter label_of es)" "wf_map (A @ List.map_filter annotation_of es)"
    "length pads = length es"
  shows "from_pairs (map render_entry (zip (map porto_entry es) pads)) L A =
     Ok (L @ List.map_filter label_of es, A @ List.map_filter annotation_of es)"
  using assms
proof (induction es arbitrary: pads L A)
  case Nil
  then show ?case by (simp add: List.map_filter_simps)
next
  case (Cons e es)
  then obtain i j ps where pads: "pads = (i, j) # ps" "length ps = length es"
    by (cases pads) auto
  show ?case
  proof (cases e)
    case (LabelE k v)
    with Cons.prems have "AList.update k v L = L @ [(k, v)]"
      by (intro update_fresh) (auto simp: List.map_filter_simps)
    with Cons.prems Cons.IH [of "L @ [(k, v)]" A ps] pads LabelE show ?thesis
      by (simp add: from_pairs_entry List.map_filter_simps del: render_entry.simps from_pairs.simps porto_entry.simps)
  next
    case (AnnotationE k v)
    with Cons.prems have "AList.update k v A = A @ [(k, v)]"
      by (intro update_fresh) (auto simp: List.map_filter_simps)
    with Cons.prems Cons.IH [of L "A @ [(k, v)]" ps] pads AnnotationE show ?thesis
      by (simp add: from_pairs_entry List.map_filter_simps del: render_entry.simps from_pairs.simps porto_entry.simps)
  next
    case EngineE
    with Cons.prems Cons.IH [of L A ps] pads show ?thesis
      by (simp add: from_pairs_entry List.map_filter_simps del: render_entry.simps from_pairs.simps porto_entry.simps)
  qed
qed

section \<open>What is written\<close>

lemma foldl_update_entries:
  assumes "wf_map m" "inj f" "\<And>x. x \<in> fst ` set m \<Longrightarrow> f x \<notin> fst ` set acc"
  shows "foldl (\<lambda>a (k, v). mset_at (f k) (g v) a) acc m = acc @ map (\<lambda>(k, v). (f k, g v)) m"
  using assms(1,3)
proof (induction m arbitrary: acc)
  case (Cons kv m)
  obtain k v where kv: "kv = (k, v)" by force
  with Cons.prems(2) have "mset_at (f k) (g v) acc = acc @ [(f k, g v)]"
    by (intro update_fresh) simp
  moreover have "f x \<notin> fst ` set (acc @ [(f k, g v)])" if "x \<in> fst ` set m" for x
  proof -
    from that Cons.prems(1) kv have "x \<noteq> k" by auto
    with assms(2) have "f x \<noteq> f k" by (simp add: inj_eq)
    with Cons.prems(2) that show ?thesis by simp
  qed
  ultimately show ?case using Cons kv by simp
qed simp

lemma convertToPortoLabels_entries:
  assumes "wf_map L" "wf_map A"
  shows "mset_at ''INFRA.engine'' ''k8s'' (convertToPortoLabels L A) =
    map porto_entry (map (\<lambda>(k, v). LabelE k v) L @ map (\<lambda>(k, v). AnnotationE k v) A @ [EngineE])"
proof -
  let ?l = "\<lambda>k. encodeLabel k ''LABEL''" and ?a = "\<lambda>k. encodeLabel k ''ANNOTATION''"
  have neq: "?l x \<noteq> ?a y" "?l x \<noteq> ''INFRA.engine''" "?a x \<noteq> ''INFRA.engine''" for x y
    by (simp_all add: encodeLabel_def)
  have inj: "inj ?l" "inj ?a" by (simp_all add: inj_def encodeLabel_inj)
  have 1: "foldl (\<lambda>m (k, v). mset_at (?l k) (encodeLabel v []) m) [] L
      = map (\<lambda>(k, v). (?l k, encodeLabel v [])) L" (is "_ = ?L")
    using foldl_update_entries [OF assms(1) inj(1), of "[]" "\<lambda>v. encodeLabel v []"] by simp
  have 2: "foldl (\<lambda>m (k, v). mset_at (?a k) (encodeLabel v []) m) ?L A
      = ?L @ map (\<lambda>(k, v). (?a k, encodeLabel v [])) A" (is "_ = ?L @ ?A")
  proof (rule foldl_update_entries [OF assms(2) inj(2)])
    show "?a x \<notin> fst ` set ?L" for x
      using neq(1) [of _ x, symmetric] by (auto simp: image_iff split_beta)
  qed
  have 3: "mset_at ''INFRA.engine'' ''k8s'' (?L @ ?A) = (?L @ ?A) @ [(''INFRA.engine'', ''k8s'')]"
    using neq(2,3) by (intro update_fresh) (auto simp: image_iff split_beta, metis neq(2), metis neq(3))
  show ?thesis
    unfolding convertToPortoLabels_def Let_def 1 2 3 by (simp add: comp_def split_beta)
qed

lemma map_filter_entries [simp]:
  "List.map_filter label_of (map (\<lambda>(k, v). LabelE k v) L) = L"
  "List.map_filter label_of (map (\<lambda>(k, v). AnnotationE k v) A) = []"
  "List.map_filter annotation_of (map (\<lambda>(k, v). LabelE k v) L) = []"
  "List.map_filter annotation_of (map (\<lambda>(k, v). AnnotationE k v) A) = A"
  by (induction L, auto simp: List.map_filter_simps) (induction A, auto simp: List.map_filter_simps)+

lemma map_filter_append: "List.map_filter f (xs @ ys) = List.map_filter f xs @ List.map_filter f ys"
  by (simp add: map_filter_filter)

lemma mset_map_filter_cong:
  "mset xs = mset ys \<Longrightarrow> mset (List.map_filter f xs) = mset (List.map_filter f ys)"
  by (simp add: map_filter_filter)

lemma permuted_preimage:
  assumes "inj f" "mset zs = mset (map f xs)"
  shows "\<exists>ys. mset ys = mset xs \<and> map f ys = zs"
proof (intro exI conjI)
  have "set zs \<subseteq> range f"
    using mset_eq_setD [OF assms(2)] by auto
  then show m: "map f (map (inv f) zs) = zs"
    by (auto simp: f_inv_into_f subset_iff intro!: map_idI)
  have "image_mset f (mset (map (inv f) zs)) = image_mset f (mset xs)"
    using assms(2) m by (metis mset_map)
  with assms(1) show "mset (map (inv f) zs) = mset xs"
    by (meson injD multiset.inj_map)
qed

lemma render_entry_no_semi:
  "CHR '';'' \<notin> set (render_entry (porto_entry e, i, j))"
  using encodeLabel_clean [of _ "CHR '';''"] b64.enc_no_semi
  by (cases e) (auto simp: encodeLabel_def convertBase64_def)

text \<open>Reading a text of written entries back gives their labels and annotations.\<close>

lemma convertFromPortoLabels_entries:
  assumes "wf_map (List.map_filter label_of es)" "wf_map (List.map_filter annotation_of es)"
    "length pads = length es" "es \<noteq> []"
  shows "convertFromPortoLabels (render_labels (zip (map porto_entry es) pads)) =
     Ok (List.map_filter label_of es, List.map_filter annotation_of es)"
proof -
  let ?ps = "map render_entry (zip (map porto_entry es) pads)"
  have parts: "Split (CHR '';'') (Join '';'' ?ps) = ?ps"
  proof (rule Split_Join)
    show "?ps \<noteq> []" using assms(3,4) by (cases es; cases pads) auto
    fix x assume "x \<in> set ?ps"
    then obtain u p where u: "x = render_entry (u, p)" "(u, p) \<in> set (zip (map porto_entry es) pads)"
      by auto
    from set_zip_leftD [OF u(2)] obtain e where "u = porto_entry e" by auto
    with u(1) have "x = render_entry (porto_entry e, p)" by simp
    then show "CHR '';'' \<notin> set x"
      using render_entry_no_semi by (cases p) simp
  qed
  have "Join '';'' ?ps \<noteq> []"
  proof
    assume "Join '';'' ?ps = []"
    then have "?ps = [[]]" using parts by simp
    moreover have "x \<noteq> []" if "x \<in> set ?ps" for x
      using that by (auto simp: in_set_zip)
    ultimately show False by simp
  qed
  then show ?thesis
    using assms parts from_pairs_entries [of "[]" es "[]" pads]
    by (simp add: convertFromPortoLabels_def render_labels_def)
qed

lemma labels_roundtrip_lemma:
  assumes "wf_map L" "wf_map A"
    and "mset (map fst es) = mset (mset_at ''INFRA.engine'' ''k8s'' (convertToPortoLabels L A))"
  shows "\<exists>L' A'. convertFromPortoLabels (render_labels es) = Ok (L', A')
    \<and> mset L' = mset L \<and> mset A' = mset A \<and> map_of L' = map_of L \<and> map_of A' = map_of A"
proof -
  let ?xs = "map (\<lambda>(k, v). LabelE k v) L @ map (\<lambda>(k, v). AnnotationE k v) A @ [EngineE]"
  have "inj porto_entry" by (simp add: inj_def porto_entry_inj)
  moreover have "mset (map fst es) = mset (map porto_entry ?xs)"
    using assms(3) convertToPortoLabels_entries [OF assms(1,2)] by simp
  ultimately obtain ys where ys: "mset ys = mset ?xs" "map porto_entry ys = map fst es"
    using permuted_preimage by blast
  let ?L = "List.map_filter label_of ys" and ?A = "List.map_filter annotation_of ys"
  have L: "mset ?L = mset L" and A: "mset ?A = mset A"
    using mset_map_filter_cong [OF ys(1), of label_of] mset_map_filter_cong [OF ys(1), of annotation_of]
    by (simp_all add: map_filter_append List.map_filter_simps)
  have wf: "wf_map ?L" "wf_map ?A"
    using assms(1,2) L A by (metis mset_eq_imp_distinct_iff mset_map)+
  have "length ys = length (map snd es)" "ys \<noteq> []"
    using ys by (metis length_map, auto)
  moreover have "zip (map porto_entry ys) (map snd es) = es"
    by (simp add: ys(2) zip_map_fst_snd)
  ultimately have "convertFromPortoLabels (render_labels es) = Ok (?L, ?A)"
    using convertFromPortoLabels_entries [OF wf, of "map snd es"] by simp
  then show ?thesis
    using L A assms(1,2) map_of_eq_of_perm by blast
qed

lemma pod_metadata_lemma:
  "convertPodMetadata (pod_labels E i cfg) =
     (let own = \<lambda>k v. case mget (pc_Labels cfg) k of Some u \<Rightarrow> u | None \<Rightarrow> v; md = pc_Metadata cfg
      in \<lparr>pm_Name = own ''io.kubernetes.pod.name'' (pm_Name md),
          pm_Uid = own ''io.kubernetes.pod.uid'' (pm_Uid md),
          pm_Namespace = own ''io.kubernetes.pod.namespace'' (pm_Namespace md),
          pm_Attempt = pm_Attempt md\<rparr>)"
proof -
  have att: "parse_uint 64 (dec (unat a)) = (unat a, None)" for a :: u32
  proof (rule parse_uint_dec)
    have "unat a < 2 ^ LENGTH(32)" by (rule unsigned_less)
    then show "unat a < 2 ^ 64" by simp
  qed
  have get: "mget_str (set_default k v m) k' =
      (if k' = k then case mget m k of Some u \<Rightarrow> u | None \<Rightarrow> v else mget_str m k')" for k k' v m
    by (auto simp: set_default_def mget_str_def update_conv' split: option.splits)
  have keep: "mget (set_default k v m) k' = mget m k'" if "k' \<noteq> k" for k k' v m
    using that by (simp add: set_default_def update_conv')
  show ?thesis
    by (simp add: convertPodMetadata_def pod_labels_def Let_def get keep att)
qed

section \<open>Properties\<close>

text \<open>
  C1. The labels and annotations the shim stores on a container are read back unchanged: for
  all labels and annotations, in whatever order portod prints the stored entries and with
  whatever blanks it puts before keys and values, convertFromPortoLabels returns exactly the
  labels and the annotations given to convertToPortoLabels.
\<close>

theorem labels_roundtrip:
  assumes "wf_map L" "wf_map A"
    and "mset (map fst es) = mset (mset_at ''INFRA.engine'' ''k8s'' (convertToPortoLabels L A))"
  shows "\<exists>L' A'. convertFromPortoLabels (render_labels es) = Ok (L', A')
    \<and> mset L' = mset L \<and> mset A' = mset A \<and> map_of L' = map_of L \<and> map_of A' = map_of A"
  using labels_roundtrip_lemma [OF assms] .

text \<open>A concrete instance: one label and one annotation, stored entries printed in another order
  with blanks as portod prints them.\<close>

theorem labels_roundtrip_witness:
  "\<exists>L' A'. convertFromPortoLabels (render_labels
       [((''INFRA.engine'', ''k8s''), 0, 1), ((''ANNOTATION.bg'', ''MQ''), 1, 1),
        ((''LABEL.YXBw'', ''d2Vi''), 1, 1)]) = Ok (L', A')
     \<and> mset L' = mset [(''app'', ''web'')] \<and> mset A' = mset [(''n'', ''1'')]
     \<and> map_of L' = map_of [(''app'', ''web'')] \<and> map_of A' = map_of [(''n'', ''1'')]"
proof (rule labels_roundtrip)
  have "mset_at ''INFRA.engine'' ''k8s'' (convertToPortoLabels [(''app'', ''web'')] [(''n'', ''1'')])
      = [(''LABEL.YXBw'', ''d2Vi''), (''ANNOTATION.bg'', ''MQ''), (''INFRA.engine'', ''k8s'')]"
    by code_simp
  then show "mset (map fst [((''INFRA.engine'', ''k8s''), 0 :: nat, 1 :: nat),
        ((''ANNOTATION.bg'', ''MQ''), 1, 1), ((''LABEL.YXBw'', ''d2Vi''), 1, 1)])
      = mset (mset_at ''INFRA.engine'' ''k8s'' (convertToPortoLabels [(''app'', ''web'')] [(''n'', ''1'')]))"
    by (simp add: add_mset_commute)
qed simp_all

text \<open>
  Reading labels never fails with an error, and it panics (index out of range) exactly when
  the text is not empty and one of its parts between semicolons has no colon, for instance after a
  trailing semicolon.
\<close>

theorem convertFromPortoLabels_panic_iff:
  "(is_Panic (convertFromPortoLabels s) \<longleftrightarrow>
      s \<noteq> [] \<and> list_ex (\<lambda>p. CHR '':'' \<notin> set p) (Split (CHR '';'') s))
   \<and> (is_Panic (convertFromPortoLabels s) \<or> is_Ok (convertFromPortoLabels s))"
proof -
  have two: "(\<exists>a b r. Split (CHR '':'') p = a # b # r) \<longleftrightarrow> CHR '':'' \<in> set p" for p
  proof -
    have "length (Split (CHR '':'') p) \<ge> 2 \<longleftrightarrow> CHR '':'' \<in> set p"
      using length_Split [of "CHR '':''" p] count_char_eq_0 [of "CHR '':''" p]
      by (metis Suc_le_mono le_zero_eq not_less_eq_eq numeral_2_eq_2)
    moreover have "(\<exists>a b r. xs = a # b # r) \<longleftrightarrow> length xs \<ge> 2" for xs :: "string list"
      by (cases xs; cases "tl xs") auto
    ultimately show ?thesis by simp
  qed
  have main: "is_Panic (from_pairs ps L A) = list_ex (\<lambda>p. CHR '':'' \<notin> set p) ps
      \<and> is_Ok (from_pairs ps L A) = (\<not> list_ex (\<lambda>p. CHR '':'' \<notin> set p) ps)" for ps L A
  proof (induction ps arbitrary: L A)
    case (Cons p ps)
    show ?case
    proof (cases "CHR '':'' \<in> set p")
      case True
      then obtain a b r where "Split (CHR '':'') p = a # b # r" using two by blast
      with True Cons.IH show ?thesis by (simp add: Let_def)
    next
      case False
      then show ?thesis by simp
    qed
  qed simp
  show ?thesis by (simp add: convertFromPortoLabels_def main)
qed

text \<open>
  The metadata of a pod survives its labels: read from the labels preparePodLabels sets, the
  attempt is the one of the request, and name, uid and namespace are those of the request unless
  the request's own labels already give them.
\<close>

theorem pod_metadata_roundtrip:
  "convertPodMetadata (pod_labels E i cfg) =
     (let own = \<lambda>k v. case mget (pc_Labels cfg) k of Some u \<Rightarrow> u | None \<Rightarrow> v; md = pc_Metadata cfg
      in \<lparr>pm_Name = own ''io.kubernetes.pod.name'' (pm_Name md),
          pm_Uid = own ''io.kubernetes.pod.uid'' (pm_Uid md),
          pm_Namespace = own ''io.kubernetes.pod.namespace'' (pm_Namespace md),
          pm_Attempt = pm_Attempt md\<rparr>)"
  by (rule pod_metadata_lemma)

text \<open>
  State conversion is total and exact: a pod is ready only in the Porto state "running"; a
  container is exited only in "dead", created only in "stopped", and unknown only in a state Porto
  does not have.
\<close>

theorem state_conversion:
  "(convertPodState s = SANDBOX_READY \<longleftrightarrow> s = ''running'')
   \<and> (convertContainerState s = CONTAINER_EXITED \<longleftrightarrow> s = ''dead'')
   \<and> (convertContainerState s = CONTAINER_CREATED \<longleftrightarrow> s = ''stopped'')
   \<and> (convertContainerState s = CONTAINER_UNKNOWN \<longleftrightarrow> s \<notin> fst ` set containerStateMap)"
proof -
  have 1: "convertPodState s = SANDBOX_READY \<longleftrightarrow> s = ''running''"
    by (auto simp: convertPodState_def podStateMap_def)
  have 2: "convertContainerState s = CONTAINER_EXITED \<longleftrightarrow> s = ''dead''"
    by (auto simp: convertContainerState_def containerStateMap_def)
  have 3: "convertContainerState s = CONTAINER_CREATED \<longleftrightarrow> s = ''stopped''"
    by (auto simp: convertContainerState_def containerStateMap_def)
  have 4: "convertContainerState s = CONTAINER_UNKNOWN \<longleftrightarrow> s \<notin> fst ` set containerStateMap"
    by (auto simp: convertContainerState_def containerStateMap_def)
  from 1 2 3 4 show ?thesis by simp
qed

text \<open>
  Times: a decimal number of seconds that fits nanoseconds in an int64 is converted to
  exactly that many nanoseconds; text that is no number converts to 0.
\<close>

theorem convertValueToTime_exact:
  "(int n * 1000000000 < 2 ^ 63 \<longrightarrow> sint (convertValueToTime (dec n)) = int n * 1000000000)
   \<and> (snd (parse_int 64 s) \<noteq> None \<longrightarrow> convertValueToTime s = 0)"
proof (intro conjI impI)
  assume n: "int n * 1000000000 < 2 ^ 63"
  then have "n < 2 ^ 63" by simp
  then have "parse_int 64 (dec n) = (int n, None)"
    by (intro parse_int_dec) simp_all
  then have "convertValueToTime (dec n) = of_int (int n * 1000000000)"
    by (simp add: convertValueToTime_def convertValueToInt_def)
  moreover have "sint (of_int (int n * 1000000000) :: i64) = int n * 1000000000"
    unfolding sint_sbintrunc' using n by (intro signed_take_bit_int_eq_self) simp_all
  ultimately show "sint (convertValueToTime (dec n)) = int n * 1000000000" by simp
next
  assume "snd (parse_int 64 s) \<noteq> None"
  then show "convertValueToTime s = 0"
    by (cases "parse_int 64 s") (auto simp: convertValueToTime_def convertValueToInt_def)
qed

theorem convertValueToTime_exact_witness:
  "sint (convertValueToTime (dec 1700000000)) = 1700000000000000000
   \<and> convertValueToTime ''n/a'' = 0"
  using convertValueToTime_exact [of 1700000000 "''n/a''"]
  by (simp add: parse_int_def parse_uint_def digit_val_def Let_def)

end
