(* ===== verification/Command.thy ===== *)
theory Command
  imports Cri World Porto_Id
begin

text \<open>
  The command and the environment of a container (runtime_mapper.go, "command and env"): finding
  the executable in the container root, wrapping the command, and the lists of variables.
\<close>

section \<open>Operations\<close>

definition defaultEnvPath :: string where
  "defaultEnvPath = ''/usr/local/bin:/usr/local/sbin:/usr/bin:/usr/sbin:/bin:/sbin''"

definition wrapCmdWithLogShim :: "string list \<Rightarrow> string list res" where
  "wrapCmdWithLogShim cmd = (case cmd of
     [] \<Rightarrow> Panic ''index out of range''
   | c # cs \<Rightarrow> Ok (if c \<noteq> ''/pause'' then ''/usr/sbin/logshim'' # cmd else cmd))"

definition maxSymlinkResolveDepth :: nat where
  "maxSymlinkResolveDepth = 10"

text \<open>Where a symlink at \<open>path\<close> leads.\<close>

definition link_target :: "string \<Rightarrow> string \<Rightarrow> string" where
  "link_target path target =
     (if target \<noteq> [] \<and> hd target \<noteq> CHR ''/'' then path_Join [Dir path, target] else target)"

function chroot_executable :: "(string \<Rightarrow> goerr + FileInfo) \<Rightarrow> (string \<Rightarrow> goerr + string)
  \<Rightarrow> string \<Rightarrow> string \<Rightarrow> nat \<Rightarrow> bool res" where
  "chroot_executable lstat readlink root path depth =
     (if depth > maxSymlinkResolveDepth then Err (Errorf ''too many levels of symbolic links'' [])
      else let absPath = path_Join [root, path] in
        case lstat absPath of
          Inl e \<Rightarrow> Err (WrapW ''failed to lstat path'' e)
        | Inr fi \<Rightarrow>
            if ModeSymlink fi
            then (case readlink absPath of
                    Inl e \<Rightarrow> Err (WrapW ''failed to read link'' e)
                  | Inr target \<Rightarrow> chroot_executable lstat readlink root (link_target path target) (depth + 1))
            else Ok (ModeExec fi \<and> \<not> ModeDir fi))"
  by pat_completeness auto
termination
  by (relation "measure (\<lambda>(lstat, readlink, root, path, depth). Suc maxSymlinkResolveDepth - depth)") auto

declare chroot_executable.simps [simp del]

definition isChrootPathExecutable :: "env \<Rightarrow> string \<Rightarrow> string \<Rightarrow> nat \<Rightarrow> bool res prog" where
  "isChrootPathExecutable E root path depth =
     look (\<lambda>h. chroot_executable (o_Lstat (os E) h) (o_Readlink (os E) h) root path depth)"

fun find_executable :: "(string \<Rightarrow> bool res) \<Rightarrow> string \<Rightarrow> string list \<Rightarrow> string" where
  "find_executable check cmd [] = []"
| "find_executable check cmd (p # ps) =
     (let candidate = path_Join [p, cmd] in
      case check candidate of Ok True \<Rightarrow> candidate | _ \<Rightarrow> find_executable check cmd ps)"

definition findChrootExecutable :: "env \<Rightarrow> string \<Rightarrow> string \<Rightarrow> string \<Rightarrow> string prog" where
  "findChrootExecutable E path root cmd =
     look (\<lambda>h. find_executable (\<lambda>c. chroot_executable (o_Lstat (os E) h) (o_Readlink (os E) h) root c 1) cmd
               (Split (CHR '':'') path))"

definition findEnvPathOrDefault :: "(string \<times> string) list \<Rightarrow> string" where
  "findEnvPathOrDefault env = (case map_of env ''PATH'' of Some v \<Rightarrow> v | None \<Rightarrow> defaultEnvPath)"

fun envToVars :: "string list \<Rightarrow> (string \<times> string) list" where
  "envToVars [] = []"
| "envToVars (v # vs) =
     (case SplitN2 (CHR ''='') v of [name, val] \<Rightarrow> (name, val) # envToVars vs | _ \<Rightarrow> envToVars vs)"

definition getRootPath :: "env \<Rightarrow> string \<Rightarrow> string" where
  "getRootPath E i = path_Join [VolumesDir (Cfg E), i]"

definition spec_env :: "TContainerSpec \<Rightarrow> (string \<times> string) list" where
  "spec_env spec = (case Env spec of None \<Rightarrow> [] | Some vs \<Rightarrow> vs)"

definition prepareCommand :: "env \<Rightarrow> TContainerSpec \<Rightarrow> string list \<Rightarrow> string list \<Rightarrow> string list \<Rightarrow> bool
  \<Rightarrow> TContainerSpec res prog" where
  "prepareCommand E spec cfgCmd cfgArgs imgCmd disableLogShim =
     (let i = Name spec;
          env = spec_env spec;
          cmd = (if length cfgCmd > 0 then cfgCmd else imgCmd) @ cfgArgs
      in if length cmd < 1 then ret (Err (Errorf ''got empty command for container'' [i]))
         else if length (cmd ! 0) < 1 then ret (Err (Errorf ''got malformed command for container'' [i]))
         else do {
           cmd1 \<leftarrow> (if cmd ! 0 ! 0 \<noteq> CHR ''/''
                    then do {
                      execPath \<leftarrow> findChrootExecutable E (findEnvPathOrDefault env) (getRootPath E i) (cmd ! 0);
                      ret (if execPath \<noteq> [] then cmd[0 := execPath]
                           else [''/bin/sh'', ''-c'', ''exec \"$0\" \"$@\"''] @ cmd)
                    }
                    else ret cmd);
           let cmd2 = (if \<not> disableLogShim then wrapCmdWithLogShim cmd1 else Ok cmd1);
           ret (bind_res cmd2 (\<lambda>argv. Ok (spec\<lparr>CommandArgv := Some argv\<rparr>)))
         })"

text \<open>\<open>string(rune(0x10FFFF))\<close>\<close>

definition specChar :: string where
  "specChar = [CHR 0xF4, CHR 0x8F, CHR 0xBF, CHR 0xBF]"

definition escaped_semicolon :: string where
  "escaped_semicolon = [CHR 0x5C, CHR '';'']"

definition exec_env_items :: "string \<Rightarrow> string list" where
  "exec_env_items env =
     (if Contains env escaped_semicolon
      then map (ReplaceAll specChar '';'') (Split (CHR '';'') (ReplaceAll escaped_semicolon specChar env))
      else Split (CHR '';'') env)"

definition prepareExecEnv :: "TContainerSpec \<Rightarrow> string \<Rightarrow> TContainerSpec" where
  "prepareExecEnv spec env = spec\<lparr>Env := Some (envToVars (exec_env_items env))\<rparr>"

definition prepareEnv :: "TContainerSpec \<Rightarrow> (string \<times> string) list \<Rightarrow> TDockerImage \<Rightarrow> TContainerSpec" where
  "prepareEnv spec env img = spec\<lparr>Env := Some (envToVars (ConfigEnv img) @ env)\<rparr>"

section \<open>Lemmas: environments\<close>

definition render_var :: "string \<times> string \<Rightarrow> string" where
  "render_var kv = fst kv @ CHR ''='' # snd kv"

lemma envToVars_render:
  "\<forall>kv \<in> set vs. CHR ''='' \<notin> set (fst kv) \<Longrightarrow> envToVars (map render_var vs) = vs"
  by (induction vs) (auto simp: render_var_def)

lemma envToVars_append: "envToVars (xs @ ys) = envToVars xs @ envToVars ys"
  by (induction xs) (auto split: list.splits)

lemma Contains_iff: "Contains s p \<longleftrightarrow> (\<exists>a b. s = a @ p @ b)"
proof (induction s)
  case (Cons x s)
  have "(\<exists>a b. x # s = a @ p @ b) \<longleftrightarrow> prefix p (x # s) \<or> (\<exists>a b. s = a @ p @ b)"
  proof
    assume "\<exists>a b. x # s = a @ p @ b"
    then obtain a b where ab: "x # s = a @ p @ b" by auto
    then show "prefix p (x # s) \<or> (\<exists>a b. s = a @ p @ b)"
    proof (cases a)
      case Nil
      with ab show ?thesis by simp
    next
      case (Cons y a')
      with ab show ?thesis by auto
    qed
  next
    assume "prefix p (x # s) \<or> (\<exists>a b. s = a @ p @ b)"
    then show "\<exists>a b. x # s = a @ p @ b"
      by (auto simp: prefix_def) (metis append_Nil, metis append_Cons)
  qed
  then show ?case using Cons by simp
qed simp

text \<open>Semicolons replaced by another text.\<close>

definition put :: "string \<Rightarrow> string \<Rightarrow> string" where
  "put sp x = concat (map (\<lambda>c. if c = CHR '';'' then sp else [c]) x)"

lemma put_simps [simp]: "put sp [] = []" "put sp (c # x) = (if c = CHR '';'' then sp else [c]) @ put sp x"
  by (simp_all add: put_def)

lemma put_no_semicolon: "CHR '';'' \<notin> set sp \<Longrightarrow> CHR '';'' \<notin> set (put sp x)"
  by (induction x) auto

lemma ReplaceAll_escapes:
  assumes "x = [] \<or> last x \<noteq> CHR 0x5C"
  shows "ReplaceAll escaped_semicolon sp (put escaped_semicolon x @ t)
       = put sp x @ ReplaceAll escaped_semicolon sp t"
  using assms
proof (induction x)
  case (Cons c x)
  then have IH: "ReplaceAll escaped_semicolon sp (put escaped_semicolon x @ t)
       = put sp x @ ReplaceAll escaped_semicolon sp t" by (cases x) auto
  show ?case
  proof (cases "c = CHR '';''")
    case True
    then show ?thesis using IH by (simp add: escaped_semicolon_def del: append.simps)
  next
    case False
    have "\<not> prefix escaped_semicolon (c # put escaped_semicolon x @ t)"
      using Cons.prems False by (cases x) (auto simp: escaped_semicolon_def split: if_splits)
    then show ?thesis using IH False by (simp add: ReplaceAll_skip escaped_semicolon_def)
  qed
qed simp

lemma ReplaceAll_sep:
  "ReplaceAll escaped_semicolon sp (CHR '';'' # t) = CHR '';'' # ReplaceAll escaped_semicolon sp t"
  by (simp add: ReplaceAll_skip escaped_semicolon_def)

lemma ReplaceAll_joined:
  assumes "\<And>x. x \<in> set xs \<Longrightarrow> x = [] \<or> last x \<noteq> CHR 0x5C"
  shows "ReplaceAll escaped_semicolon sp (Join '';'' (map (put escaped_semicolon) xs))
       = Join '';'' (map (put sp) xs)"
  using assms
proof (induction xs rule: induct_list012)
  case (2 x)
  then show ?case using ReplaceAll_escapes [of x sp "[]"] by simp
next
  case (3 x y ys)
  then show ?case by (simp add: ReplaceAll_escapes ReplaceAll_sep)
qed simp

lemma ReplaceAll_put:
  "CHR 0xF4 \<notin> set x \<Longrightarrow> ReplaceAll specChar '';'' (put specChar x) = x"
proof (induction x)
  case (Cons c x)
  have ne: "specChar \<noteq> []" by (simp add: specChar_def)
  show ?case
  proof (cases "c = CHR '';''")
    case True
    then show ?thesis using Cons ReplaceAll_match [OF ne, of "'';''" "put specChar x"] by simp
  next
    case False
    have "\<not> prefix specChar (c # put specChar x)" using Cons.prems by (auto simp: specChar_def)
    then show ?thesis using Cons False ne by (simp add: ReplaceAll_skip)
  qed
qed simp

lemma put_id: "CHR '';'' \<notin> set x \<Longrightarrow> put sp x = x"
  by (induction x) auto

lemma Join_mem: "x \<in> set xs \<Longrightarrow> \<exists>a b. Join sep xs = a @ x @ b"
proof (induction xs rule: induct_list012)
  case (2 y)
  then show ?case by (auto intro: exI [of _ "[]"])
next
  case (3 y z zs)
  show ?case
  proof (cases "x = y")
    case True
    then show ?thesis by (auto intro: exI [of _ "[]"])
  next
    case False
    with 3 obtain a b where "Join sep (z # zs) = a @ x @ b" by auto
    then have "Join sep (y # z # zs) = (y @ sep @ a) @ x @ b" by simp
    then show ?thesis by blast
  qed
qed simp

lemma Join_no_semicolon:
  assumes "\<not> Contains (Join '';'' (map (put escaped_semicolon) xs)) escaped_semicolon" "x \<in> set xs"
  shows "CHR '';'' \<notin> set x"
proof
  assume "CHR '';'' \<in> set x"
  then obtain u v where "x = u @ CHR '';'' # v" by (meson split_list)
  then have px: "put escaped_semicolon x = put escaped_semicolon u @ escaped_semicolon @ put escaped_semicolon v"
    by (simp add: put_def)
  obtain a b where "Join '';'' (map (put escaped_semicolon) xs) = a @ put escaped_semicolon x @ b"
    using Join_mem [of "put escaped_semicolon x" "map (put escaped_semicolon) xs" "'';''"] assms(2) by auto
  then have "Join '';'' (map (put escaped_semicolon) xs)
      = (a @ put escaped_semicolon u) @ escaped_semicolon @ (put escaped_semicolon v @ b)"
    by (simp add: px)
  with assms(1) show False unfolding Contains_iff by blast
qed

lemma exec_env_items_joined:
  assumes "xs \<noteq> []" "\<forall>x \<in> set xs. (x = [] \<or> last x \<noteq> CHR 0x5C) \<and> CHR 0xF4 \<notin> set x"
  shows "exec_env_items (Join '';'' (map (put escaped_semicolon) xs)) = xs"
proof (cases "Contains (Join '';'' (map (put escaped_semicolon) xs)) escaped_semicolon")
  case True
  have "Split (CHR '';'') (Join '';'' (map (put specChar) xs)) = map (put specChar) xs"
    using assms(1) by (intro Split_Join) (auto simp: put_no_semicolon specChar_def)
  moreover have "map (ReplaceAll specChar '';'') (map (put specChar) xs) = xs"
    using assms(2) by (induction xs) (auto simp: ReplaceAll_put)
  ultimately show ?thesis
    using True ReplaceAll_joined [of xs specChar] assms(2) by (simp add: exec_env_items_def)
next
  case False
  then have ns: "\<And>x. x \<in> set xs \<Longrightarrow> CHR '';'' \<notin> set x" by (rule Join_no_semicolon)
  then have "map (put escaped_semicolon) xs = xs"
    by (intro map_idI) (simp add: put_id)
  with False assms(1) ns show ?thesis
    by (simp add: exec_env_items_def Split_Join)
qed

section \<open>Lemmas: the executable\<close>

text \<open>One step along a symlink inside the root, and several.\<close>

definition hop :: "(string \<Rightarrow> goerr + FileInfo) \<Rightarrow> (string \<Rightarrow> goerr + string) \<Rightarrow> string \<Rightarrow> string \<Rightarrow> string option" where
  "hop lstat readlink root p =
     (case lstat (path_Join [root, p]) of
        Inl e \<Rightarrow> None
      | Inr fi \<Rightarrow> if ModeSymlink fi
          then (case readlink (path_Join [root, p]) of Inl e \<Rightarrow> None | Inr t \<Rightarrow> Some (link_target p t))
          else None)"

fun hops :: "(string \<Rightarrow> goerr + FileInfo) \<Rightarrow> (string \<Rightarrow> goerr + string) \<Rightarrow> string \<Rightarrow> nat \<Rightarrow> string \<Rightarrow> string option" where
  "hops lstat readlink root 0 p = Some p"
| "hops lstat readlink root (Suc n) p = Option.bind (hop lstat readlink root p) (hops lstat readlink root n)"

lemma chroot_executable_iff:
  "chroot_executable lstat readlink root path depth = Ok b \<longleftrightarrow>
     (\<exists>n q fi. depth + n \<le> maxSymlinkResolveDepth \<and> hops lstat readlink root n path = Some q
        \<and> lstat (path_Join [root, q]) = Inr fi \<and> \<not> ModeSymlink fi \<and> b = (ModeExec fi \<and> \<not> ModeDir fi))"
  (is "_ \<longleftrightarrow> ?R path depth")
proof (induction lstat readlink root path depth rule: chroot_executable.induct)
  case (1 lstat readlink root path depth)
  show ?case
  proof (cases "depth > maxSymlinkResolveDepth")
    case True
    then show ?thesis by (subst chroot_executable.simps) simp
  next
    case ok: False
    show ?thesis
    proof (cases "hop lstat readlink root path")
      case None
      then have h: "hops lstat readlink root n path = Some q \<longleftrightarrow> n = 0 \<and> q = path" for n q
        by (cases n) auto
      show ?thesis
        using ok None unfolding h
        by (subst chroot_executable.simps) (auto simp: hop_def Let_def split: sum.splits if_splits)
    next
      case (Some t)
      then obtain fi l where fi: "lstat (path_Join [root, path]) = Inr fi" "ModeSymlink fi"
        "readlink (path_Join [root, path]) = Inr l" "t = link_target path l"
        by (auto simp: hop_def split: sum.splits if_splits)
      have "chroot_executable lstat readlink root path depth = chroot_executable lstat readlink root t (depth + 1)"
        using ok fi by (subst chroot_executable.simps) simp
      also have "\<dots> = Ok b \<longleftrightarrow> (\<exists>n q fi. depth + 1 + n \<le> maxSymlinkResolveDepth \<and> hops lstat readlink root n t = Some q
        \<and> lstat (path_Join [root, q]) = Inr fi \<and> \<not> ModeSymlink fi \<and> b = (ModeExec fi \<and> \<not> ModeDir fi))"
        using "1.IH" [OF ok refl fi(1) fi(2) fi(3)] fi(4) by simp
      also have "\<dots> \<longleftrightarrow> (\<exists>n q fi'. depth + n \<le> maxSymlinkResolveDepth \<and> hops lstat readlink root n path = Some q
        \<and> lstat (path_Join [root, q]) = Inr fi' \<and> \<not> ModeSymlink fi' \<and> b = (ModeExec fi' \<and> \<not> ModeDir fi'))"
        (is "?A \<longleftrightarrow> ?B")
      proof
        assume ?A
        then obtain n q f where "depth + 1 + n \<le> maxSymlinkResolveDepth" "hops lstat readlink root n t = Some q"
          "lstat (path_Join [root, q]) = Inr f" "\<not> ModeSymlink f" "b = (ModeExec f \<and> \<not> ModeDir f)" by blast
        then show ?B using Some by (intro exI [of _ "Suc n"] exI [of _ q] exI [of _ f]) simp
      next
        assume ?B
        then obtain n q f where nq: "depth + n \<le> maxSymlinkResolveDepth" "hops lstat readlink root n path = Some q"
          "lstat (path_Join [root, q]) = Inr f" "\<not> ModeSymlink f" "b = (ModeExec f \<and> \<not> ModeDir f)" by blast
        then show ?A using Some fi(1,2) by (cases n) auto
      qed
      finally show ?thesis .
    qed
  qed
qed

lemma find_executable_find:
  "find_executable check cmd ps =
     (case find (\<lambda>p. check (path_Join [p, cmd]) = Ok True) ps of None \<Rightarrow> [] | Some p \<Rightarrow> path_Join [p, cmd])"
  by (induction ps) (auto simp: Let_def split: res.splits bool.splits)

section \<open>Properties\<close>

text \<open>
  C32. The environment Porto reports for a container, its variables joined by ";" with the
  semicolons inside them written as "\;", is read back variable by variable by the exec path,
  provided no name has a "=", no value ends in a backslash and neither has the byte F4 the
  stand-in character starts with.
\<close>

theorem exec_env_roundtrip:
  assumes "\<forall>(k, v) \<in> set vars. CHR ''='' \<notin> set k \<and> (v = [] \<or> last v \<noteq> CHR 0x5C)
             \<and> CHR 0xF4 \<notin> set k \<and> CHR 0xF4 \<notin> set v"
  shows "Env (prepareExecEnv spec (Join '';'' (map (\<lambda>kv. put escaped_semicolon (render_var kv)) vars))) = Some vars"
proof (cases "vars = []")
  case True
  then show ?thesis by (simp add: prepareExecEnv_def exec_env_items_def escaped_semicolon_def SplitN2_def)
next
  case False
  have "exec_env_items (Join '';'' (map (put escaped_semicolon) (map render_var vars))) = map render_var vars"
    using False assms by (intro exec_env_items_joined) (auto simp: render_var_def split: prod.splits)
  moreover have "\<forall>kv \<in> set vars. CHR ''='' \<notin> set (fst kv)" using assms by fastforce
  ultimately show ?thesis by (simp add: prepareExecEnv_def envToVars_render comp_def)
qed

theorem exec_env_roundtrip_witness:
  "Env (prepareExecEnv (new_spec ''pod/a'') (Join '';'' (map (\<lambda>kv. put escaped_semicolon (render_var kv))
     [(''PATH'', ''/bin;/sbin''), (''A'', ''x=y'')]))) = Some [(''PATH'', ''/bin;/sbin''), (''A'', ''x=y'')]"
  by (rule exec_env_roundtrip) simp

text \<open>
  Both provisos are needed: a value that ends in a backslash swallows the separator and the variable
  after it, and a value that has a semicolon and the stand-in character comes back with a semicolon
  in place of the character.
\<close>

theorem exec_env_misread:
  "Env (prepareExecEnv spec (Join '';'' (map (\<lambda>kv. put escaped_semicolon (render_var kv)) [(''A'', [CHR ''x'', CHR 0x5C]), (''B'', ''y'')])))
     = Some [(''A'', ''x;B=y'')]"
  "Env (prepareExecEnv spec (Join '';'' (map (\<lambda>kv. put escaped_semicolon (render_var kv)) [(''A'', specChar @ '';'')])))
     = Some [(''A'', '';;'')]"
proof -
  have "envToVars (exec_env_items (Join '';'' (map (\<lambda>kv. put escaped_semicolon (render_var kv)) [(''A'', [CHR ''x'', CHR 0x5C]), (''B'', ''y'')])))
      = [(''A'', ''x;B=y'')]" by code_simp
  moreover have "envToVars (exec_env_items (Join '';'' (map (\<lambda>kv. put escaped_semicolon (render_var kv)) [(''A'', specChar @ '';'')])))
      = [(''A'', '';;'')]" by code_simp
  ultimately show "Env (prepareExecEnv spec (Join '';'' (map (\<lambda>kv. put escaped_semicolon (render_var kv)) [(''A'', [CHR ''x'', CHR 0x5C]), (''B'', ''y'')])))
     = Some [(''A'', ''x;B=y'')]"
    "Env (prepareExecEnv spec (Join '';'' (map (\<lambda>kv. put escaped_semicolon (render_var kv)) [(''A'', specChar @ '';'')])))
     = Some [(''A'', '';;'')]"
    by (simp_all add: prepareExecEnv_def)
qed

text \<open>
  The prepared environment is the image's variables followed by those of the request, and a
  variable of the request is always there, also when the image sets the same name before it.
\<close>

theorem prepareEnv_order:
  assumes "\<forall>kv \<in> set imgVars. CHR ''='' \<notin> set (fst kv)" "ConfigEnv img = map render_var imgVars"
  shows "Env (prepareEnv spec env img) = Some (imgVars @ env)"
  using assms envToVars_render by (simp add: prepareEnv_def)

theorem prepareEnv_order_witness:
  "Env (prepareEnv (new_spec ''pod/a'') [(''B'', ''2'')] (base_image\<lparr>ConfigEnv := [''A=1'']\<rparr>)) = Some [(''A'', ''1''), (''B'', ''2'')]"
  using prepareEnv_order [of "[(''A'', ''1'')]" "base_image\<lparr>ConfigEnv := [''A=1'']\<rparr>" "new_spec ''pod/a''" "[(''B'', ''2'')]"]
  by (simp add: render_var_def)

text \<open>
  C33. A path counts as executable exactly when at most nine symlinks lead from it, each read
  inside the root, to a file that is no symlink, has the owner's execute bit and is no directory;
  the check ends for every file system.
\<close>

theorem executable_through_links:
  "run_state (isChrootPathExecutable E root path 1) w = (Ok b, w) \<longleftrightarrow>
     (\<exists>n \<le> 9. \<exists>q fi. hops (o_Lstat (os E) (w_trace w)) (o_Readlink (os E) (w_trace w)) root n path = Some q
        \<and> o_Lstat (os E) (w_trace w) (path_Join [root, q]) = Inr fi \<and> \<not> ModeSymlink fi
        \<and> b = (ModeExec fi \<and> \<not> ModeDir fi))"
proof -
  have "1 + n \<le> maxSymlinkResolveDepth \<longleftrightarrow> n \<le> 9" for n by (auto simp: maxSymlinkResolveDepth_def)
  then show ?thesis by (simp add: isChrootPathExecutable_def run_simps chroot_executable_iff)
qed

theorem executable_through_links_witness:
  "hops (o_Lstat (os base_env) []) (o_Readlink (os base_env) []) ''/r'' 0 ''/sh'' = Some ''/sh''
   \<and> \<not> (run_state (isChrootPathExecutable base_env ''/r'' ''/sh'' 1) base_world = (Ok True, base_world))"
proof -
  have "o_Lstat (os base_env) (w_trace base_world) p \<noteq> Inr fi" for p fi by (simp add: base_defs)
  then show ?thesis
    using executable_through_links [where E = base_env and root = "''/r''" and path = "''/sh''" and b = True
        and w = base_world] by simp
qed

text \<open>
  Preparing the command never panics and fails exactly when the command (the request's, else
  the image's, with the arguments after it) is empty or its first word is; otherwise every
  argument is kept: the command line is the words after the first, unchanged, behind the first
  word or the executable found for it, behind at most "/bin/sh -c" and the log wrapper.
\<close>

theorem prepareCommand_exact:
  assumes "run_state (prepareCommand E spec cfgCmd cfgArgs imgCmd noShim) w = (r, w')"
  defines "cmd \<equiv> (if cfgCmd \<noteq> [] then cfgCmd else imgCmd) @ cfgArgs"
  defines "found \<equiv> fst (run_state (findChrootExecutable E (findEnvPathOrDefault (spec_env spec))
                     (getRootPath E (Name spec)) (hd cmd)) w)"
  defines "line \<equiv> (if hd (hd cmd) = CHR ''/'' then cmd else if found \<noteq> [] then found # tl cmd
                     else [''/bin/sh'', ''-c'', ''exec \"$0\" \"$@\"''] @ cmd)"
  shows "w' = w \<and> (if cmd = [] \<or> hd cmd = [] then \<exists>e. r = Err e
     else r = Ok (spec\<lparr>CommandArgv := Some ((if noShim \<or> hd line = ''/pause'' then [] else [''/usr/sbin/logshim'']) @ line)\<rparr>))"
proof -
  have cmd': "(if length cfgCmd > 0 then cfgCmd else imgCmd) @ cfgArgs = cmd" by (simp add: cmd_def)
  show ?thesis
proof (cases "cmd = [] \<or> hd cmd = []")
  case True
  then show ?thesis
    using assms(1) unfolding prepareCommand_def cmd' Let_def
    by (cases cmd) auto
next
  case False
  then obtain c cs x xs where c: "cmd = (x # xs) # cs" by (metis list.exhaust list.sel(1))
  have fw: "snd (run_state (findChrootExecutable E p q v) w) = w" for p q v
    by (simp add: findChrootExecutable_def run_simps)
  show ?thesis
    using assms(1) fw [of "findEnvPathOrDefault (spec_env spec)" "getRootPath E (Name spec)" "x # xs"]
    unfolding prepareCommand_def cmd' Let_def line_def found_def
    by (auto simp: c wrapCmdWithLogShim_def run_simps split: prod.splits if_splits)
qed
qed

theorem prepareCommand_exact_witness:
  "run_state (prepareCommand base_env (new_spec ''pod/a'') [] [''-x y''] [''app''] False) base_world
     = (Ok ((new_spec ''pod/a'')\<lparr>CommandArgv := Some [''/usr/sbin/logshim'', ''/bin/sh'', ''-c'', ''exec \"$0\" \"$@\"'', ''app'', ''-x y'']\<rparr>), base_world)"
proof -
  obtain r w' where r: "run_state (prepareCommand base_env (new_spec ''pod/a'') [] [''-x y''] [''app''] False) base_world = (r, w')"
    by force
  have "fst (run_state (findChrootExecutable base_env (findEnvPathOrDefault (spec_env (new_spec ''pod/a'')))
      (getRootPath base_env (Name (new_spec ''pod/a''))) ''app'') base_world) = []"
    by code_simp
  with prepareCommand_exact [OF r] r show ?thesis by simp
qed

text \<open>
  The executable taken for a command is the first candidate, in the order of PATH, that is an
  executable file of the root, and nothing is taken when no candidate is.
\<close>

theorem findChrootExecutable_first:
  "run_state (findChrootExecutable E path root cmd) w =
     (case find (\<lambda>p. fst (run_state (isChrootPathExecutable E root (path_Join [p, cmd]) 1) w) = Ok True)
             (Split (CHR '':'') path) of
        None \<Rightarrow> [] | Some p \<Rightarrow> path_Join [p, cmd], w)"
  by (simp add: findChrootExecutable_def isChrootPathExecutable_def run_simps find_executable_find)

end
