(* ===== verification/Json.thy ===== *)
theory Json
  imports Go_Strings
begin

text \<open>
  What the source uses of encoding/json: \<open>json.Marshal\<close> of strings, of slices of strings and of
  maps with sorted keys. Strings are byte lists; the encoder checks UTF-8 as Go's decoder does.
\<close>

section \<open>UTF-8\<close>

definition byte_in :: "nat \<Rightarrow> nat \<Rightarrow> char \<Rightarrow> bool" where
  "byte_in lo hi c \<longleftrightarrow> lo \<le> (of_char c :: nat) \<and> of_char c \<le> hi"

text \<open>The second byte of a sequence of three or of four bytes that starts with \<open>c\<close>.\<close>

definition second_of_3 :: "char \<Rightarrow> char \<Rightarrow> bool" where
  "second_of_3 c x \<longleftrightarrow> byte_in (if c = CHR 0xE0 then 160 else 128) (if c = CHR 0xED then 159 else 191) x"

definition second_of_4 :: "char \<Rightarrow> char \<Rightarrow> bool" where
  "second_of_4 c x \<longleftrightarrow> byte_in (if c = CHR 0xF0 then 144 else 128) (if c = CHR 0xF4 then 143 else 191) x"

text \<open>The length of the UTF-8 sequence at the front of the text, 0 when there is none.\<close>

definition utf8_len :: "string \<Rightarrow> nat" where
  "utf8_len s = (case s of
     [] \<Rightarrow> 0
   | c # cs \<Rightarrow>
       if byte_in 0 127 c then 1
       else if byte_in 194 223 c then (if cs \<noteq> [] \<and> byte_in 128 191 (cs ! 0) then 2 else 0)
       else if byte_in 224 239 c then
         (if length cs \<ge> 2
             \<and> second_of_3 c (cs ! 0) \<and> byte_in 128 191 (cs ! 1) then 3 else 0)
       else if byte_in 240 244 c then
         (if length cs \<ge> 3
             \<and> second_of_4 c (cs ! 0) \<and> byte_in 128 191 (cs ! 1) \<and> byte_in 128 191 (cs ! 2) then 4 else 0)
       else 0)"

section \<open>Encoding\<close>

definition hex_digit :: "nat \<Rightarrow> char" where
  "hex_digit d = ''0123456789abcdef'' ! d"

definition json_esc :: "char \<Rightarrow> string" where
  "json_esc c =
     (if c = CHR 0x22 \<or> c = CHR 0x5C then [CHR 0x5C, c]
      else if c = CHR 0x08 then [CHR 0x5C, CHR ''b'']
      else if c = CHR 0x0C then [CHR 0x5C, CHR ''f'']
      else if c = CHR 0x0A then [CHR 0x5C, CHR ''n'']
      else if c = CHR 0x0D then [CHR 0x5C, CHR ''r'']
      else if c = CHR 0x09 then [CHR 0x5C, CHR ''t'']
      else if byte_in 0 31 c \<or> c \<in> set ''<>&''
      then [CHR 0x5C, CHR ''u'', CHR ''0'', CHR ''0'', hex_digit (of_char c div 16), hex_digit (of_char c mod 16)]
      else [c])"

fun json_chars :: "nat \<Rightarrow> string \<Rightarrow> string" where
  "json_chars 0 s = []"
| "json_chars (Suc n) [] = []"
| "json_chars (Suc n) (c # cs) =
     (if byte_in 0 127 c then json_esc c @ json_chars n cs
      else let k = utf8_len (c # cs); q = take k (c # cs)
           in if k = 0 then CHR 0x5C # ''ufffd'' @ json_chars n cs
              else if q = [CHR 0xE2, CHR 0x80, CHR 0xA8] then CHR 0x5C # ''u2028'' @ json_chars n (drop k (c # cs))
              else if q = [CHR 0xE2, CHR 0x80, CHR 0xA9] then CHR 0x5C # ''u2029'' @ json_chars n (drop k (c # cs))
              else q @ json_chars n (drop k (c # cs)))"

text \<open>The text is its own fuel: every step consumes at least one byte.\<close>

definition json_string :: "string \<Rightarrow> string" where
  "json_string s = CHR 0x22 # json_chars (length s) s @ [CHR 0x22]"

definition json_strings :: "string list \<Rightarrow> string" where
  "json_strings ss = ''['' @ Join '','' (map json_string ss) @ '']''"

text \<open>An object, its members already rendered and in key order.\<close>

definition json_object :: "(string \<times> string) list \<Rightarrow> string" where
  "json_object ms = ''{'' @ Join '','' (map (\<lambda>(k, v). json_string k @ '':'' @ v) ms) @ ''}''"

end
