(* ===== verification/Mounts.thy ===== *)
theory Mounts
  imports Command Json
begin

text \<open>
  The root, the mounts and the logs of a container (runtime_mapper.go, retry.go) and the clean-up of
  the copies made for nested containers (volume.go).
\<close>

section \<open>Retrying (retry.go)\<close>

text \<open>
  \<open>fn\<close> works on the variables \<open>s\<close> its closure captures and returns an error or none; after each
  failure, the last one too, the loop sleeps for the delay.
\<close>

fun retry :: "('s \<Rightarrow> ('s \<times> goerr option) prog) \<Rightarrow> int \<Rightarrow> nat \<Rightarrow> 's \<Rightarrow> 's prog" where
  "retry fn delay 0 s = ret s"
| "retry fn delay (Suc n) s = do {
     r \<leftarrow> fn s;
     case snd r of
       None \<Rightarrow> ret (fst r)
     | Some e \<Rightarrow> do { u \<leftarrow> Sleep delay; retry fn delay n (fst r) }
   }"

section \<open>Root and directories\<close>

definition prepareDirs :: "env \<Rightarrow> string \<Rightarrow> string \<Rightarrow> string res prog" where
  "prepareDirs E i rootPath =
     (let rootAbsPath = getRootPath E (toContainerCriID i);
          rootPath' = (if rootPath = [] then rootAbsPath else rootPath)
      in do {
        r \<leftarrow> MkdirAll E rootAbsPath;
        case r of
          Inr u \<Rightarrow> ret (Ok rootPath')
        | Inl e \<Rightarrow> if is_OsExist e then ret (Ok rootPath') else ret (Err (FmtV ''prepareDirs'' e))
      })"

definition prepareRootForPrivCnt :: "env \<Rightarrow> TContainerSpec \<Rightarrow> string \<Rightarrow> TContainerSpec res prog" where
  "prepareRootForPrivCnt E spec rootPath =
     step_or id (prepareDirs E (Name spec) rootPath) (\<lambda>rp. ret (Ok (spec\<lparr>Root := Some rp\<rparr>)))"

definition root_volume :: "env \<Rightarrow> string \<Rightarrow> string \<Rightarrow> TVolumeSpec" where
  "root_volume E i img =
     \<lparr>Links = [\<lparr>Container = i, Target = ''/'', LinkReadOnly = None\<rparr>], Backend = ''overlay'',
      VolPlace = Some (Place (Cfg E)), VolImage = Some img, Storage = None, VolReadOnly = None\<rparr>"

definition prepareRoot :: "env \<Rightarrow> TContainerSpec \<Rightarrow> TVolumeSpec list \<Rightarrow> string \<Rightarrow> string
    \<Rightarrow> (TContainerSpec \<times> TVolumeSpec list) res prog" where
  "prepareRoot E spec volumes rootPath img =
     step_or id (prepareDirs E (Name spec) rootPath) (\<lambda>rp.
       ret (Ok (spec\<lparr>Root := Some rp\<rparr>, volumes @ [root_volume E (Name spec) img])))"

section \<open>Mounts\<close>

definition excludedMountTargets :: "string list" where
  "excludedMountTargets = [''/dev'', ''/sys'']"

fun sliceContainsString :: "string list \<Rightarrow> string \<Rightarrow> bool" where
  "sliceContainsString [] str = False"
| "sliceContainsString (v # vs) str = (v = str \<or> sliceContainsString vs str)"

definition convertMountToVolumeSpec :: "string \<Rightarrow> Mount \<Rightarrow> TVolumeSpec" where
  "convertMountToVolumeSpec i mount =
     \<lparr>Links = [\<lparr>Container = i, Target = ContainerPath mount, LinkReadOnly = Some (Readonly mount)\<rparr>],
      Backend = ''bind'', VolPlace = None, VolImage = None, Storage = Some (HostPath mount),
      VolReadOnly = Some (Readonly mount)\<rparr>"

definition hexEncode :: "string \<Rightarrow> string" where
  "hexEncode s = concat (map (\<lambda>c. [hex_digit (of_char c div 16), hex_digit (of_char c mod 16)]) s)"

fun stat_all :: "env \<Rightarrow> string \<Rightarrow> string \<Rightarrow> string list \<Rightarrow> goerr option prog" where
  "stat_all E i hostPath [] = ret None"
| "stat_all E i hostPath (f # fs) = do {
     r \<leftarrow> Stat E (hostPath @ f);
     case r of
       Inl e \<Rightarrow> ret (Some (Errorf ''waiting for a'' [i, f, hostPath]))
     | Inr fi \<Rightarrow> stat_all E i hostPath fs
   }"

text \<open>One attempt at a mount that has to be waited for: the closure passed to \<open>retry\<close>.\<close>

definition await_mount :: "env \<Rightarrow> string \<Rightarrow> string list \<Rightarrow> Mount \<Rightarrow> (Mount \<times> goerr option) prog" where
  "await_mount E i pathes mount = do {
     miss \<leftarrow> stat_all E i (HostPath mount) pathes;
     case miss of
       Some e \<Rightarrow> ret (mount, Some e)
     | None \<Rightarrow>
         if ParentContainer (Cfg E) = [] then ret (mount, None)
         else do {
           rnd \<leftarrow> RandRead E;
           case rnd of
             Inl e \<Rightarrow> ret (mount, Some (Errorf ''Failed to generate kube-api-access name'' []))
           | Inr randBytes \<Rightarrow>
               let hostPathTmp = path_Join [Dir (HostPath mount), ''kube-api-access-'' @ hexEncode randBytes] in do {
                 cp \<leftarrow> CopyDir E hostPathTmp (HostPath mount);
                 case cp of
                   Inl e \<Rightarrow> ret (mount, Some (FmtV ''Failed to copy'' e))
                 | Inr u \<Rightarrow> do {
                     x \<leftarrow> mod_world (\<lambda>w. w\<lparr>w_tmpfs := mset_at (path_Join [i, ContainerPath mount]) hostPathTmp (w_tmpfs w)\<rparr>);
                     ret (mount\<lparr>HostPath := hostPathTmp\<rparr>, None)
                   }
               }
         }
   }"

definition clean_mount :: "Mount \<Rightarrow> Mount" where
  "clean_mount mount = mount\<lparr>ContainerPath := Clean (ContainerPath mount), HostPath := Clean (HostPath mount)\<rparr>"

fun add_mounts :: "env \<Rightarrow> string \<Rightarrow> (string, string list) gomap \<Rightarrow> TVolumeSpec list \<Rightarrow> Mount list
    \<Rightarrow> TVolumeSpec list prog" where
  "add_mounts E i waitPathes volumes [] = ret volumes"
| "add_mounts E i waitPathes volumes (m # ms) =
     (let mount = clean_mount m in
      if sliceContainsString excludedMountTargets (ContainerPath mount)
      then add_mounts E i waitPathes volumes ms
      else do {
        mount' \<leftarrow> (case mget waitPathes (ContainerPath mount) of
                    None \<Rightarrow> ret mount
                  | Some pathes \<Rightarrow> retry (await_mount E i pathes) 1000 3 mount);
        add_mounts E i waitPathes (volumes @ [convertMountToVolumeSpec i mount']) ms
      })"

definition logshim_mount :: Mount where
  "logshim_mount = \<lparr>ContainerPath = ''/usr/sbin/logshim'', HostPath = ''/usr/sbin/logshim'', Readonly = True\<rparr>"

definition vol_target :: "TVolumeSpec \<Rightarrow> string" where
  "vol_target v = Target (Links v ! 0)"

text \<open>\<open>sort.Slice\<close> orders by target; for equal targets any order may come out, here the stable one.\<close>

definition prepareContainerMounts :: "env \<Rightarrow> string \<Rightarrow> TVolumeSpec list \<Rightarrow> Mount list
    \<Rightarrow> (string, string list) gomap \<Rightarrow> TVolumeSpec list prog" where
  "prepareContainerMounts E i volumes mounts waitPathes = do {
     vs \<leftarrow> add_mounts E i waitPathes volumes (mounts @ [logshim_mount]);
     ret (sort_key vol_target vs)
   }"

section \<open>Logs\<close>

definition prepareContainerLogs :: "env \<Rightarrow> TContainerSpec \<Rightarrow> bool \<Rightarrow> (TContainerSpec \<times> string) res prog" where
  "prepareContainerLogs E spec priv =
     (let i = Name spec in
      if ParentContainer (Cfg E) = []
      then ret (Ok (spec, path_Join [''/place/porto/'', if priv then path_Join [i, privCntName] else i, ''/stdout'']))
      else
        let dir = path_Join [''/place/porto/'', i]; logPath = path_Join [''/place/porto/'', i, ''/stdout''] in
        call_or (FmtV ''Failed to create directory for log path'') (MkdirAll E dir) (\<lambda>u.
        call_or (FmtV ''Failed to create log file'') (CreateFile E logPath) (\<lambda>fd.
        call_or (\<lambda>e. Errorf ''Failed to dup'' []) (Dup E fd) (\<lambda>newFD.
        ret (Ok (spec\<lparr>StdoutPath := Some (''/dev/fd/'' @ dec (nat newFD))\<rparr>, logPath))))))"

section \<open>Removing copies (volume.go)\<close>

definition bindMountSuffixes :: "string list" where
  "bindMountSuffixes = [''/var/run/secrets/kubernetes.io/serviceaccount'']"

fun remove_suffixes :: "env \<Rightarrow> string \<Rightarrow> string list \<Rightarrow> string list \<Rightarrow> unit res prog" where
  "remove_suffixes E i links [] = ret (Ok ())"
| "remove_suffixes E i links (sfx # sfxs) =
     (if \<not> HasSuffix (links ! 0) sfx then remove_suffixes E i links sfxs
      else let tmpfsDirKey = path_Join [i, links ! 1] in do {
        w \<leftarrow> get_world;
        case mget (w_tmpfs w) tmpfsDirKey of
          None \<Rightarrow> remove_suffixes E i links sfxs
        | Some tmpfs \<Rightarrow> do {
            r \<leftarrow> RemoveAll E tmpfs;
            u \<leftarrow> mod_world (\<lambda>w. w\<lparr>w_tmpfs := AList.delete tmpfsDirKey (w_tmpfs w)\<rparr>);
            case r of
              Inl e \<Rightarrow> ret (Err (WrapW ''Failed to remove'' e))
            | Inr x \<Rightarrow> remove_suffixes E i links sfxs
          }
      })"

fun remove_volumes :: "env \<Rightarrow> string \<Rightarrow> string list \<Rightarrow> unit res prog" where
  "remove_volumes E i [] = ret (Ok ())"
| "remove_volumes E i (volume # vols) =
     (let links = Split (CHR '' '') (TrimSpace volume) in
      if length links < 2 then remove_volumes E i vols
      else step_or id (remove_suffixes E i links bindMountSuffixes) (\<lambda>u. remove_volumes E i vols))"

definition removeSpecificVolumes :: "env \<Rightarrow> string \<Rightarrow> string \<Rightarrow> unit res prog" where
  "removeSpecificVolumes E i linkedVolumes = remove_volumes E i (Split (CHR '';'') linkedVolumes)"

section \<open>Lemmas\<close>

lemma sliceContainsString_iff [simp]: "sliceContainsString vs str \<longleftrightarrow> str \<in> set vs"
  by (induction vs) auto

text \<open>An attempt that succeeds ends the loop; \<open>n\<close> failures cost \<open>n\<close> sleeps.\<close>

definition sleeps :: "history \<Rightarrow> nat" where
  "sleeps es = length (filter (\<lambda>ev. case ev of EvSleep ms \<Rightarrow> True | _ \<Rightarrow> False) es)"

lemma sleeps_simps [simp]: "sleeps [] = 0" "sleeps (es @ fs) = sleeps es + sleeps fs"
  "sleeps (ev # es) = (case ev of EvSleep ms \<Rightarrow> 1 | _ \<Rightarrow> 0) + sleeps es"
  by (auto simp: sleeps_def split: event.splits)

lemma emits_retry_sleeps:
  assumes "\<And>s. emits (fn s) (\<lambda>r es. sleeps es = 0)"
  shows "emits (retry fn d n s) (\<lambda>r es. sleeps es \<le> n)"
proof (induction n arbitrary: s)
  case (Suc n)
  show ?case
    unfolding retry.simps Sleep_def
    by (rule emits_bind [OF assms])
      (auto intro!: emit_rules emits_mono [OF Suc.IH] split: option.split)
qed simp

lemma emits_stat_all: "emits (stat_all E i hp fs) (\<lambda>r es. es = [])"
  by (induction fs) (auto simp: Stat_def intro!: emit_rules split: sum.split)

lemma emits_await_mount: "emits (await_mount E i pathes m) (\<lambda>r es. sleeps es = 0)"
  unfolding await_mount_def RandRead_def CopyDir_def Let_def
  by (rule emits_bind_silent [OF emits_stat_all])
    (auto intro!: emit_rules split: option.split sum.split)

definition kept_mounts :: "Mount list \<Rightarrow> Mount list" where
  "kept_mounts ms = filter (\<lambda>m. ContainerPath m \<notin> set excludedMountTargets) (map clean_mount ms)"

text \<open>
  The volume of a mount: the mount's own, or, where it had to be waited for under a parent, the
  same with the path of a copy of the mount's directory made in the meantime.
\<close>

definition mounted :: "env \<Rightarrow> string \<Rightarrow> (string, string list) gomap \<Rightarrow> history \<Rightarrow> Mount \<Rightarrow> TVolumeSpec \<Rightarrow> bool" where
  "mounted E i wp es m v \<longleftrightarrow> v = convertMountToVolumeSpec i m
     \<or> (\<exists>copy. v = convertMountToVolumeSpec i (m\<lparr>HostPath := copy\<rparr>) \<and> EvCopyDir copy (HostPath m) (Inr ()) \<in> set es
          \<and> mget wp (ContainerPath m) \<noteq> None \<and> ParentContainer (Cfg E) \<noteq> [])"

lemma mounted_mono: "mounted E i wp es m v \<Longrightarrow> set es \<subseteq> set fs \<Longrightarrow> mounted E i wp fs m v"
  unfolding mounted_def by blast

text \<open>What an attempt, and so the loop, makes of a mount.\<close>

definition awaited :: "env \<Rightarrow> Mount \<Rightarrow> Mount \<Rightarrow> history \<Rightarrow> bool" where
  "awaited E m m' es \<longleftrightarrow> m' = m
     \<or> (\<exists>copy. m' = m\<lparr>HostPath := copy\<rparr> \<and> EvCopyDir copy (HostPath m) (Inr ()) \<in> set es \<and> ParentContainer (Cfg E) \<noteq> [])"

lemma emits_await_awaited:
  "emits (await_mount E i pathes m) (\<lambda>r es. awaited E m (fst r) es \<and> (snd r \<noteq> None \<longrightarrow> fst r = m))"
  unfolding await_mount_def RandRead_def CopyDir_def Let_def
  by (rule emits_bind_silent [OF emits_stat_all])
    (auto simp: awaited_def intro!: emit_rules split: option.split sum.split)

lemma emits_retry_awaited: "emits (retry (await_mount E i pathes) d n m) (\<lambda>r es. awaited E m r es)"
proof (induction n)
  case (Suc n)
  have again: "emits (do { u \<leftarrow> Sleep d; retry (await_mount E i pathes) d n m }) (\<lambda>r es. awaited E m r (fs @ es))" for fs
    unfolding Sleep_def
    by (auto intro!: emits_bind_ask emits_mono [OF Suc.IH] emit_rules simp: awaited_def)
  show ?case
    unfolding retry.simps
    by (rule emits_bind [OF emits_await_awaited]) (use again in \<open>auto intro!: emit_rules simp: Sleep_def split: option.split\<close>)
qed (simp add: awaited_def)

lemma emits_add_mounts:
  "emits (add_mounts E i wp vs ms) (\<lambda>out es. \<exists>vs'. out = vs @ vs' \<and> list_all2 (mounted E i wp es) (kept_mounts ms) vs')"
proof (induction ms arbitrary: vs)
  case (Cons m ms)
  let ?m = "clean_mount m"
  have one: "emits (case mget wp (ContainerPath ?m) of None \<Rightarrow> ret ?m | Some pathes \<Rightarrow> retry (await_mount E i pathes) 1000 3 ?m)
      (\<lambda>m' es. mounted E i wp es ?m (convertMountToVolumeSpec i m'))"
    by (cases "mget wp (ContainerPath ?m)")
      (auto simp: mounted_def intro!: emits_mono [OF emits_retry_awaited] simp: awaited_def)
  show ?case
  proof (cases "ContainerPath ?m \<in> set excludedMountTargets")
    case True
    then have "kept_mounts (m # ms) = kept_mounts ms" by (simp add: kept_mounts_def)
    with True Cons.IH show ?thesis by (simp add: Let_def)
  next
    case False
    then have k: "kept_mounts (m # ms) = ?m # kept_mounts ms" by (simp add: kept_mounts_def)
    have "emits (do { mount' \<leftarrow> (case mget wp (ContainerPath ?m) of None \<Rightarrow> ret ?m | Some pathes \<Rightarrow> retry (await_mount E i pathes) 1000 3 ?m);
          add_mounts E i wp (vs @ [convertMountToVolumeSpec i mount']) ms })
        (\<lambda>out es. \<exists>vs'. out = vs @ vs' \<and> list_all2 (mounted E i wp es) (kept_mounts (m # ms)) vs')"
    proof (rule emits_bind [OF one], rule emits_mono [OF Cons.IH])
      fix m' es out fs
      assume m': "mounted E i wp es ?m (convertMountToVolumeSpec i m')"
        and "\<exists>vs'. out = (vs @ [convertMountToVolumeSpec i m']) @ vs' \<and> list_all2 (mounted E i wp fs) (kept_mounts ms) vs'"
      then obtain vs' where vs': "out = (vs @ [convertMountToVolumeSpec i m']) @ vs'"
        "list_all2 (mounted E i wp fs) (kept_mounts ms) vs'" by blast
      have "list_all2 (mounted E i wp (es @ fs)) (kept_mounts ms) vs'"
        using vs'(2) by (rule list_all2_mono) (rule mounted_mono, assumption, simp)
      then show "\<exists>vs'. out = vs @ vs' \<and> list_all2 (mounted E i wp (es @ fs)) (kept_mounts (m # ms)) vs'"
        using vs'(1) mounted_mono [OF m', of "es @ fs"] by (intro exI [of _ "convertMountToVolumeSpec i m' # vs'"]) (simp add: k)
    qed
    with False show ?thesis by (simp add: Let_def)
  qed
qed (simp add: kept_mounts_def)

lemma add_mounts_no_wait:
  assumes "\<forall>m \<in> set (kept_mounts ms). mget wp (ContainerPath m) = None"
  shows "run_state (add_mounts E i wp vs ms) w = (vs @ map (convertMountToVolumeSpec i) (kept_mounts ms), w)"
  using assms
  by (induction ms arbitrary: vs) (auto simp: kept_mounts_def Let_def split: if_splits)

lemma prefix_le: "prefix p q \<Longrightarrow> p \<le> (q :: string)"
  by (auto simp: prefix_def list_le_def list_less_def intro!: lexord_append_rightI) (metis list.exhaust)

lemma sleeps_add_mounts:
  "emits (add_mounts E i wp vs ms) (\<lambda>r es. sleeps es \<le> 3 * length ms)"
proof (induction ms arbitrary: vs)
  case (Cons m ms)
  have one: "emits (case mget wp p of None \<Rightarrow> ret m' | Some pathes \<Rightarrow> retry (await_mount E i pathes) 1000 3 m')
      (\<lambda>r es. sleeps es \<le> 3)" for p m'
    using emits_retry_sleeps [OF emits_await_mount] by (auto split: option.split)
  have "emits (do { mount' \<leftarrow> (case mget wp p of None \<Rightarrow> ret m' | Some pathes \<Rightarrow> retry (await_mount E i pathes) 1000 3 m');
        add_mounts E i wp (vs @ [convertMountToVolumeSpec i mount']) ms }) (\<lambda>r es. sleeps es \<le> 3 * length (m # ms))" for p m'
    by (rule emits_bind [OF one]) (auto intro!: emits_mono [OF Cons.IH])
  then show ?case
    using emits_mono [OF Cons.IH] by (simp add: Let_def)
qed simp

section \<open>Lemmas: removing copies\<close>

text \<open>
  What removing copies may do to the record of copies and to the file system, for the copies
  recorded under the keys \<open>K\<close>.
\<close>

definition removes_rel :: "string set \<Rightarrow> world \<Rightarrow> unit res \<Rightarrow> world \<Rightarrow> bool" where
  "removes_rel K w r w' \<longleftrightarrow> \<not> is_Panic r \<and> set (w_tmpfs w') \<subseteq> set (w_tmpfs w)
     \<and> fst ` (set (w_tmpfs w) - set (w_tmpfs w')) \<subseteq> K
     \<and> (\<exists>es. w_trace w' = w_trace w @ es
          \<and> (\<forall>ev \<in> set es. \<exists>d x. ev = EvRemoveAll d x \<and> d \<in> snd ` (set (w_tmpfs w) - set (w_tmpfs w'))))"

definition removes_recorded :: "string set \<Rightarrow> unit res prog \<Rightarrow> bool" where
  "removes_recorded K m \<longleftrightarrow> (\<forall>w. removes_rel K w (fst (run_state m w)) (snd (run_state m w)))"

lemma removes_relI: "removes_recorded K m \<Longrightarrow> run_state m w = (r, w') \<Longrightarrow> removes_rel K w r w'"
  unfolding removes_recorded_def by (metis fst_conv snd_conv)

lemma removes_rel_trans:
  assumes "removes_rel K w r1 w1" "removes_rel K w1 r2 w2"
  shows "removes_rel K w r2 w2"
proof -
  from assms obtain es fs where
    es: "w_trace w1 = w_trace w @ es" "\<forall>ev \<in> set es. \<exists>d x. ev = EvRemoveAll d x \<and> d \<in> snd ` (set (w_tmpfs w) - set (w_tmpfs w1))"
    and keys1: "fst ` (set (w_tmpfs w) - set (w_tmpfs w1)) \<subseteq> K" and
    fs: "w_trace w2 = w_trace w1 @ fs" "\<forall>ev \<in> set fs. \<exists>d x. ev = EvRemoveAll d x \<and> d \<in> snd ` (set (w_tmpfs w1) - set (w_tmpfs w2))"
    and keys2: "fst ` (set (w_tmpfs w1) - set (w_tmpfs w2)) \<subseteq> K" and
    sub: "set (w_tmpfs w1) \<subseteq> set (w_tmpfs w)" "set (w_tmpfs w2) \<subseteq> set (w_tmpfs w1)" and np: "\<not> is_Panic r2"
    unfolding removes_rel_def by (elim conjE exE)
  let ?Q = "\<lambda>ev. \<exists>d x. ev = EvRemoveAll d x \<and> d \<in> snd ` (set (w_tmpfs w) - set (w_tmpfs w2))"
  have mono: "d \<in> snd ` (set (w_tmpfs w) - set (w_tmpfs w2))"
    if "d \<in> snd ` (set (w_tmpfs w) - set (w_tmpfs w1)) \<or> d \<in> snd ` (set (w_tmpfs w1) - set (w_tmpfs w2))" for d
    using that sub by auto
  have "\<forall>ev \<in> set es. ?Q ev" using es(2) mono by meson
  moreover have "\<forall>ev \<in> set fs. ?Q ev" using fs(2) mono by meson
  ultimately have "\<forall>ev \<in> set (es @ fs). ?Q ev" by (simp only: set_append ball_Un)
  moreover have "w_trace w2 = w_trace w @ (es @ fs)" using es(1) fs(1) by simp
  moreover have "set (w_tmpfs w2) \<subseteq> set (w_tmpfs w)" using sub by (rule subset_trans [rotated])
  moreover have "fst ` (set (w_tmpfs w) - set (w_tmpfs w2)) \<subseteq> K" using keys1 keys2 by blast
  ultimately show ?thesis using np unfolding removes_rel_def by (intro conjI exI)
qed

lemma removes_recorded_ret: "\<not> is_Panic r \<Longrightarrow> removes_recorded K (ret r)"
  by (simp add: removes_recorded_def removes_rel_def)

lemma removes_recorded_step:
  assumes "removes_recorded K m" "removes_recorded K n"
  shows "removes_recorded K (step_or id m (\<lambda>u. n))"
  unfolding removes_recorded_def
proof
  fix w
  obtain r w1 where m: "run_state m w = (r, w1)" by force
  obtain r2 w2 where n: "run_state n w1 = (r2, w2)" by force
  note rels = removes_relI [OF assms(1) m] removes_relI [OF assms(2) n]
  show "removes_rel K w (fst (run_state (step_or id m (\<lambda>u. n)) w)) (snd (run_state (step_or id m (\<lambda>u. n)) w))"
    using rels removes_rel_trans [OF rels] by (cases r) (simp_all add: run_simps m n removes_rel_def)
qed

lemma removes_recorded_suffixes:
  "(list_ex (HasSuffix (links ! 0)) sfxs \<Longrightarrow> path_Join [i, links ! 1] \<in> K) \<Longrightarrow> removes_recorded K (remove_suffixes E i links sfxs)"
proof (induction sfxs)
  case Nil
  then show ?case by (simp add: removes_recorded_ret)
next
  case (Cons sfx sfxs)
  let ?k = "path_Join [i, links ! 1]"
  have rest: "removes_recorded K (remove_suffixes E i links sfxs)" using Cons by simp
  show ?case
  proof (cases "HasSuffix (links ! 0) sfx")
    case False
    then show ?thesis using rest by simp
  next
    case True
    have "removes_rel K w (fst (run_state (remove_suffixes E i links (sfx # sfxs)) w))
        (snd (run_state (remove_suffixes E i links (sfx # sfxs)) w))" for w
    proof (cases "mget (w_tmpfs w) ?k")
      case None
      then show ?thesis using True rest by (simp add: run_simps Let_def removes_recorded_def)
    next
      case (Some d)
      define x where "x = o_RemoveAll (os E) (w_trace w) d"
      define w1 where "w1 = w\<lparr>w_trace := w_trace w @ [EvRemoveAll d x], w_tmpfs := AList.delete ?k (w_tmpfs w)\<rparr>"
      have own: "?k \<in> K" using True Cons.prems by simp
      have "(?k, d) \<in> set (w_tmpfs w) - set (w_tmpfs w1)"
        using Some by (auto simp: w1_def AList.delete_eq dest: map_of_SomeD)
      then have "d \<in> snd ` (set (w_tmpfs w) - set (w_tmpfs w1))" by force
      then have rel: "removes_rel K w r w1" if "\<not> is_Panic r" for r
        using that own by (auto simp: removes_rel_def w1_def AList.delete_eq)
      obtain r2 w2 where n: "run_state (remove_suffixes E i links sfxs) w1 = (r2, w2)" by force
      have run: "run_state (remove_suffixes E i links (sfx # sfxs)) w
          = (case x of Inl e \<Rightarrow> (Err (WrapW ''Failed to remove'' e), w1) | Inr y \<Rightarrow> (r2, w2))"
        using True Some n by (auto simp: run_simps Let_def x_def w1_def split: sum.splits)
      show ?thesis
        unfolding run using rel [of "Err e" for e] removes_rel_trans [OF rel [of "Ok ()"] removes_relI [OF rest n]]
        by (cases x) simp_all
    qed
    then show ?thesis by (simp add: removes_recorded_def)
  qed
qed

text \<open>The copies of the container's own: under its name and the target of one of its special volumes.\<close>

definition own_copies :: "string \<Rightarrow> string \<Rightarrow> string set" where
  "own_copies i linkedVolumes = {path_Join [i, links ! 1] |links volume. volume \<in> set (Split (CHR '';'') linkedVolumes)
     \<and> links = Split (CHR '' '') (TrimSpace volume) \<and> 2 \<le> length links \<and> list_ex (HasSuffix (links ! 0)) bindMountSuffixes}"

lemma removes_recorded_volumes:
  assumes "\<And>volume links. volume \<in> set vols \<Longrightarrow> links = Split (CHR '' '') (TrimSpace volume) \<Longrightarrow> 2 \<le> length links
    \<Longrightarrow> list_ex (HasSuffix (links ! 0)) bindMountSuffixes \<Longrightarrow> path_Join [i, links ! 1] \<in> K"
  shows "removes_recorded K (remove_volumes E i vols)"
  using assms
proof (induction vols)
  case (Cons v vols)
  have IH: "removes_recorded K (remove_volumes E i vols)" using Cons by simp
  let ?links = "Split (CHR '' '') (TrimSpace v)"
  show ?case
  proof (cases "length ?links < 2")
    case True
    then show ?thesis using IH by (simp add: Let_def)
  next
    case False
    have "removes_recorded K (remove_suffixes E i ?links bindMountSuffixes)"
      using False Cons.prems [of v ?links] by (intro removes_recorded_suffixes) simp
    from removes_recorded_step [OF this IH] False show ?thesis by (simp add: Let_def)
  qed
qed (simp add: removes_recorded_ret)

lemma removes_own: "removes_recorded (own_copies i linkedVolumes) (removeSpecificVolumes E i linkedVolumes)"
  unfolding removeSpecificVolumes_def by (rule removes_recorded_volumes) (auto simp: own_copies_def)

section \<open>Properties\<close>



text \<open>
  Where nothing has to be waited for, preparing the mounts asks and changes nothing outside.
\<close>

theorem mounts_without_waiting:
  assumes "\<forall>m \<in> set (kept_mounts (ms @ [logshim_mount])). mget wp (ContainerPath m) = None"
  shows "run_state (prepareContainerMounts E i vs ms wp) w
    = (sort_key vol_target (vs @ map (convertMountToVolumeSpec i) (kept_mounts (ms @ [logshim_mount]))), w)"
  using add_mounts_no_wait [OF assms] by (simp add: prepareContainerMounts_def)

theorem mounts_without_waiting_witness:
  "run_state (prepareContainerMounts base_env ''pod/a'' [] [\<lparr>ContainerPath = ''/sys'', HostPath = ''/h'', Readonly = False\<rparr>] []) base_world
     = (sort_key vol_target ([] @ map (convertMountToVolumeSpec ''pod/a'')
         (kept_mounts ([\<lparr>ContainerPath = ''/sys'', HostPath = ''/h'', Readonly = False\<rparr>] @ [logshim_mount]))), base_world)"
  by (rule mounts_without_waiting) simp

text \<open>
  Waiting for mounts is bounded: whatever the outside answers, at most three pauses of a second
  for each mount.
\<close>

theorem mount_waiting_bounded:
  "\<exists>es. w_trace (snd (run_state (prepareContainerMounts E i vs ms wp) w)) = w_trace w @ es
      \<and> sleeps es \<le> 3 * (length ms + 1)"
proof -
  have "emits (prepareContainerMounts E i vs ms wp) (\<lambda>r es. sleeps es \<le> 3 * (length ms + 1))"
    unfolding prepareContainerMounts_def
    by (rule emits_bind [OF sleeps_add_mounts]) simp
  then show ?thesis unfolding emits_def by blast
qed



text \<open>
  A copy made for the service account of a nested container is found again when the container
  goes: the volume linked at the target the copy was recorded under is removed and forgotten.
\<close>

theorem recorded_copy_removed:
  fixes E :: env
  assumes "mget (w_tmpfs w) (path_Join [i, target]) = Some d"
    and "src = u @ ''/var/run/secrets/kubernetes.io/serviceaccount''"
    and "set (src @ target) \<inter> set '' ;'' = {}"
    and "src \<noteq> [] \<and> plain_char (hd src)" "target \<noteq> [] \<and> plain_char (last target)"
  defines "x \<equiv> o_RemoveAll (os E) (w_trace w) d"
  shows "run_state (removeSpecificVolumes E i (src @ '' '' @ target)) w
    = (case x of Inl e \<Rightarrow> Err (WrapW ''Failed to remove'' e) | Inr y \<Rightarrow> Ok (),
       w\<lparr>w_trace := w_trace w @ [EvRemoveAll d x], w_tmpfs := AList.delete (path_Join [i, target]) (w_tmpfs w)\<rparr>)"
proof -
  have nsp: "CHR '' '' \<notin> set src" "CHR '' '' \<notin> set target" "CHR '';'' \<notin> set (src @ '' '' @ target)"
    using assms(3) by auto
  have trim: "TrimSpace (src @ '' '' @ target) = src @ '' '' @ target"
    using assms(4,5) by (intro TrimSpace_plain) (cases src; auto)
  have split: "Split (CHR '' '') (src @ '' '' @ target) = [src, target]"
    using nsp by (simp add: Split_append_sep)
  have suffix: "HasSuffix src ''/var/run/secrets/kubernetes.io/serviceaccount''"
    unfolding assms(2) suffix_def by simp
  have "run_state (remove_volumes E i [src @ '' '' @ target]) w
    = (case x of Inl e \<Rightarrow> Err (WrapW ''Failed to remove'' e) | Inr y \<Rightarrow> Ok (),
       w\<lparr>w_trace := w_trace w @ [EvRemoveAll d x], w_tmpfs := AList.delete (path_Join [i, target]) (w_tmpfs w)\<rparr>)"
    using suffix assms(1)
    by (simp only: remove_volumes.simps trim split Let_def bindMountSuffixes_def)
      (auto simp: run_simps Let_def x_def split: sum.splits)
  then show ?thesis
    using nsp(3) Split_no_sep [of "CHR '';''" "src @ '' '' @ target"] by (simp add: removeSpecificVolumes_def)
qed

theorem recorded_copy_removed_witness:
  "w_tmpfs (snd (run_state (removeSpecificVolumes base_env ''box/pod/a'' (''/v/var/run/secrets/kubernetes.io/serviceaccount'' @ '' '' @ ''/s''))
     (base_world\<lparr>w_tmpfs := [(''box/pod/a/s'', ''/c''), (''k'', ''/d'')]\<rparr>))) = [(''k'', ''/d'')]"
proof -
  let ?w = "base_world\<lparr>w_tmpfs := [(''box/pod/a/s'', ''/c''), (''k'', ''/d'')]\<rparr>"
  have j: "path_Join [''box/pod/a'', ''/s''] = ''box/pod/a/s''" by code_simp
  have "mget (w_tmpfs ?w) (path_Join [''box/pod/a'', ''/s'']) = Some ''/c''" unfolding j by simp
  from recorded_copy_removed [OF this, of "''/v/var/run/secrets/kubernetes.io/serviceaccount''" "''/v''" base_env]
  show ?thesis unfolding j by (simp add: plain_char_def)
qed

end
