(* ===== verification/Network.thy ===== *)
theory Network
  imports Labels Mounts
begin

text \<open>
  The network of a pod (runtime_mapper.go, "network"): resolv.conf, the network properties Porto
  reports, setting a pod's network up through CNI, taking it down again, and the devices.
\<close>

section \<open>Reading and writing network properties\<close>

definition prepareContainerResolvConf :: "TContainerSpec \<Rightarrow> DNSConfig option \<Rightarrow> TContainerSpec" where
  "prepareContainerResolvConf spec cfg = (case cfg of
     None \<Rightarrow> spec
   | Some c \<Rightarrow>
       let resolvConf = map (\<lambda>i. ''nameserver '' @ i) (Servers c)
             @ [''search '' @ Join '' '' (Searches c)]
             @ [''options '' @ Join '' '' (Options c) @ [CHR 0x0A]]
       in spec\<lparr>ResolvConf := Some (Join '';'' resolvConf)\<rparr>)"

text \<open>The loops over the words of one property and over the requested kinds return at once.\<close>

fun net_arg :: "string list \<Rightarrow> string list \<Rightarrow> string option" where
  "net_arg nets (nsl # arg # rest) = (if nsl \<in> set nets then Some arg else net_arg nets (arg # rest))"
| "net_arg nets _ = None"

fun net_prop :: "string list \<Rightarrow> string list \<Rightarrow> string" where
  "net_prop nets [] = []"
| "net_prop nets (prop # props) = (case net_arg nets (Fields prop) of Some arg \<Rightarrow> arg | None \<Rightarrow> net_prop nets props)"

definition parsePropertiesNetNS :: "string \<Rightarrow> string list \<Rightarrow> string" where
  "parsePropertiesNetNS props nets = net_prop nets (Split (CHR '';'') props)"

definition convertContainerNetNsMode :: "string \<Rightarrow> NamespaceMode" where
  "convertContainerNetNsMode net =
     (if parsePropertiesNetNS net [''netns'', ''L3''] \<noteq> [] then NS_POD else NS_NODE)"

definition pod_ips :: "string \<Rightarrow> string list" where
  "pod_ips addresses =
     (if length addresses > 0
      then List.map_filter (\<lambda>address. let pair = Split (CHR '' '') address in
             if length pair > 1 then if pair ! 1 \<noteq> ''auto'' then Some (pair ! 1) else None else None)
           (Split (CHR '';'') addresses)
      else [])"

definition convertPodSandboxNetworkStatus :: "string \<Rightarrow> PodSandboxNetworkStatus" where
  "convertPodSandboxNetworkStatus addresses =
     (let ips = pod_ips addresses in
      \<lparr>n_Ip = (if length ips > 0 then ips ! 0 else []),
       n_AdditionalIps = (if length ips > 1 then tl ips else [])\<rparr>)"

definition convertToCNILabels :: "string \<Rightarrow> PodSandboxConfig \<Rightarrow> (string, string) gomap" where
  "convertToCNILabels i config =
     [(''K8S_POD_NAMESPACE'', pm_Namespace (pc_Metadata config)),
      (''K8S_POD_NAME'', pm_Name (pc_Metadata config)),
      (''K8S_POD_INFRA_CONTAINER_ID'', i),
      (''K8S_POD_UID'', pm_Uid (pc_Metadata config)),
      (''IgnoreUnknown'', ''1'')]"

section \<open>Setting up and taking down\<close>

definition ifPrefixName :: string where "ifPrefixName = ''veth''"

definition defaultIfName :: string where "defaultIfName = ''veth0''"

definition kubeResourceDomain :: string where "kubeResourceDomain = ''portoshim.net''"

definition use_netns :: "env \<Rightarrow> bool" where
  "use_netns E \<longleftrightarrow> length (ParentContainer (Cfg E)) = 0 \<or> NetType (Cfg E) = ''netns''"

definition cni_opts :: "env \<Rightarrow> cniOpt list" where
  "cni_opts E = (if use_netns E then [WithLoNetwork] else []) @ [WithDefaultConf]"

definition pod_netns_path :: "env \<Rightarrow> string res prog" where
  "pod_netns_path E =
     (if use_netns E
      then call_or (WrapW ''Failed to create network namespace'') (NewNetNS E (NetnsDir (Cfg E))) (\<lambda>p. ret (Ok p))
      else call_or (FmtV ''Failed to generate net ns id'') (RandRead E)
             (\<lambda>randBytes. ret (Ok (path_Join [NetnsDir (Cfg E), ''cni-'' @ hexEncode randBytes]))))"

fun set_limits :: "(string, string) gomap \<Rightarrow> TContainerSpec \<Rightarrow> TContainerSpec" where
  "set_limits [] spec = spec"
| "set_limits ((k, v) # kvs) spec =
     (if HasPrefix k ''net-''
      then let m = [(ifPrefixName, of_nat (parse_uint0 64 v))] in
        if k = path_Join [kubeResourceDomain, ''net-tx''] then set_limits kvs (spec\<lparr>NetLimit := Some m\<rparr>)
        else if k = path_Join [kubeResourceDomain, ''net-rx''] then set_limits kvs (spec\<lparr>NetRxLimit := Some m\<rparr>)
        else set_limits kvs spec
      else set_limits kvs spec)"

definition set_network :: "env \<Rightarrow> string \<Rightarrow> cniResult \<Rightarrow> PodSandboxConfig \<Rightarrow> TContainerSpec \<Rightarrow> TContainerSpec" where
  "set_network E netnsPath result cfg spec =
     (let spec1 = spec\<lparr>Hostname := Some (pc_Hostname cfg)\<rparr>;
          spec2 = (if use_netns E then spec1\<lparr>Net := Some [(''netns'', [Base netnsPath])]\<rparr>
                   else spec1\<lparr>Net := Some [(''L3'', [defaultIfName])], Userns := Some True\<rparr>);
          spec3 = (case mget result defaultIfName of
                     Some (Some ipConfigs) \<Rightarrow>
                       spec2\<lparr>Ip := Some (map (Pair defaultIfName) (List.map_filter id ipConfigs))\<rparr>
                   | _ \<Rightarrow> spec2)
      in set_limits (pc_Annotations cfg) (spec3\<lparr>Sysctl := Some (convertToStringMap (pc_Sysctls cfg))\<rparr>))"

text \<open>\<open>plugin\<close> tells whether the mapper has a network plugin (\<open>m.netPlugin != nil\<close>).\<close>

definition preparePodNetwork :: "env \<Rightarrow> bool \<Rightarrow> TContainerSpec \<Rightarrow> PodSandboxConfig \<Rightarrow> TContainerSpec res prog" where
  "preparePodNetwork E plugin podSpec cfg =
     (if pc_NetworkMode cfg = None \<or> pc_NetworkMode cfg = Some NS_NODE then ret (Ok podSpec)
      else if \<not> plugin then ret (Err (Errorf ''cni was not initialized'' []))
      else call_or (FmtV ''failed to load cni configuration'') (CniLoad E (cni_opts E)) (\<lambda>u.
           step_or id (pod_netns_path E) (\<lambda>netnsPath.
           step_or id (removePortoPrefix E (Name podSpec)) (\<lambda>portoid.
           call_or id (CniSetup E portoid netnsPath (convertToCNILabels portoid cfg) (pc_Annotations cfg)) (\<lambda>result.
           ret (Ok (set_network E netnsPath result cfg podSpec)))))))"

definition prepareSandboxConfig :: "env \<Rightarrow> string \<Rightarrow> PodSandboxConfig res prog" where
  "prepareSandboxConfig E portoid =
     call_or id (GetProperty E portoid ''labels'') (\<lambda>labels.
     step_or id (ret (convertFromPortoLabels labels)) (\<lambda>(podLabels, annotations).
     ret (Ok \<lparr>pc_Metadata = convertPodMetadata podLabels, pc_Labels = [], pc_Annotations = annotations,
              pc_Hostname = [], pc_Dns = None, pc_Resources = None, pc_NetworkMode = None, pc_Sysctls = []\<rparr>)))"

definition removeNetNS :: "env \<Rightarrow> bool \<Rightarrow> string \<Rightarrow> string \<Rightarrow> PodSandboxConfig \<Rightarrow> unit res prog" where
  "removeNetNS E plugin i netnsProp config =
     (if \<not> plugin then ret (Panic ''nil pointer dereference'')
      else call_or (WrapW ''failed to load cni configuration'') (CniLoad E (cni_opts E)) (\<lambda>u.
           let netnsPath = path_Join [NetnsDir (Cfg E), netnsProp] in
           call_or id (NetNSClosed E netnsPath) (\<lambda>closed.
           let path = (if closed then [] else netnsPath) in
           call_or (WrapW ''removeNetNS'') (CniRemove E i path (convertToCNILabels i config) (pc_Annotations config)) (\<lambda>u.
           call_or id (NetNSRemove E netnsPath) (\<lambda>u. ret (Ok ()))))))"

section \<open>Devices\<close>

definition prepareContainerDevices :: "TContainerSpec \<Rightarrow> CriDevice list \<Rightarrow> TContainerSpec" where
  "prepareContainerDevices spec devices =
     spec\<lparr>Devices := Some (map (\<lambda>d. \<lparr>Device = d_HostPath d, Access = d_Permissions d, DevicePath = d_ContainerPath d\<rparr>) devices)\<rparr>"

section \<open>Lemmas\<close>

lemma net_arg_no_match: "set ws \<inter> set nets = {} \<Longrightarrow> net_arg nets ws = None"
  by (induction nets ws rule: net_arg.induct) auto

lemma net_arg_pair: "n \<in> set nets \<Longrightarrow> net_arg nets (n # a # rest) = Some a"
  by simp

lemma net_prop_append:
  "(\<forall>p \<in> set ps. net_arg nets (Fields p) = None) \<Longrightarrow> net_prop nets (ps @ qs) = net_prop nets qs"
  by (induction ps) auto

lemma set_limits_dead: "set_limits kvs spec = spec"
proof (induction kvs arbitrary: spec)
  case (Cons kv kvs)
  obtain k v where kv: "kv = (k, v)" by (cases kv)
  have "path_Join [kubeResourceDomain, ''net-tx''] = ''portoshim.net/net-tx''"
    "path_Join [kubeResourceDomain, ''net-rx''] = ''portoshim.net/net-rx''" by code_simp+
  moreover have "\<not> HasPrefix ''portoshim.net/net-tx'' ''net-''" "\<not> HasPrefix ''portoshim.net/net-rx'' ''net-''" by simp_all
  ultimately show ?case using Cons by (auto simp: kv Let_def)
qed simp

lemma set_network_limits:
  "NetLimit (set_network E np result cfg spec) = NetLimit spec \<and> NetRxLimit (set_network E np result cfg spec) = NetRxLimit spec"
  by (simp add: set_network_def set_limits_dead Let_def split: option.split)

lemma join_plain_no_semicolon:
  "list_all (\<lambda>t. plain_word t \<and> CHR '';'' \<notin> set t) ws \<Longrightarrow> CHR '';'' \<notin> set (Join '' '' ws)"
  by (induction ws rule: induct_list012) auto

lemma Fields_words:
  "list_all (\<lambda>t. plain_word t \<and> CHR '';'' \<notin> set t) ws \<Longrightarrow> Fields (Join '' '' ws) = ws"
  by (rule Fields_Join) (auto simp: list_all_iff)

definition demo_pod :: PodSandboxConfig where
  "demo_pod = \<lparr>pc_Metadata = \<lparr>pm_Name = ''web'', pm_Uid = ''u1'', pm_Namespace = ''default'', pm_Attempt = 0\<rparr>,
     pc_Labels = [(''app'', ''web'')], pc_Annotations = [(''portoshim.net/net-tx'', ''1000'')], pc_Hostname = ''web'',
     pc_Dns = None, pc_Resources = None, pc_NetworkMode = Some NS_POD, pc_Sysctls = []\<rparr>"

section \<open>Properties\<close>

text \<open>How Porto prints a list property: items of words, ";" between the items.\<close>

definition render_items :: "string list list \<Rightarrow> string" where
  "render_items items = Join '';'' (map (Join '' '') items)"

lemma Split_render_items:
  assumes "items \<noteq> []" "\<forall>ws \<in> set items. list_all (\<lambda>t. plain_word t \<and> CHR '';'' \<notin> set t) ws"
  shows "Split (CHR '';'') (render_items items) = map (Join '' '') items"
  unfolding render_items_def using assms by (intro Split_Join) (auto simp: join_plain_no_semicolon)

text \<open>
  The network of a pod is read back from the property Porto reports: from any list of items the
  argument of the first item that starts with a requested kind is taken when the items before it
  do not mention one, and nothing when no item does; so a pod is on the host's network exactly
  when neither "netns" nor "L3" is there.
\<close>

theorem net_property_roundtrip:
  assumes "\<forall>ws \<in> set (before @ [n # arg # rest] @ others). list_all (\<lambda>t. plain_word t \<and> CHR '';'' \<notin> set t) ws"
    and "\<forall>ws \<in> set before. set ws \<inter> set nets = {}" "n \<in> set nets"
  shows "parsePropertiesNetNS (render_items (before @ [n # arg # rest] @ others)) nets = arg
    \<and> (before \<noteq> [] \<longrightarrow> parsePropertiesNetNS (render_items before) nets = [])"
proof -
  have none: "\<forall>p \<in> set (map (Join '' '') before). net_arg nets (Fields p) = None"
    using assms(1,2) by (auto simp: Fields_words net_arg_no_match)
  have "Fields (Join '' '' (n # arg # rest)) = n # arg # rest"
    using assms(1) by (intro Fields_words) simp
  then have "net_prop nets (map (Join '' '') (before @ [n # arg # rest] @ others)) = arg"
    using assms(3) by (simp add: net_prop_append [OF none] del: Join.simps)
  moreover have "net_prop nets (map (Join '' '') before) = []"
    using net_prop_append [OF none, of "[]"] by simp
  ultimately show ?thesis
    using assms(1) Split_render_items [of "before @ [n # arg # rest] @ others"] Split_render_items [of before]
    by (auto simp: parsePropertiesNetNS_def)
qed

theorem net_property_roundtrip_witness:
  "parsePropertiesNetNS (render_items ([[''host'']] @ [[''netns'', ''cni-1'']] @ [])) [''netns''] = ''cni-1''"
  by (rule net_property_roundtrip [THEN conjunct1]) (simp_all add: plain_word_def plain_char_def)

text \<open>
  The addresses of a pod are those of the "ip" property, in their order and without the
  automatic ones: the first is the pod's address, the others the additional ones.
\<close>

theorem pod_addresses_exact:
  assumes "pairs \<noteq> []" "\<forall>(d, a) \<in> set pairs. {CHR '' '', CHR '';''} \<inter> set (d @ a) = {}"
  defines "ips \<equiv> filter (\<lambda>a. a \<noteq> ''auto'') (map snd pairs)"
  shows "pod_ips (Join '';'' (map (\<lambda>(d, a). d @ '' '' @ a) pairs)) = ips
    \<and> convertPodSandboxNetworkStatus (Join '';'' (map (\<lambda>(d, a). d @ '' '' @ a) pairs))
        = \<lparr>n_Ip = (case ips of [] \<Rightarrow> [] | a # as \<Rightarrow> a), n_AdditionalIps = tl ips\<rparr>"
proof -
  let ?s = "Join '';'' (map (\<lambda>(d, a). d @ '' '' @ a) pairs)"
  have "Split (CHR '';'') ?s = map (\<lambda>(d, a). d @ '' '' @ a) pairs"
    using assms(1,2) by (intro Split_Join) (auto split: prod.splits)
  moreover have "?s \<noteq> []"
    using assms(1) by (cases pairs; cases "tl pairs") (auto split: prod.splits)
  moreover have "List.map_filter (\<lambda>address. let pair = Split (CHR '' '') address in
             if length pair > 1 then if pair ! 1 \<noteq> ''auto'' then Some (pair ! 1) else None else None)
           (map (\<lambda>(d, a). d @ '' '' @ a) pairs) = ips"
    using assms(2) unfolding ips_def
    by (induction pairs) (auto simp: List.map_filter_simps Split_append_sep)
  ultimately have "pod_ips ?s = ips" by (simp add: pod_ips_def)
  then show ?thesis
    by (cases ips; cases "tl ips") (simp_all add: convertPodSandboxNetworkStatus_def Let_def)
qed

theorem pod_addresses_exact_witness:
  "pod_ips (Join '';'' (map (\<lambda>(d, a). d @ '' '' @ a) [(''veth0'', ''fd00::1''), (''veth0'', ''auto'')])) = [''fd00::1'']"
  using pod_addresses_exact [of "[(''veth0'', ''fd00::1''), (''veth0'', ''auto'')]"] by simp

text \<open>
  Taking a pod's network down: the namespace is removed only after the plugins' DEL succeeded,
  DEL is asked once with the pod's identifier, labels and annotations and with no path when the
  namespace is gone, the steps come in that order, the first failure ends them and is the result.
\<close>

theorem network_removal_order:
  assumes "run_state (removeNetNS E True i prop config) w = (r, w')"
  defines "ns \<equiv> path_Join [NetnsDir (Cfg E), prop]"
  shows "\<exists>l c d x. w_trace w' = w_trace w @ take (case (l, c, d) of (Inl _, _, _) \<Rightarrow> 1 | (_, Inl _, _) \<Rightarrow> 2 | (_, _, Inl _) \<Rightarrow> 3 | _ \<Rightarrow> 4)
       [EvCniLoad (cni_opts E) l, EvNetNSClosed ns c,
        EvCniRemove i (if c = Inr True then [] else ns) (convertToCNILabels i config) (pc_Annotations config) d,
        EvNetNSRemove ns x]
     \<and> (is_Ok r \<longleftrightarrow> (\<exists>b. l = Inr () \<and> c = Inr b \<and> d = Inr () \<and> x = Inr ())) \<and> \<not> is_Panic r"
proof -
  let ?l = "o_CniLoad (cni E) (w_trace w) (cni_opts E)"
  let ?h1 = "w_trace w @ [EvCniLoad (cni_opts E) ?l]"
  let ?c = "o_NetNSClosed (cni E) ?h1 ns"
  let ?h2 = "?h1 @ [EvNetNSClosed ns ?c]"
  let ?p = "if ?c = Inr True then [] else ns"
  let ?d = "o_CniRemove (cni E) ?h2 i ?p (convertToCNILabels i config) (pc_Annotations config)"
  let ?h3 = "?h2 @ [EvCniRemove i ?p (convertToCNILabels i config) (pc_Annotations config) ?d]"
  let ?x = "o_NetNSRemove (cni E) ?h3 ns"
  show ?thesis
    using assms(1)
    by (intro exI [of _ ?l] exI [of _ ?c] exI [of _ ?d] exI [of _ ?x])
      (auto simp: removeNetNS_def run_simps Let_def ns_def split: sum.splits if_splits)
qed

theorem network_removal_order_witness:
  "\<not> is_Panic (fst (run_state (removeNetNS base_env True ''pod-1'' ''cni-1'' demo_pod) base_world))"
proof -
  obtain r w' where r: "run_state (removeNetNS base_env True ''pod-1'' ''cni-1'' demo_pod) base_world = (r, w')" by force
  from network_removal_order [OF r] show ?thesis unfolding r by auto
qed

text \<open>
  The traffic limits of the annotations never reach Porto: setting up the network leaves both
  limits of the pod as they are, because a key cannot both start with "net-" and be
  "portoshim.net/net-tx" or "portoshim.net/net-rx".
\<close>

theorem traffic_limits_ignored:
  assumes "run_state (preparePodNetwork E plugin spec cfg) w = (Ok s, w')"
  shows "NetLimit s = NetLimit spec \<and> NetRxLimit s = NetRxLimit spec"
  using assms
  by (auto simp: preparePodNetwork_def run_step_or run_call_or set_network_limits
      split: if_splits prod.splits sum.splits res.splits)

theorem traffic_limits_ignored_witness:
  "\<exists>s w'. run_state (preparePodNetwork base_env True (new_spec ''web-0007'') demo_pod) base_world = (Ok s, w')
     \<and> NetLimit s = None"
proof -
  obtain r w' where r: "run_state (preparePodNetwork base_env True (new_spec ''web-0007'') demo_pod) base_world = (r, w')" by force
  moreover have "is_Ok r"
    using r by (auto simp: preparePodNetwork_def pod_netns_path_def removePortoPrefix_def run_simps demo_pod_def
        base_defs remove_prefix_def use_netns_def)
  ultimately obtain s where "run_state (preparePodNetwork base_env True (new_spec ''web-0007'') demo_pod) base_world = (Ok s, w')"
    by (auto simp: is_Ok_iff)
  with traffic_limits_ignored [OF this] show ?thesis by (auto simp: new_spec_def)
qed

text \<open>
  What CNI DEL is told about a pod is what ADD was told: from the labels Porto prints for a pod,
  in any order and spacing, the network labels and annotations of its request are recovered, when
  the request's own labels do not give the pod another name, uid or namespace.
\<close>

theorem del_mirrors_add:
  assumes "wf_map (pc_Labels cfg)" "wf_map (pc_Annotations cfg)"
    and "\<forall>(k, v) \<in> {(''io.kubernetes.pod.name'', pm_Name (pc_Metadata cfg)), (''io.kubernetes.pod.uid'', pm_Uid (pc_Metadata cfg)),
          (''io.kubernetes.pod.namespace'', pm_Namespace (pc_Metadata cfg))}. mget (pc_Labels cfg) k \<in> {None, Some v}"
    and "Labels (preparePodLabels E spec cfg) = Some stored" "mset (map fst es) = mset stored"
    and "o_GetProperty (porto E) (w_trace w) portoid ''labels'' = Inr (render_labels es)"
  shows "\<exists>config w'. run_state (prepareSandboxConfig E portoid) w = (Ok config, w')
    \<and> convertToCNILabels i config = convertToCNILabels i cfg
    \<and> map_of (pc_Annotations config) = map_of (pc_Annotations cfg)"
proof -
  let ?L = "pod_labels E (Name spec) cfg"
  have "wf_map ?L"
    using assms(1) by (auto simp: pod_labels_def set_default_def Let_def)
  moreover have "stored = mset_at ''INFRA.engine'' ''k8s'' (convertToPortoLabels ?L (pc_Annotations cfg))"
    using assms(4) by (simp add: preparePodLabels_def convertToStringMap_def Let_def)
  ultimately obtain L' A' where rb: "convertFromPortoLabels (render_labels es) = Ok (L', A')"
    "map_of L' = map_of ?L" "map_of A' = map_of (pc_Annotations cfg)"
    using labels_roundtrip_lemma [of ?L "pc_Annotations cfg" es] assms(2,5) by blast
  have "mget_str L' k = mget_str ?L k" for k using rb(2) by (simp add: mget_str_def)
  then have md: "convertPodMetadata L' = convertPodMetadata ?L" by (simp add: convertPodMetadata_def)
  have own: "(case mget (pc_Labels cfg) k of Some u \<Rightarrow> u | None \<Rightarrow> v) = v"
    if "mget (pc_Labels cfg) k = None \<or> mget (pc_Labels cfg) k = Some v" for k v
    using that by auto
  show ?thesis
    using assms(3,6) rb md
    by (auto simp: prepareSandboxConfig_def run_simps convertToCNILabels_def pod_metadata_lemma Let_def own split: prod.splits)
qed

text \<open>Porto printing the stored labels of \<open>demo_pod\<close>.\<close>

definition demo_stored :: "(string, string) gomap" where
  "demo_stored = the (Labels (preparePodLabels base_env (new_spec ''web-0007'') demo_pod))"

definition labels_env :: env where
  "labels_env = base_env\<lparr>porto := base_porto\<lparr>o_GetProperty := (\<lambda>h i n. Inr (render_labels (map (\<lambda>e. (e, 0, 1)) demo_stored)))\<rparr>\<rparr>"

theorem del_mirrors_add_witness:
  "\<exists>config w'. run_state (prepareSandboxConfig labels_env ''web-0007'') base_world = (Ok config, w')
    \<and> convertToCNILabels ''web-0007'' config = convertToCNILabels ''web-0007'' demo_pod
    \<and> map_of (pc_Annotations config) = map_of (pc_Annotations demo_pod)"
proof (rule del_mirrors_add [where spec = "new_spec ''web-0007''" and stored = demo_stored
      and es = "map (\<lambda>e. (e, 0, 1)) demo_stored"])
  show "Labels (preparePodLabels labels_env (new_spec ''web-0007'') demo_pod) = Some demo_stored"
    by (simp add: demo_stored_def preparePodLabels_def labels_env_def pod_labels_def)
  show "mset (map fst (map (\<lambda>e. (e, 0 :: nat, 1 :: nat)) demo_stored)) = mset demo_stored"
    by (simp add: comp_def)
  show "o_GetProperty (porto labels_env) (w_trace base_world) ''web-0007'' ''labels'' =
      Inr (render_labels (map (\<lambda>e. (e, 0, 1)) demo_stored))"
    by (simp add: labels_env_def)
qed (simp_all add: demo_pod_def)

end
