(* ===== verification/Resources.thy ===== *)
theory Resources
  imports Cri World
begin

text \<open>
  Resource limits (prepareResources in runtime_mapper.go) and the setter that asks Porto whether it
  supports a property before the specification carries it (property.go). The struct tags come from
  code generated for the Porto protocol: \<open>tags\<close> gives the protobuf tag of a field.
\<close>

section \<open>Operations\<close>

fun name_value :: "string list \<Rightarrow> string \<Rightarrow> string" where
  "name_value [] nameValue = nameValue"
| "name_value (kv # kvs) nameValue =
     (case Split (CHR ''='') (TrimSpace kv) of
        [k, v] \<Rightarrow> name_value kvs (if TrimSpace k = ''name'' then TrimSpace v else nameValue)
      | _ \<Rightarrow> name_value kvs nameValue)"

definition getNameValue :: "string \<Rightarrow> string" where
  "getNameValue input = name_value (Split (CHR '','') input) []"

type_synonym struct_tags = "string \<Rightarrow> string option"

definition getProtobufName :: "struct_tags \<Rightarrow> string \<Rightarrow> string res" where
  "getProtobufName tags fieldName = (case tags fieldName of
     None \<Rightarrow> Err (Errorf ''field not found'' [fieldName])
   | Some tag \<Rightarrow>
       if tag = [] then Err (Errorf ''protobuf tag not found on field'' [fieldName])
       else let nameValue = getNameValue tag in
         if nameValue = [] then Err (Errorf ''name not found in protobuf tag of field'' [fieldName])
         else Ok nameValue)"

text \<open>
  \<open>setPropertyByName\<close> on a \<open>TContainerSpec\<close> with a value of type \<open>*uint64\<close>: the two fields of that
  type the source names, and no other field takes the value.
\<close>

definition setPropertyByName :: "TContainerSpec \<Rightarrow> string \<Rightarrow> u64 \<Rightarrow> TContainerSpec res" where
  "setPropertyByName spec fieldName v =
     (if fieldName = ''MemoryLimit'' then Ok (spec\<lparr>MemoryLimit := Some v\<rparr>)
      else if fieldName = ''MemoryGuarantee'' then Ok (spec\<lparr>MemoryGuarantee := Some v\<rparr>)
      else Err (Errorf ''cannot assign value'' [fieldName]))"

fun isPortoNotSupportedError :: "goerr \<Rightarrow> bool" where
  "isPortoNotSupportedError (PortoError EError_NotSupported m) = True"
| "isPortoNotSupportedError _ = False"

definition setPropertyByNameInPorto :: "env \<Rightarrow> struct_tags \<Rightarrow> TContainerSpec \<Rightarrow> string \<Rightarrow> u64 \<Rightarrow> TContainerSpec res prog" where
  "setPropertyByNameInPorto E tags spec fieldName v =
     step_or (FmtV ''can not get property name'') (ret (getProtobufName tags fieldName)) (\<lambda>propName. do {
       r \<leftarrow> GetProperty E ''/'' propName;
       case r of
         Inr x \<Rightarrow> ret (setPropertyByName spec fieldName v)
       | Inl e \<Rightarrow> if isPortoNotSupportedError e then ret (Ok spec) else ret (Err e)
     })"

definition prepareResources :: "env \<Rightarrow> struct_tags \<Rightarrow> TContainerSpec \<Rightarrow> LinuxContainerResources option
    \<Rightarrow> TContainerSpec res prog" where
  "prepareResources E tags spec cfg = (case cfg of
     None \<Rightarrow> ret (Ok spec)
   | Some c \<Rightarrow>
       let cpuValue = F64Div (sint (CpuQuota c)) 100000;
           spec1 = spec\<lparr>CpuLimit := Some cpuValue, CpuGuarantee := Some cpuValue\<rparr>;
           memoryValue = (ucast (MemoryLimitInBytes c) :: u64)
       in step_or (FmtV ''can not set property MemoryLimit'')
            (setPropertyByNameInPorto E tags spec1 ''MemoryLimit'' memoryValue) (\<lambda>spec2.
          step_or (FmtV ''can not set property MemoryGuarantee'')
            (setPropertyByNameInPorto E tags spec2 ''MemoryGuarantee'' memoryValue) (\<lambda>spec3.
          ret (Ok spec3))))"

section \<open>Lemmas\<close>

lemma setProperty_no_panic:
  "\<not> is_Panic (fst (run_state (setPropertyByNameInPorto E tags spec f v) w))"
  by (auto simp: setPropertyByNameInPorto_def run_simps getProtobufName_def setPropertyByName_def Let_def
      split: option.splits sum.splits)

lemma getProtobufName_no_panic [simp]: "getProtobufName tags f \<noteq> Panic s"
  by (auto simp: getProtobufName_def Let_def split: option.splits)

text \<open>What Porto's answer on a property does to a field.\<close>

definition supported :: "goerr + string \<Rightarrow> bool" where
  "supported r = (case r of Inr x \<Rightarrow> True | Inl e \<Rightarrow> False)"

definition refused :: "goerr + string \<Rightarrow> bool" where
  "refused r = (case r of Inr x \<Rightarrow> False | Inl e \<Rightarrow> \<not> isPortoNotSupportedError e)"

lemma run_setProperty:
  fixes E :: env and w :: world
  assumes "getProtobufName tags f = Ok n" "f \<in> {''MemoryLimit'', ''MemoryGuarantee''}"
  defines "r \<equiv> o_GetProperty (porto E) (w_trace w) ''/'' n"
  shows "run_state (setPropertyByNameInPorto E tags spec f v) w =
    (if refused r then Err (projl r)
     else Ok (if supported r then (if f = ''MemoryLimit'' then spec\<lparr>MemoryLimit := Some v\<rparr> else spec\<lparr>MemoryGuarantee := Some v\<rparr>) else spec),
     w\<lparr>w_trace := w_trace w @ [EvGetProperty ''/'' n r]\<rparr>)"
  using assms by (auto simp: setPropertyByNameInPorto_def run_simps setPropertyByName_def refused_def supported_def
      split: sum.splits)

section \<open>Properties\<close>

text \<open>
  Resource limits: both CPU limits are the quota over 100000; each memory limit is set, to the
  bytes of the request as an unsigned 64-bit number, exactly when Porto has the property, left out
  when Porto says it is not supported, and any other answer fails the call; nothing but the two
  questions is asked.
\<close>

theorem prepareResources_exact:
  assumes "getProtobufName tags ''MemoryLimit'' = Ok ml" "getProtobufName tags ''MemoryGuarantee'' = Ok mg"
    and "run_state (prepareResources E tags spec (Some c)) w = (r, w')"
  defines "r1 \<equiv> o_GetProperty (porto E) (w_trace w) ''/'' ml"
  defines "r2 \<equiv> o_GetProperty (porto E) (w_trace w @ [EvGetProperty ''/'' ml r1]) ''/'' mg"
  defines "cpu \<equiv> F64Div (sint (CpuQuota c)) 100000" and "mem \<equiv> (ucast (MemoryLimitInBytes c) :: u64)"
  shows "(is_Ok r \<longleftrightarrow> \<not> refused r1 \<and> \<not> refused r2) \<and> \<not> is_Panic r
    \<and> (\<forall>s. r = Ok s \<longrightarrow> s = spec\<lparr>CpuLimit := Some cpu, CpuGuarantee := Some cpu,
           MemoryLimit := (if supported r1 then Some mem else MemoryLimit spec),
           MemoryGuarantee := (if supported r2 then Some mem else MemoryGuarantee spec)\<rparr>)
    \<and> w' = w\<lparr>w_trace := w_trace w @ EvGetProperty ''/'' ml r1
              # (if refused r1 then [] else [EvGetProperty ''/'' mg r2])\<rparr>"
  using assms(3) unfolding prepareResources_def
  by (cases "refused r1"; cases "supported r1"; cases "refused r2"; cases "supported r2")
    (auto simp: run_step_or run_setProperty [OF assms(1)] run_setProperty [OF assms(2)] Let_def
      r1_def [symmetric] r2_def [symmetric] cpu_def mem_def split: if_splits)

definition demo_tags :: struct_tags where
  "demo_tags f = (if f = ''MemoryLimit'' then Some ''varint,54,opt,name=memory_limit,json=memoryLimit''
     else if f = ''MemoryGuarantee'' then Some ''varint,53,opt,name=memory_guarantee,json=memoryGuarantee'' else None)"

lemma demo_names:
  "getProtobufName demo_tags ''MemoryLimit'' = Ok ''memory_limit''"
  "getProtobufName demo_tags ''MemoryGuarantee'' = Ok ''memory_guarantee''"
  by (simp_all add: getProtobufName_def demo_tags_def getNameValue_def TrimSpace_plain plain_char_def Let_def)

theorem prepareResources_exact_witness:
  "is_Ok (fst (run_state (prepareResources (base_env\<lparr>porto := base_porto\<lparr>o_GetProperty := (\<lambda>h i n. Inr ''0'')\<rparr>\<rparr>)
      demo_tags (new_spec ''pod'') (Some \<lparr>CpuQuota = 50000, MemoryLimitInBytes = 1048576\<rparr>)) base_world))"
proof -
  let ?E = "base_env\<lparr>porto := base_porto\<lparr>o_GetProperty := (\<lambda>h i n. Inr ''0'')\<rparr>\<rparr>"
  obtain r w' where r: "run_state (prepareResources ?E demo_tags (new_spec ''pod'')
      (Some \<lparr>CpuQuota = 50000, MemoryLimitInBytes = 1048576\<rparr>)) base_world = (r, w')" by force
  have "is_Ok r" using prepareResources_exact [OF demo_names r] by (simp add: refused_def base_env_def)
  then show ?thesis unfolding r by simp
qed

lemma prepareResources_memory:
  assumes "getProtobufName tags ''MemoryLimit'' = Ok ml" "getProtobufName tags ''MemoryGuarantee'' = Ok mg"
  shows "run_state (prepareResources E tags spec (Some c)) w = (Ok s, w')
      \<Longrightarrow> MemoryLimit s = Some (ucast (MemoryLimitInBytes c)) \<or> MemoryLimit s = MemoryLimit spec"
    and "(\<And>h i n. o_GetProperty (porto E) h i n = Inr v)
      \<Longrightarrow> \<exists>s w'. run_state (prepareResources E tags spec (Some c)) w = (Ok s, w') \<and> MemoryLimit s = Some (ucast (MemoryLimitInBytes c))"
  unfolding prepareResources_def
  by (auto simp: run_step_or run_setProperty [OF assms(1)] run_setProperty [OF assms(2)] Let_def refused_def supported_def
      split: if_splits)

text \<open>
  A memory limit of the request that is negative, as -1 for unlimited, reaches Porto as a limit
  near 2^64; the CPU quota keeps its sign.
\<close>

theorem negative_limits:
  assumes "getProtobufName tags ''MemoryLimit'' = Ok ml" "getProtobufName tags ''MemoryGuarantee'' = Ok mg"
    and "run_state (prepareResources E tags (new_spec n) (Some c)) w = (Ok s, w')"
    and "sint (MemoryLimitInBytes c) < 0" "MemoryLimit s = Some m"
  shows "uint m = 2 ^ 64 + sint (MemoryLimitInBytes c)"
proof -
  from prepareResources_memory(1) [OF assms(1-3)] assms(5)
  have "m = (ucast (MemoryLimitInBytes c) :: u64)" by (auto simp: new_spec_def)
  moreover have "uint (ucast (MemoryLimitInBytes c) :: u64) = uint (MemoryLimitInBytes c)" by simp
  moreover have "uint (MemoryLimitInBytes c) = sint (MemoryLimitInBytes c) mod 2 ^ 64"
    using uint_sint [of "MemoryLimitInBytes c"] by (simp add: take_bit_eq_mod)
  moreover have "sint (MemoryLimitInBytes c) mod 2 ^ 64 = sint (MemoryLimitInBytes c) + 2 ^ 64"
  proof -
    have "- (2 ^ 63) \<le> sint (MemoryLimitInBytes c)"
      using sint_ge [of "MemoryLimitInBytes c"] by simp
    then have "(sint (MemoryLimitInBytes c) + 2 ^ 64) mod 2 ^ 64 = sint (MemoryLimitInBytes c) + 2 ^ 64"
      using assms(4) by (intro mod_pos_pos_trivial) simp_all
    then show ?thesis by simp
  qed
  ultimately show ?thesis by simp
qed

theorem negative_limits_witness:
  "uint (18446744073709551615 :: u64) = 2 ^ 64 + sint (-1 :: i64)"
proof -
  let ?E = "base_env\<lparr>porto := base_porto\<lparr>o_GetProperty := (\<lambda>h i n. Inr ''0'')\<rparr>\<rparr>"
  let ?c = "\<lparr>CpuQuota = -1, MemoryLimitInBytes = -1\<rparr> :: LinuxContainerResources"
  obtain s w' where r: "run_state (prepareResources ?E demo_tags (new_spec ''pod'') (Some ?c)) base_world = (Ok s, w')"
    and m: "MemoryLimit s = Some 18446744073709551615"
    using prepareResources_memory(2) [OF demo_names, of ?E "''0''" "new_spec ''pod''" ?c base_world] by (auto simp: base_env_def)
  show ?thesis
    using negative_limits [OF demo_names r _ m] by simp
qed

end
