(* ===== verification/Images.thy ===== *)
theory Images
  imports World
begin

text \<open>
  The image service (image_mapper.go) and the registries it takes credentials from (registry.go).
\<close>

section \<open>Registries\<close>

definition defaultDockerRegistry :: string where
  "defaultDockerRegistry = ''registry-1.docker.io''"

definition default_registries :: "(string, RegistryInfo) gomap" where
  "default_registries =
     [(defaultDockerRegistry, \<lparr>Host = defaultDockerRegistry, AuthToken = [], AuthPath = [], AuthService = []\<rparr>),
      (''quay.io'', \<lparr>Host = ''quay.io'', AuthToken = [], AuthPath = ''https://quay.io/v2/auth'', AuthService = []\<rparr>)]"

text \<open>
  The second loop of \<open>InitKnownRegistries\<close>: the entries visited, in any order; \<open>m\<close> is the map it
  writes the visited entries back to.
\<close>

fun read_tokens :: "(string \<Rightarrow> goerr + FileInfo) \<Rightarrow> (string \<Rightarrow> goerr + string)
    \<Rightarrow> (string, RegistryInfo) gomap \<Rightarrow> (string, RegistryInfo) gomap \<Rightarrow> (string, RegistryInfo) gomap \<times> goerr option" where
  "read_tokens stat readFile [] m = (m, None)"
| "read_tokens stat readFile ((host, registry) # rest) m =
     (if HasPrefix (AuthToken registry) ''file:''
      then let authTokenPath = drop 5 (AuthToken registry) in
        case stat authTokenPath of
          Inl e \<Rightarrow> if is_OsNotExist e
                    then read_tokens stat readFile rest (mset_at host (registry\<lparr>AuthToken := []\<rparr>) m)
                    else (m, Some e)
        | Inr fi \<Rightarrow>
            (case readFile authTokenPath of
               Inl e \<Rightarrow> (m, Some e)
             | Inr content \<Rightarrow>
                 read_tokens stat readFile rest (mset_at host (registry\<lparr>AuthToken := TrimSpace content\<rparr>) m))
      else read_tokens stat readFile rest m)"

definition add_registries :: "RegistryInfo list \<Rightarrow> (string, RegistryInfo) gomap \<Rightarrow> (string, RegistryInfo) gomap" where
  "add_registries infos m = foldl (\<lambda>m info. mset_at (Host info) info m) m infos"

definition InitKnownRegistries :: "env \<Rightarrow> unit res prog" where
  "InitKnownRegistries E = do {
     w \<leftarrow> get_world;
     let known = add_registries (Registries (Cfg E)) (w_registries w);
     r \<leftarrow> look (\<lambda>h. read_tokens (o_Stat (os E) h) (o_ReadFile (os E) h) known known);
     u \<leftarrow> mod_world (\<lambda>w. w\<lparr>w_registries := fst r\<rparr>);
     ret (case snd r of None \<Rightarrow> Ok () | Some e \<Rightarrow> Err e)
   }"

definition no_registry :: RegistryInfo where
  "no_registry = \<lparr>Host = [], AuthToken = [], AuthPath = [], AuthService = []\<rparr>"

definition registry_host :: "string \<Rightarrow> string" where
  "registry_host name = (case cut_at (CHR ''/'') name of (h, None) \<Rightarrow> defaultDockerRegistry | (h, Some t) \<Rightarrow> h)"

definition GetImageRegistry :: "(string, RegistryInfo) gomap \<Rightarrow> string \<Rightarrow> RegistryInfo" where
  "GetImageRegistry known name =
     (case mget known (registry_host name) of Some registry \<Rightarrow> registry | None \<Rightarrow> no_registry)"

section \<open>The image service\<close>

definition parseImageName :: "string \<Rightarrow> string \<times> string \<times> string" where
  "parseImageName name =
     (let (img, digest) = cut_at (CHR ''@'') name;
          (img2, tag) = cut_at (CHR '':'') img
      in (img2, case tag of None \<Rightarrow> ''latest'' | Some t \<Rightarrow> t, case digest of None \<Rightarrow> [] | Some d \<Rightarrow> d))"

record CriImage =
  im_Id :: string
  im_RepoTags :: "string list"
  im_RepoDigests :: "string list"
  im_Size :: u64
  im_Uid :: i64
  im_Username :: string

definition getImageStruct :: "TDockerImage \<Rightarrow> CriImage" where
  "getImageStruct img =
     \<lparr>im_Id = (case ImageId img of None \<Rightarrow> [] | Some i \<Rightarrow> i), im_RepoTags = Tags img,
      im_RepoDigests = Digests img, im_Size = ImageSize img, im_Uid = 1, im_Username = []\<rparr>"

definition ListImages :: "env \<Rightarrow> CriImage list res prog" where
  "ListImages E = call_or (FmtV ''ListImages'') (ListDockerImages E) (\<lambda>imgs. ret (Ok (map getImageStruct imgs)))"

text \<open>\<open>err.(*porto.PortoError)\<close> without the comma-ok form panics on any other error.\<close>

definition ImageStatus :: "env \<Rightarrow> string \<Rightarrow> CriImage option res prog" where
  "ImageStatus E img = do {
     r \<leftarrow> DockerImageStatus E img (Place (Cfg E));
     case r of
       Inr i \<Rightarrow> ret (Ok (Some (getImageStruct i)))
     | Inl e \<Rightarrow> (case e of
         PortoError c m \<Rightarrow> if c = EError_DockerImageNotFound then ret (Ok None)
                           else ret (Err (FmtV ''ImageStatus'' e))
       | _ \<Rightarrow> ret (Panic ''interface conversion''))
   }"

text \<open>\<open>password\<close> is that of the request's credentials, empty where there are none.\<close>

definition PullImage :: "env \<Rightarrow> string \<Rightarrow> string \<Rightarrow> string res prog" where
  "PullImage E img password = do {
     w \<leftarrow> get_world;
     let registry = GetImageRegistry (w_registries w) img;
     let authToken = (if AuthToken registry = [] \<and> password \<noteq> [] then password else AuthToken registry);
     call_or (FmtV ''Failed to pull docker image'')
       (PullDockerImage E img (Place (Cfg E)) authToken (AuthPath registry) (AuthService registry))
       (\<lambda>i. ret (Ok (case ImageId i of None \<Rightarrow> [] | Some x \<Rightarrow> x)))
   }"

definition RemoveImage :: "env \<Rightarrow> string \<Rightarrow> unit res prog" where
  "RemoveImage E img = call_or (FmtV ''RemoveImage'') (RemoveDockerImage E img (Place (Cfg E))) (\<lambda>u. ret (Ok ()))"

text \<open>The answer of statfs, and what \<open>ImageFsInfo\<close> reports of it: 64-bit counts that wrap.\<close>

record Statfs =
  Blocks :: u64
  Bfree :: u64
  Bsize :: i64
  Files :: u64
  Ffree :: u64

record FilesystemUsage =
  fu_Timestamp :: int
  fu_Mountpoint :: string
  fu_UsedBytes :: u64
  fu_InodesUsed :: u64

definition ImageFsInfo :: "env \<Rightarrow> (string \<Rightarrow> goerr + Statfs) \<Rightarrow> FilesystemUsage res prog" where
  "ImageFsInfo E statfs =
     call_or (FmtV ''ImageFsInfo'') (ret (statfs (ImagesDir (Cfg E)))) (\<lambda>st. do {
       timestamp \<leftarrow> Now E;
       ret (Ok \<lparr>fu_Timestamp = timestamp, fu_Mountpoint = ImagesDir (Cfg E),
         fu_UsedBytes = (Blocks st - Bfree st) * ucast (Bsize st), fu_InodesUsed = Files st - Ffree st\<rparr>)
     })"

section \<open>Lemmas\<close>

text \<open>What reading the token files makes of one entry.\<close>

definition resolved_token :: "(string \<Rightarrow> goerr + FileInfo) \<Rightarrow> (string \<Rightarrow> goerr + string) \<Rightarrow> RegistryInfo \<Rightarrow> RegistryInfo" where
  "resolved_token stat readFile r =
     (if HasPrefix (AuthToken r) ''file:''
      then (case stat (drop 5 (AuthToken r)) of
              Inl e \<Rightarrow> r\<lparr>AuthToken := []\<rparr>
            | Inr fi \<Rightarrow> (case readFile (drop 5 (AuthToken r)) of Inl e \<Rightarrow> r | Inr c \<Rightarrow> r\<lparr>AuthToken := TrimSpace c\<rparr>))
      else r)"

lemma read_tokens_lookup:
  assumes "read_tokens stat readFile es m = (m', None)" "distinct (map fst es)" "\<And>h r. (h, r) \<in> set es \<Longrightarrow> mget m h = Some r"
  shows "mget m' h = (case mget es h of Some r \<Rightarrow> Some (resolved_token stat readFile r) | None \<Rightarrow> mget m h)"
  using assms
proof (induction stat readFile es m arbitrary: m' rule: read_tokens.induct)
  case (1 stat readFile m)
  then show ?case by simp
next
  case (2 stat readFile host registry rest m)
  have keep: "\<And>x. (\<And>h r. (h, r) \<in> set rest \<Longrightarrow> mget (mset_at host x m) h = Some r)"
    using "2.prems"(2,3) by (force simp: update_conv')
  have notin: "mget rest host = None" using "2.prems"(2) by (simp add: map_of_eq_None_iff)
  show ?case
  proof (cases "HasPrefix (AuthToken registry) ''file:''")
    case False
    then show ?thesis
      using "2.IH"(3) [OF False, of m'] "2.prems" notin by (auto simp: resolved_token_def split: option.splits)
  next
    case True
    show ?thesis
    proof (cases "stat (drop 5 (AuthToken registry))")
      case (Inl e)
      with "2.prems"(1) True have ne: "is_OsNotExist e" by (auto simp: Let_def split: if_splits)
      with True Inl "2.prems" show ?thesis
        using "2.IH"(1) [OF True refl Inl ne, of m'] keep notin
        by (auto simp: resolved_token_def Let_def update_conv' split: option.splits)
    next
      case (Inr fi)
      with "2.prems"(1) True obtain c where c: "readFile (drop 5 (AuthToken registry)) = Inr c"
        by (auto simp: Let_def split: sum.splits)
      with True Inr "2.prems" show ?thesis
        using "2.IH"(2) [OF True refl Inr c, of m'] keep notin
        by (auto simp: resolved_token_def Let_def update_conv' split: option.splits)
    qed
  qed
qed

lemma wf_add_registries: "wf_map m \<Longrightarrow> wf_map (add_registries infos m)"
  unfolding add_registries_def by (induction infos arbitrary: m) auto

section \<open>Properties\<close>

text \<open>
  After start-up every registry, built in or configured (a configured one replaces a built-in
  one of the same host), has the token its file holds, trimmed, or none when the file is missing;
  tokens that are no "file:" references, and everything else of the entries, stay as they were.
\<close>

theorem registries_initialised:
  assumes "run_state (InitKnownRegistries E) w = (Ok (), w')" "wf_map (w_registries w)"
  shows "map_of (w_registries w') = (\<lambda>h. map_option (resolved_token (o_Stat (os E) (w_trace w)) (o_ReadFile (os E) (w_trace w)))
      (map_of (add_registries (Registries (Cfg E)) (w_registries w)) h))"
proof
  fix h
  let ?k = "add_registries (Registries (Cfg E)) (w_registries w)"
  have wf: "wf_map ?k" using assms(2) by (rule wf_add_registries)
  have r: "read_tokens (o_Stat (os E) (w_trace w)) (o_ReadFile (os E) (w_trace w)) ?k ?k = (w_registries w', None)"
    using assms(1) by (auto simp: InitKnownRegistries_def run_simps Let_def prod_eq_iff split: option.splits)
  show "map_of (w_registries w') h = map_option (resolved_token (o_Stat (os E) (w_trace w)) (o_ReadFile (os E) (w_trace w)))
      (map_of ?k h)"
    using read_tokens_lookup [OF r wf, of h] wf by (auto split: option.splits)
qed

theorem registries_initialised_witness:
  "map_of (w_registries (snd (run_state (InitKnownRegistries base_env) (base_world\<lparr>w_registries := default_registries\<rparr>)))) ''quay.io''
     = map_option (resolved_token (o_Stat (os base_env) []) (o_ReadFile (os base_env) []))
         (map_of (add_registries (Registries (Cfg base_env)) default_registries) ''quay.io'')"
proof -
  let ?w = "base_world\<lparr>w_registries := default_registries\<rparr>"
  have "fst (run_state (InitKnownRegistries base_env) ?w) = Ok ()"
    by (simp add: InitKnownRegistries_def run_simps base_defs add_registries_def default_registries_def)
  then have "run_state (InitKnownRegistries base_env) ?w = (Ok (), snd (run_state (InitKnownRegistries base_env) ?w))"
    by (simp add: prod_eq_iff)
  moreover have "wf_map (w_registries ?w)"
    by (simp add: default_registries_def defaultDockerRegistry_def)
  moreover have "w_trace ?w = []" by (simp add: base_world_def)
  ultimately show ?thesis
    using registries_initialised [of base_env ?w] by simp
qed

text \<open>
  Pulling an image uses the credentials of the registry the name starts with: the registry's
  own token wins over the password of the request, which is taken only when the registry has none,
  and one pull with the registry's path and service is all that happens.
\<close>

theorem pull_credentials:
  fixes E :: env and w :: world and password n :: string
  assumes "mget (w_registries w) h = Some reg" "CHR ''/'' \<notin> set h"
  defines "tok \<equiv> if AuthToken reg = [] then password else AuthToken reg"
  defines "r \<equiv> o_PullDockerImage (porto E) (w_trace w) (h @ CHR ''/'' # n) (Place (Cfg E)) tok (AuthPath reg) (AuthService reg)"
  shows "w_trace (snd (run_state (PullImage E (h @ CHR ''/'' # n) password) w)) =
      w_trace w @ [EvPullDockerImage (h @ CHR ''/'' # n) (Place (Cfg E)) tok (AuthPath reg) (AuthService reg) r]
    \<and> (is_Ok (fst (run_state (PullImage E (h @ CHR ''/'' # n) password) w)) \<longleftrightarrow> (\<exists>i. r = Inr i))"
proof -
  have "GetImageRegistry (w_registries w) (h @ CHR ''/'' # n) = reg"
    using assms(1,2) by (simp add: GetImageRegistry_def registry_host_def)
  moreover have "(if AuthToken reg = [] \<and> password \<noteq> [] then password else AuthToken reg) = tok"
    by (simp add: tok_def)
  ultimately show ?thesis
    by (auto simp: PullImage_def run_simps Let_def r_def split: sum.split)
qed

theorem pull_credentials_witness:
  "w_trace (snd (run_state (PullImage base_env (''quay.io'' @ CHR ''/'' # ''a/b:1'') ''secret'') (base_world\<lparr>w_registries := default_registries\<rparr>)))
     = [EvPullDockerImage ''quay.io/a/b:1'' [] ''secret'' ''https://quay.io/v2/auth'' [] (Inr base_image)]"
proof -
  let ?w = "base_world\<lparr>w_registries := default_registries\<rparr>"
  have "mget (w_registries ?w) ''quay.io'' = Some \<lparr>Host = ''quay.io'', AuthToken = [], AuthPath = ''https://quay.io/v2/auth'', AuthService = []\<rparr>"
    by (simp add: default_registries_def defaultDockerRegistry_def)
  from pull_credentials [OF this, where E = base_env and password = "''secret''" and n = "''a/b:1''"] show ?thesis
    by (simp add: base_defs)
qed

text \<open>
  The status of an image never panics on an error of Porto itself: a missing image is reported
  as no image; the only panic is on an error that is no Porto error, such as a lost connection.
\<close>

theorem image_status_panic:
  "is_Panic (fst (run_state (ImageStatus E img) w)) \<longleftrightarrow>
     (\<exists>e. o_DockerImageStatus (porto E) (w_trace w) img (Place (Cfg E)) = Inl e \<and> (\<nexists>c m. e = PortoError c m))"
  by (auto simp: ImageStatus_def run_simps split: sum.splits goerr.splits)

text \<open>
  A registry host with a port is cut at the port: the part of the name after the first colon
  is taken for the tag, whatever tag the name has.
\<close>

theorem registry_port_misread:
  assumes "CHR '':'' \<notin> set host" "CHR ''@'' \<notin> set (host @ port @ rest)"
  shows "parseImageName (host @ CHR '':'' # port @ CHR ''/'' # rest) = (host, port @ CHR ''/'' # rest, [])"
proof -
  have "CHR ''@'' \<notin> set (host @ CHR '':'' # port @ CHR ''/'' # rest)" using assms(2) by simp
  then show ?thesis using assms(1) by (simp add: parseImageName_def)
qed

theorem registry_port_misread_witness:
  "parseImageName (''reg.local'' @ CHR '':'' # ''5000'' @ CHR ''/'' # ''app:1.2'') = (''reg.local'', ''5000/app:1.2'', [])"
  using registry_port_misread [of "''reg.local''" "''5000''" "''app:1.2''"] by simp

end
