(* ===== verification/Lifecycle.thy ===== *)
theory Lifecycle
  imports Network Resources Images
begin

text \<open>
  What the handlers that create a container share (runtime_mapper.go, privileged.go): the
  capabilities of pods, the clean-up after a failed step, and the facts that the preparing steps
  neither create nor destroy a container, from which a handler is shown to leave none behind.
\<close>

section \<open>Capabilities (privileged.go)\<close>

definition sysCaps :: "string list" where
  "sysCaps = [''SYS_MODULE'', ''SYS_ADMIN'']"

definition modCaps :: TCapabilities where
  "modCaps = \<lparr>Cap = sysCaps, Action = True\<rparr>"

definition rmModCaps :: TCapabilities where
  "rmModCaps = \<lparr>Cap = sysCaps, Action = False\<rparr>"

section \<open>Failing after a container exists\<close>

text \<open>\<open>if err != nil { _ = pc.Destroy(id); return nil, wrap(err) }\<close> after a step and after a call.\<close>

definition step_or_destroy :: "env \<Rightarrow> string \<Rightarrow> (goerr \<Rightarrow> goerr) \<Rightarrow> 'a res prog \<Rightarrow> ('a \<Rightarrow> 'b res prog) \<Rightarrow> 'b res prog" where
  "step_or_destroy E i g m k = do {
     r \<leftarrow> m;
     case r of
       Ok v \<Rightarrow> k v
     | Panic s \<Rightarrow> ret (Panic s)
     | Err e \<Rightarrow> do { x \<leftarrow> Destroy E i; ret (Err (g e)) }
   }"

definition lift_call :: "(goerr + 'a) prog \<Rightarrow> 'a res prog" where
  "lift_call m = do { r \<leftarrow> m; ret (case r of Inl e \<Rightarrow> Err e | Inr v \<Rightarrow> Ok v) }"

section \<open>Lemmas\<close>

lemma run_step_or_destroy [run_simps]:
  "run_state (step_or_destroy E i g m k) w =
     (case run_state m w of (Ok v, w') \<Rightarrow> run_state (k v) w' | (Panic s, w') \<Rightarrow> (Panic s, w')
        | (Err e, w') \<Rightarrow> (Err (g e), w'\<lparr>w_trace := w_trace w' @ [EvDestroy i (o_Destroy (porto E) (w_trace w') i)]\<rparr>))"
  by (simp add: step_or_destroy_def run_simps split: prod.splits res.splits)

lemma run_lift_call [run_simps]:
  "run_state (lift_call m) w = (case run_state m w of (Inl e, w') \<Rightarrow> (Err e, w') | (Inr v, w') \<Rightarrow> (Ok v, w'))"
  by (simp add: lift_call_def split: prod.splits sum.splits)

lemma emits_step_or_destroy:
  assumes "emits m P"
    "\<And>e es x. P (Err e) es \<Longrightarrow> Q (Err (g e)) (es @ [EvDestroy i x])"
    "\<And>s es. P (Panic s) es \<Longrightarrow> Q (Panic s) es"
    "\<And>v es. P (Ok v) es \<Longrightarrow> emits (k v) (\<lambda>u fs. Q u (es @ fs))"
  shows "emits (step_or_destroy E i g m k) Q"
  unfolding step_or_destroy_def Destroy_def
  by (rule emits_bind [OF assms(1)])
    (auto split: res.splits intro!: emit_rules simp: assms(2-4))

lemma emits_lift_call_ask:
  "(\<And>e. Q (Err e) [ev (Inl e)]) \<Longrightarrow> (\<And>v. Q (Ok v) [ev (Inr v)]) \<Longrightarrow> emits (lift_call (ask f ev)) Q"
  unfolding lift_call_def by (auto intro!: emit_rules split: sum.split)

section \<open>Quiet steps\<close>

text \<open>
  Events that neither create, start, stop or destroy a container nor take its network down: all
  that preparing one may do.
\<close>

definition quiet_event :: "event \<Rightarrow> bool" where
  "quiet_event ev = (case ev of EvCreateFromSpec sp v st r \<Rightarrow> False | EvDestroy i r \<Rightarrow> False
     | EvStart i r \<Rightarrow> False | EvKill i n r \<Rightarrow> False | EvStopTimeout i t r \<Rightarrow> False
     | EvCniRemove i p ls an r \<Rightarrow> False | EvNetNSRemove p r \<Rightarrow> False | _ \<Rightarrow> True)"

abbreviation quiet :: "history \<Rightarrow> bool" where
  "quiet es \<equiv> list_all quiet_event es"

lemma quiet_events [simp]:
  "quiet_event (EvGetProperty i n r1)" "quiet_event (EvSetProperty i n v r2)" "quiet_event (EvGet is ns r3)"
  "quiet_event (EvUpdateFromSpec sp st r4)" "quiet_event (EvWait is k r5)" "quiet_event (EvCreateVolume p m r6)"
  "quiet_event (EvLinkVolumeTarget p i t b ro r4)" "quiet_event (EvUnlinkVolume p i r4)"
  "quiet_event (EvDockerImageStatus n p r7)" "quiet_event (EvPullDockerImage n p t a sv r7)"
  "quiet_event (EvCniLoad opts r4)" "quiet_event (EvCniSetup i p ls an r8)" "quiet_event (EvNewNetNS d r9)"
  "quiet_event (EvNetNSClosed d r10)"
  "quiet_event (EvMkdirAll p r4)" "quiet_event (EvRemoveAll p r4)" "quiet_event (EvCreateFile p r11)"
  "quiet_event (EvDup fd r11)" "quiet_event (EvCopyDir d p r4)" "quiet_event (EvMkdirTemp p r5)"
  "quiet_event (EvWriteFile p d r4)" "quiet_event (EvIntn k1 k2)" "quiet_event (EvRandRead r5)"
  "quiet_event (EvRunHook p as es k js r4)" "quiet_event (EvSleep k)" "quiet_event (EvRemount k d r4)"
  "quiet_event (EvListContainers p r12)" "quiet_event (EvGetProperties is ns r13)" "quiet_event (EvListVolumes p i r14)"
  "quiet_event (EvPipe r15)" "quiet_event (EvOpenPty r15)" "quiet_event (EvClose c)" "quiet_event (EvDial r4)" "quiet_event EvHangUp"
  "quiet_event (EvCreateFromSpec sp vs st r4) = False" "quiet_event (EvDestroy i r4) = False"
  "quiet_event (EvStart i r4) = False" "quiet_event (EvKill i k r4) = False" "quiet_event (EvStopTimeout i k r4) = False"
  "quiet_event (EvCniRemove i p ls an r4) = False" "quiet_event (EvNetNSRemove d r4) = False"
  by (simp_all add: quiet_event_def)

lemma quiet_getParentCnt: "emits (getParentCnt E) (\<lambda>v es. quiet es)"
  by (rule emits_mono [OF emits_getParentCnt]) auto

lemma quiet_addPortoPrefix: "emits (addPortoPrefix E i) (\<lambda>v es. quiet es)"
  by (rule emits_mono [OF emits_addPortoPrefix]) auto

lemma quiet_removePortoPrefix: "emits (removePortoPrefix E i) (\<lambda>v es. quiet es)"
  unfolding removePortoPrefix_def by (rule emits_bind [OF quiet_getParentCnt]) simp

lemma quiet_createID: "emits (createID E n) (\<lambda>v es. quiet es)"
  unfolding createID_def Intn_def by (auto intro!: emit_rules)

lemma quiet_retry:
  assumes "\<And>s. emits (fn s) (\<lambda>r es. quiet es)"
  shows "emits (retry fn d n s) (\<lambda>r es. quiet es)"
proof (induction n arbitrary: s)
  case (Suc n)
  show ?case
    unfolding retry.simps Sleep_def
    by (rule emits_bind [OF assms])
      (auto intro!: emit_rules emits_mono [OF Suc.IH] split: option.split)
qed simp


definition named :: "string \<Rightarrow> TContainerSpec res \<Rightarrow> bool" where
  "named n r = (case r of Ok s \<Rightarrow> Name s = n | _ \<Rightarrow> True)"

lemma named_simps [simp]: "named n (Ok s) = (Name s = n)" "named n (Err e)" "named n (Panic t)"
  by (simp_all add: named_def)

lemma named_setPropertyByName: "named (Name spec) (setPropertyByName spec f v)"
  by (simp add: setPropertyByName_def)

lemma quiet_setProperty:
  "emits (setPropertyByNameInPorto E tags spec f v) (\<lambda>r es. quiet es \<and> named (Name spec) r)"
  unfolding setPropertyByNameInPorto_def GetProperty_def
  by (rule emits_step_or_silent)
    (simp_all add: emits_bind_ask named_setPropertyByName split: sum.split)

lemma quiet_prepareResources:
  "emits (prepareResources E tags spec c) (\<lambda>r es. quiet es \<and> named (Name spec) r)"
proof (cases c)
  case (Some x)
  have second: "emits (step_or g (setPropertyByNameInPorto E tags s2 f v) (\<lambda>s3. ret (Ok s3)))
    (\<lambda>r es. quiet es \<and> named (Name s2) r)" for g s2 f v
    by (rule emits_step_or [OF quiet_setProperty]) simp_all
  have first: "emits (step_or g (setPropertyByNameInPorto E tags s1 f v)
      (\<lambda>s2. step_or g2 (setPropertyByNameInPorto E tags s2 f2 v) (\<lambda>s3. ret (Ok s3))))
    (\<lambda>r es. quiet es \<and> named (Name s1) r)" for g s1 f v g2 f2
  proof (rule emits_step_or [OF quiet_setProperty])
    fix s2 :: TContainerSpec and es
    assume "quiet es \<and> named (Name s1) (Ok s2)"
    then have h: "quiet es" "Name s2 = Name s1" by simp_all
    show "emits (step_or g2 (setPropertyByNameInPorto E tags s2 f2 v) (\<lambda>s3. ret (Ok s3)))
      (\<lambda>r fs. quiet (es @ fs) \<and> named (Name s1) r)"
      by (rule emits_mono [OF second]) (simp add: h)
  qed simp_all
  show ?thesis
    using first [of _ "spec\<lparr>CpuLimit := Some (F64Div (sint (CpuQuota x)) 100000),
        CpuGuarantee := Some (F64Div (sint (CpuQuota x)) 100000)\<rparr>"]
    by (simp add: prepareResources_def Some Let_def)
qed (simp add: prepareResources_def)

lemma quiet_prepareDirs: "emits (prepareDirs E i rp) (\<lambda>r es. quiet es)"
  unfolding prepareDirs_def MkdirAll_def Let_def by (auto intro!: emit_rules split: sum.split)

lemma quiet_prepareRoot:
  "emits (prepareRoot E spec vs rp img) (\<lambda>r es. quiet es \<and> (case r of Ok sv \<Rightarrow> Name (fst sv) = Name spec | _ \<Rightarrow> True))"
  unfolding prepareRoot_def by (rule emits_step_or [OF quiet_prepareDirs]) simp_all

lemma emits_prepareCommand: "emits (prepareCommand E spec c a im b) (\<lambda>r es. es = [])"
  unfolding prepareCommand_def findChrootExecutable_def Let_def
  by (auto intro!: emit_rules emits_bind_silent simp: emits_bind_look)

lemma quiet_prepareCommand: "emits (prepareCommand E spec c a im b) (\<lambda>r es. quiet es)"
  by (rule emits_mono [OF emits_prepareCommand]) simp

lemma quiet_pod_netns_path: "emits (pod_netns_path E) (\<lambda>r es. quiet es)"
  unfolding pod_netns_path_def NewNetNS_def RandRead_def by (auto intro!: emit_rules)

lemma quiet_preparePodNetwork: "emits (preparePodNetwork E pl spec cfg) (\<lambda>r es. quiet es)"
  unfolding preparePodNetwork_def CniLoad_def CniSetup_def
  by (auto intro!: emit_rules emits_step_or [OF quiet_pod_netns_path] emits_step_or [OF quiet_removePortoPrefix])

section \<open>Contracts of handlers\<close>

text \<open>
  A contract \<open>P\<close> on the result of a handler and the calls it made, which preparing steps do not
  break: more of them may come first, and failing before anything else keeps it.
\<close>

locale outcome =
  fixes P :: "'a res \<Rightarrow> history \<Rightarrow> bool"
  assumes front: "quiet es \<Longrightarrow> P v fs \<Longrightarrow> P v (es @ fs)"
    and failed: "\<not> is_Ok v \<Longrightarrow> P v []"
begin

lemma quiet_failed: "quiet es \<Longrightarrow> \<not> is_Ok v \<Longrightarrow> P v es"
  using front [of es v "[]"] failed by simp

lemma bind:
  assumes "emits m (\<lambda>r es. quiet es)" "\<And>v. emits (k v) P"
  shows "emits (State_Monad.bind m k) P"
  by (rule emits_bind [OF assms(1)]) (rule emits_mono [OF assms(2) front])

lemma step:
  assumes "emits m (\<lambda>r es. quiet es \<and> S r)" "\<And>v. S (Ok v) \<Longrightarrow> emits (k v) P"
  shows "emits (step_or g m k) P"
  by (rule emits_step_or [OF assms(1)]) (simp_all add: quiet_failed emits_mono [OF assms(2) front])

lemma call:
  assumes "\<And>r. quiet_event (ev r)" "\<And>v. emits (k v) P"
  shows "emits (call_or g (ask f ev) k) P"
proof (rule emits_call_or_ask)
  show "P (Err (g e)) [ev (Inl e)]" for e by (simp add: quiet_failed assms(1))
  show "emits (k v) (\<lambda>u es. P u (ev (Inr v) # es))" for v
    by (rule emits_mono [OF assms(2)]) (use front [of "[ev (Inr v)]"] assms(1) in simp)
qed

end

section \<open>No container is left behind\<close>

text \<open>What follows a successful creation: success without destroying, or failure and Destroy last.\<close>

definition finishing :: "string \<Rightarrow> 'a res \<Rightarrow> history \<Rightarrow> bool" where
  "finishing i v es = (case v of Err e \<Rightarrow> (\<exists>c x. es = c @ [EvDestroy i x] \<and> quiet c) | _ \<Rightarrow> quiet es)"

definition guarded :: "'a res \<Rightarrow> history \<Rightarrow> bool" where
  "guarded v es \<longleftrightarrow> quiet es \<and> \<not> is_Ok v
     \<or> (\<exists>a spec vols st r b. es = a @ EvCreateFromSpec spec vols st r # b \<and> quiet a
          \<and> (case r of Inl e \<Rightarrow> b = [] \<and> \<not> is_Ok v | Inr u \<Rightarrow> finishing (Name spec) v b))"

lemma finishing_quiet_front: "quiet es \<Longrightarrow> finishing i v fs \<Longrightarrow> finishing i v (es @ fs)"
proof (cases v)
  case (Err e)
  assume "quiet es" "finishing i v fs"
  with Err obtain c x where "fs = c @ [EvDestroy i x]" "quiet c" by (auto simp: finishing_def)
  with \<open>quiet es\<close> have "es @ fs = (es @ c) @ [EvDestroy i x] \<and> quiet (es @ c)" by simp
  then show ?thesis unfolding finishing_def Err res.case by blast
qed (simp_all add: finishing_def)

lemma guarded_quiet_front: "quiet es \<Longrightarrow> guarded v fs \<Longrightarrow> guarded v (es @ fs)"
  unfolding guarded_def
proof (elim disjE exE conjE)
  fix a spec vols st r b
  assume "quiet es" "fs = a @ EvCreateFromSpec spec vols st r # b" "quiet a"
    "case r of Inl e \<Rightarrow> b = [] \<and> \<not> is_Ok v | Inr u \<Rightarrow> finishing (Name spec) v b"
  then have "es @ fs = (es @ a) @ EvCreateFromSpec spec vols st r # b \<and> quiet (es @ a)
    \<and> (case r of Inl e \<Rightarrow> b = [] \<and> \<not> is_Ok v | Inr u \<Rightarrow> finishing (Name spec) v b)" by simp
  then show "quiet (es @ fs) \<and> \<not> is_Ok v \<or> (\<exists>a spec vols st r b. es @ fs = a @ EvCreateFromSpec spec vols st r # b
      \<and> quiet a \<and> (case r of Inl e \<Rightarrow> b = [] \<and> \<not> is_Ok v | Inr u \<Rightarrow> finishing (Name spec) v b))"
    by blast
qed simp

interpretation gd: outcome guarded
  by unfold_locales (auto intro: guarded_quiet_front simp: guarded_def [of _ "[]"])

lemma finishing_ret [simp]: "finishing i (Ok v) []"
  by (simp add: finishing_def)

text \<open>
  A contract on the creation of the container \<open>n\<close>: \<open>P\<close> for the whole handler, \<open>F\<close> for what follows a
  creation that Porto granted.
\<close>

locale creation = outcome P for P :: "'a res \<Rightarrow> history \<Rightarrow> bool" +
  fixes n :: string and F :: "'a res \<Rightarrow> history \<Rightarrow> bool"
  assumes refused: "Name sp = n \<Longrightarrow> P (Err e) [EvCreateFromSpec sp vs st (Inl x)]"
    and created: "Name sp = n \<Longrightarrow> F v es \<Longrightarrow> P v (EvCreateFromSpec sp vs st (Inr u) # es)"
    and after_front: "quiet es \<Longrightarrow> F v fs \<Longrightarrow> F v (es @ fs)"
    and after_ok: "F (Ok y) []"
    and after_panic: "quiet es \<Longrightarrow> F (Panic s) es"
    and after_failed: "quiet es \<Longrightarrow> F (Err e) (es @ [EvDestroy n r])"
begin

lemma create:
  assumes "Name sp = n" "\<And>u. emits (k u) F"
  shows "emits (call_or g (CreateFromSpec E sp vs st) k) P"
  unfolding CreateFromSpec_def
  by (rule emits_call_or_ask) (rule refused [OF assms(1)], rule emits_mono [OF assms(2)], rule created [OF assms(1)])

lemma after_step:
  assumes "emits m (\<lambda>r es. quiet es)" "\<And>v. emits (k v) F"
  shows "emits (step_or_destroy E n g m k) F"
  by (rule emits_step_or_destroy [OF assms(1)])
    (rule after_failed, assumption, rule after_panic, assumption, rule emits_mono [OF assms(2)], rule after_front, assumption+)

end

lemma guarded_creating:
  assumes "case r of Inl e \<Rightarrow> es = [] \<and> \<not> is_Ok v | Inr u \<Rightarrow> finishing (Name sp) v es"
  shows "guarded v (EvCreateFromSpec sp vs st r # es)"
  unfolding guarded_def using assms
  by (intro disjI2 exI [of _ "[]"] exI [of _ sp] exI [of _ vs] exI [of _ st] exI [of _ r] exI [of _ es]) simp

interpretation gc: creation guarded n "finishing n" for n
  by unfold_locales
    (auto intro: guarded_creating finishing_quiet_front simp: finishing_def [of n "Panic t" for n t] finishing_def [of n "Err t" for n t])

lemma quiet_lift_Update: "emits (lift_call (UpdateFromSpec E s st)) (\<lambda>v es. quiet es)"
  unfolding UpdateFromSpec_def by (rule emits_lift_call_ask) simp_all

definition no_destroy :: "history \<Rightarrow> bool" where
  "no_destroy es \<longleftrightarrow> list_all (\<lambda>ev. case ev of EvDestroy i r \<Rightarrow> False | _ \<Rightarrow> True) es"

lemma no_destroy_simps [simp]:
  "no_destroy []" "no_destroy (ev # es) \<longleftrightarrow> (case ev of EvDestroy i r \<Rightarrow> False | _ \<Rightarrow> True) \<and> no_destroy es"
  "no_destroy (es @ fs) \<longleftrightarrow> no_destroy es \<and> no_destroy fs"
  by (simp_all add: no_destroy_def)

lemma quiet_no_destroy: "quiet es \<Longrightarrow> no_destroy es"
  unfolding no_destroy_def quiet_event_def by (erule list.pred_mono_strong) (simp split: event.splits)

end
