(* ===== verification/Pods.thy ===== *)
theory Pods
  imports Lifecycle
begin

text \<open>
  The pod half of the runtime service (runtime_mapper.go): RunPodSandbox, StopPodSandbox,
  RemovePodSandbox, PodSandboxStatus and ListPodSandbox, on top of the components below them.
\<close>

section \<open>RunPodSandbox\<close>

text \<open>One attempt at the pause image; the closure assigns the variables \<open>image\<close> and \<open>err\<close>.\<close>

definition pause_attempt :: "env \<Rightarrow> TDockerImage option \<times> goerr option
    \<Rightarrow> ((TDockerImage option \<times> goerr option) \<times> goerr option) prog" where
  "pause_attempt E s = do {
     r \<leftarrow> DockerImageStatus E (PauseImage (Cfg E)) (Place (Cfg E));
     case r of
       Inr img \<Rightarrow> ret ((Some img, None), None)
     | Inl e \<Rightarrow> do {
         w \<leftarrow> get_world;
         let registry = GetImageRegistry (w_registries w) (PauseImage (Cfg E));
         r2 \<leftarrow> PullDockerImage E (PauseImage (Cfg E)) (Place (Cfg E)) (AuthToken registry) [] [];
         case r2 of
           Inr img \<Rightarrow> ret ((Some img, None), None)
         | Inl e2 \<Rightarrow> ret ((None, Some e2), Some (FmtV ''Failed to pull docker image'' e2))
       }
   }"

definition config_cmd :: "TDockerImage option \<Rightarrow> string list" where
  "config_cmd img = (case img of None \<Rightarrow> [] | Some i \<Rightarrow> ConfigCmd i)"

definition prepare_image_env :: "TContainerSpec \<Rightarrow> (string \<times> string) list \<Rightarrow> TDockerImage option \<Rightarrow> TContainerSpec" where
  "prepare_image_env spec env img =
     (case img of None \<Rightarrow> spec\<lparr>Env := Some env\<rparr> | Some i \<Rightarrow> prepareEnv spec env i)"

definition RunPodSandbox :: "env \<Rightarrow> struct_tags \<Rightarrow> bool \<Rightarrow> PodSandboxConfig \<Rightarrow> string res prog" where
  "RunPodSandbox E tags plugin cfg = do {
     i \<leftarrow> createID E (pm_Name (pc_Metadata cfg));
     portoid \<leftarrow> addPortoPrefix E i;
     s \<leftarrow> retry (pause_attempt E) 1000 3 (None, None);
     case snd s of
       Some e \<Rightarrow> ret (Err (FmtV ''No image'' e))
     | None \<Rightarrow>
         let podSpec = (new_spec portoid)\<lparr>Capabilities := Some modCaps\<rparr> in
         step_or (FmtV ''Failed to prepare resources'') (prepareResources E tags podSpec (pc_Resources cfg)) (\<lambda>podSpec.
         let podSpec = preparePodLabels E podSpec cfg in
         step_or (FmtV ''RunPodSandbox'') (prepareRoot E podSpec [] [] (PauseImage (Cfg E))) (\<lambda>(podSpec, volumes).
         call_or (FmtV ''RunPodSandbox'') (CreateFromSpec E podSpec volumes False) (\<lambda>u.
         let podSpec = prepare_image_env (new_spec portoid) [] (fst s) in
         step_or_destroy E portoid (FmtV ''RunPodSandbox'')
           (prepareCommand E podSpec [] [] (config_cmd (fst s)) False) (\<lambda>podSpec.
         step_or_destroy E portoid (FmtV ''RunPodSandbox'') (preparePodNetwork E plugin podSpec cfg) (\<lambda>podSpec.
         step_or_destroy E portoid (FmtV ''RunPodSandbox'') (lift_call (UpdateFromSpec E podSpec True)) (\<lambda>u.
         ret (Ok i)))))))
   }"

section \<open>StopPodSandbox and RemovePodSandbox\<close>

definition StopPodSandbox :: "env \<Rightarrow> string \<Rightarrow> unit res prog" where
  "StopPodSandbox E i = do {
     parentCnt \<leftarrow> getParentCnt E;
     if \<not> isPod i parentCnt then ret (Err (Errorf ''specified ID belongs to container'' [i]))
     else do {
       portoid \<leftarrow> addPortoPrefix E i;
       r \<leftarrow> GetProperty E portoid ''state'';
       let st = (case r of Inl e \<Rightarrow> [] | Inr s \<Rightarrow> s);
       if st = ''running''
       then call_or (FmtV ''StopPodSandbox'') (Kill E portoid 15) (\<lambda>u. ret (Ok ()))
       else ret (Ok ())
     }
   }"

definition empty_config :: PodSandboxConfig where
  "empty_config = \<lparr>pc_Metadata = \<lparr>pm_Name = [], pm_Uid = [], pm_Namespace = [], pm_Attempt = 0\<rparr>,
     pc_Labels = [], pc_Annotations = [], pc_Hostname = [], pc_Dns = None, pc_Resources = None,
     pc_NetworkMode = None, pc_Sysctls = []\<rparr>"

text \<open>The rest of the handler once the pod is known to Porto, and once its network is read.\<close>

definition remove_from_stop :: "env \<Rightarrow> bool \<Rightarrow> string \<Rightarrow> string \<Rightarrow> string \<Rightarrow> PodSandboxConfig \<Rightarrow> unit res prog" where
  "remove_from_stop E plugin i portoid netnsProp config =
     call_or id (StopTimeout E portoid 0) (\<lambda>u.
     step_or id (if netnsProp \<noteq> [] then removeNetNS E plugin i netnsProp config else ret (Ok ())) (\<lambda>u.
     call_or id (Destroy E portoid) (\<lambda>u.
     call_or id (RemoveAll E (getRootPath E portoid)) (\<lambda>u. ret (Ok ())))))"

definition remove_known :: "env \<Rightarrow> bool \<Rightarrow> string \<Rightarrow> string \<Rightarrow> string \<Rightarrow> unit res prog" where
  "remove_known E plugin i portoid netProp =
     (let netnsProp = parsePropertiesNetNS netProp [''netns''] in
      step_or id (if netnsProp \<noteq> [] then prepareSandboxConfig E portoid else ret (Ok empty_config)) (\<lambda>config.
      remove_from_stop E plugin i portoid netnsProp config))"

definition remove_pod :: "env \<Rightarrow> bool \<Rightarrow> string \<Rightarrow> string \<Rightarrow> unit res prog" where
  "remove_pod E plugin i portoid = do {
     r \<leftarrow> GetProperty E portoid ''net'';
     case r of
       Inl e \<Rightarrow> if errors_As_PortoError e = Some EError_ContainerDoesNotExist then ret (Ok ())
                else ret (Err (WrapW ''RemovePodSandbox'' e))
     | Inr netProp \<Rightarrow> remove_known E plugin i portoid netProp
   }"

definition RemovePodSandbox :: "env \<Rightarrow> bool \<Rightarrow> string \<Rightarrow> unit res prog" where
  "RemovePodSandbox E plugin i = do {
     parentCnt \<leftarrow> getParentCnt E;
     if \<not> isPod i parentCnt then ret (Err (Errorf ''specified ID belongs to container'' [i]))
     else do { portoid \<leftarrow> addPortoPrefix E i; remove_pod E plugin i portoid }
   }"

section \<open>PodSandboxStatus and ListPodSandbox\<close>

definition PodSandboxStatusOp :: "env \<Rightarrow> string \<Rightarrow> PodSandboxStatus res prog" where
  "PodSandboxStatusOp E i = do {
     parentCnt \<leftarrow> getParentCnt E;
     if \<not> isPod i parentCnt then ret (Err (Errorf ''specified ID belongs to container'' [i]))
     else do {
       portoid \<leftarrow> addPortoPrefix E i;
       step_or (FmtV ''PodSandboxStatus'')
         (getProperties E portoid [''labels'', ''state'', ''creation_time[raw]'', ''ip'', ''net'']) (\<lambda>props.
       step_or id (ret (convertFromPortoLabels (mget_str props ''labels''))) (\<lambda>(labels, annotations).
       ret (Ok \<lparr>ps_Id = i, ps_Metadata = convertPodMetadata labels,
                ps_State = convertPodState (mget_str props ''state''),
                ps_CreatedAt = convertValueToTime (mget_str props ''creation_time[raw]''),
                ps_Network = convertPodSandboxNetworkStatus (mget_str props ''ip''),
                ps_NetworkMode = convertContainerNetNsMode (mget_str props ''net''),
                ps_Labels = labels, ps_Annotations = annotations\<rparr>)))
     }
   }"

record PodFilter =
  pf_Id :: string
  pf_State :: "PodSandboxState option"
  pf_Labels :: "(string, string) gomap"

text \<open>The loop over the wanted labels breaks at the first one missing or different.\<close>

fun labels_match :: "(string, string) gomap \<Rightarrow> (string, string) gomap \<Rightarrow> bool" where
  "labels_match [] labels = True"
| "labels_match ((k, v) # target) labels =
     (if mget labels k = None \<or> mget labels k \<noteq> Some v then False else labels_match target labels)"

text \<open>Not a pod of Kubernetes, or one the filter leaves out.\<close>

definition skip_pod :: "PodFilter \<Rightarrow> (string, string) gomap \<Rightarrow> PodSandboxState \<Rightarrow> bool" where
  "skip_pod f labels st \<longleftrightarrow>
     mget labels ''portoshim.pod.id'' = None \<and> mget labels ''io.kubernetes.pod.namespace'' = None
     \<or> pf_State f \<noteq> None \<and> pf_State f \<noteq> Some st \<or> \<not> labels_match (pf_Labels f) labels"

fun list_pods :: "env \<Rightarrow> string \<Rightarrow> PodFilter \<Rightarrow> PodSandbox list \<Rightarrow> string list \<Rightarrow> PodSandbox list res prog" where
  "list_pods E parentCnt f items [] = ret (Ok items)"
| "list_pods E parentCnt f items (i # is) =
     (if \<not> isPod i parentCnt then list_pods E parentCnt f items is
      else do {
        r \<leftarrow> getProperties E i [''labels'', ''state'', ''creation_time[raw]''];
        case r of
          Err e \<Rightarrow> list_pods E parentCnt f items is
        | Panic s \<Rightarrow> ret (Panic s)
        | Ok props \<Rightarrow>
            step_or id (ret (convertFromPortoLabels (mget_str props ''labels''))) (\<lambda>(labels, annotations).
              let st = convertPodState (mget_str props ''state'') in
              if skip_pod f labels st
              then list_pods E parentCnt f items is
              else step_or id (removePortoPrefix E i) (\<lambda>cid.
                list_pods E parentCnt f
                  (items @ [\<lparr>pl_Id = cid, pl_Metadata = convertPodMetadata labels, pl_State = st,
                             pl_CreatedAt = convertValueToTime (mget_str props ''creation_time[raw]''),
                             pl_Labels = labels, pl_Annotations = annotations\<rparr>]) is))
      })"

definition ListPodSandbox :: "env \<Rightarrow> PodFilter \<Rightarrow> PodSandbox list res prog" where
  "ListPodSandbox E f =
     call_or (FmtV ''ListPodSandbox'') (ListContainers E (pf_Id f)) (\<lambda>response. do {
       parentCnt \<leftarrow> getParentCnt E;
       list_pods E parentCnt f [] response
     })"

lemma quiet_pause_attempt: "emits (pause_attempt E s) (\<lambda>r es. quiet es)"
  unfolding pause_attempt_def DockerImageStatus_def PullDockerImage_def Let_def
  by (auto intro!: emit_rules split: sum.split)

text \<open>
  The two handlers that create answer an identifier. Their contracts are those of a creation; the
  one of RunPodSandbox holds from the attempts for the pause image on, where its name is known.
\<close>

locale creating_handler = creation P n F
  for P :: "string res \<Rightarrow> history \<Rightarrow> bool" and n :: string and F :: "string res \<Rightarrow> history \<Rightarrow> bool"
begin

lemma pod_created:
  assumes "Name sp = n"
  shows "emits (call_or g (CreateFromSpec E sp vs False) (\<lambda>u.
     step_or_destroy E n g1 (prepareCommand E sp1 [] [] c False) (\<lambda>sp2.
     step_or_destroy E n g2 (preparePodNetwork E plugin sp2 cfg) (\<lambda>sp3.
     step_or_destroy E n g3 (lift_call (UpdateFromSpec E sp3 True)) (\<lambda>u. ret (Ok i)))))) P"
  by (rule create [OF assms], intro after_step quiet_prepareCommand quiet_preparePodNetwork quiet_lift_Update)
    (simp add: after_ok)

lemma pod_set_up: "emits (do {
     s \<leftarrow> retry (pause_attempt E) 1000 3 (None, None);
     case snd s of
       Some e \<Rightarrow> ret (Err (FmtV ''No image'' e))
     | None \<Rightarrow>
         let podSpec = (new_spec n)\<lparr>Capabilities := Some modCaps\<rparr> in
         step_or (FmtV ''Failed to prepare resources'') (prepareResources E tags podSpec (pc_Resources cfg)) (\<lambda>podSpec.
         let podSpec = preparePodLabels E podSpec cfg in
         step_or (FmtV ''RunPodSandbox'') (prepareRoot E podSpec [] [] (PauseImage (Cfg E))) (\<lambda>(podSpec, volumes).
         call_or (FmtV ''RunPodSandbox'') (CreateFromSpec E podSpec volumes False) (\<lambda>u.
         let podSpec = prepare_image_env (new_spec n) [] (fst s) in
         step_or_destroy E n (FmtV ''RunPodSandbox'')
           (prepareCommand E podSpec [] [] (config_cmd (fst s)) False) (\<lambda>podSpec.
         step_or_destroy E n (FmtV ''RunPodSandbox'') (preparePodNetwork E plugin podSpec cfg) (\<lambda>podSpec.
         step_or_destroy E n (FmtV ''RunPodSandbox'') (lift_call (UpdateFromSpec E podSpec True)) (\<lambda>u.
         ret (Ok i)))))))
   }) P"
proof (rule bind [OF quiet_retry [OF quiet_pause_attempt]])
  fix s :: "TDockerImage option \<times> goerr option"
  show "emits (case snd s of Some e \<Rightarrow> ret (Err (FmtV ''No image'' e))
     | None \<Rightarrow>
         let podSpec = (new_spec n)\<lparr>Capabilities := Some modCaps\<rparr> in
         step_or (FmtV ''Failed to prepare resources'') (prepareResources E tags podSpec (pc_Resources cfg)) (\<lambda>podSpec.
         let podSpec = preparePodLabels E podSpec cfg in
         step_or (FmtV ''RunPodSandbox'') (prepareRoot E podSpec [] [] (PauseImage (Cfg E))) (\<lambda>(podSpec, volumes).
         call_or (FmtV ''RunPodSandbox'') (CreateFromSpec E podSpec volumes False) (\<lambda>u.
         let podSpec = prepare_image_env (new_spec n) [] (fst s) in
         step_or_destroy E n (FmtV ''RunPodSandbox'')
           (prepareCommand E podSpec [] [] (config_cmd (fst s)) False) (\<lambda>podSpec.
         step_or_destroy E n (FmtV ''RunPodSandbox'') (preparePodNetwork E plugin podSpec cfg) (\<lambda>podSpec.
         step_or_destroy E n (FmtV ''RunPodSandbox'') (lift_call (UpdateFromSpec E podSpec True)) (\<lambda>u.
         ret (Ok i)))))))) P"
  proof (cases "snd s")
    case (Some e)
    then show ?thesis by (simp add: quiet_failed)
  next
    case None
    show ?thesis
      unfolding None option.case Let_def
    proof (rule step [OF quiet_prepareResources], rule step [OF quiet_prepareRoot])
      fix sp1 :: TContainerSpec and sv :: "TContainerSpec \<times> TVolumeSpec list"
      assume "named (Name ((new_spec n)\<lparr>Capabilities := Some modCaps\<rparr>)) (Ok sp1)"
        and "case Ok sv of Ok sv \<Rightarrow> Name (fst sv) = Name (preparePodLabels E sp1 cfg) | _ \<Rightarrow> True"
      then have n: "Name (fst sv) = n"
        by (simp add: new_spec_def preparePodLabels_def Let_def)
      then show "emits (case sv of (podSpec, volumes) \<Rightarrow>
         call_or (FmtV ''RunPodSandbox'') (CreateFromSpec E podSpec volumes False) (\<lambda>u.
         step_or_destroy E n (FmtV ''RunPodSandbox'')
           (prepareCommand E (prepare_image_env (new_spec n) [] (fst s)) [] [] (config_cmd (fst s)) False) (\<lambda>podSpec.
         step_or_destroy E n (FmtV ''RunPodSandbox'') (preparePodNetwork E plugin podSpec cfg) (\<lambda>podSpec.
         step_or_destroy E n (FmtV ''RunPodSandbox'') (lift_call (UpdateFromSpec E podSpec True)) (\<lambda>u.
         ret (Ok i)))))) P"
        by (cases sv) (simp add: pod_created)
    qed
  qed
qed

end

interpretation gch: creating_handler guarded n "finishing n" for n
  by unfold_locales

lemma guarded_RunPodSandbox: "emits (RunPodSandbox E tags plugin cfg) guarded"
  unfolding RunPodSandbox_def
  by (intro gd.bind [OF quiet_createID] gd.bind [OF quiet_addPortoPrefix] gch.pod_set_up)

section \<open>Removing a pod\<close>

text \<open>The plugins' DEL for pod \<open>i\<close> and the removal of the namespace, both granted.\<close>

definition network_gone :: "string \<Rightarrow> history \<Rightarrow> bool" where
  "network_gone i es \<longleftrightarrow> (\<exists>a b c pth ls an ns. es = a @ EvCniRemove i pth ls an (Inr ()) # b @ EvNetNSRemove ns (Inr ()) # c)"

lemma emits_removeNetNS:
  "emits (removeNetNS E plugin i prop config) (\<lambda>v es. no_destroy es \<and> (is_Ok v \<longrightarrow> network_gone i es))"
proof -
  have gone: "network_gone i (l # c # EvCniRemove i pth ls an (Inr ()) # EvNetNSRemove ns (Inr ()) # [])" for l c pth ls an ns
    unfolding network_gone_def
    by (intro exI [of _ "[l, c]"] exI [of _ "[]"] exI) simp
  show ?thesis
    unfolding removeNetNS_def CniLoad_def NetNSClosed_def CniRemove_def NetNSRemove_def Let_def
    by (auto intro!: emit_rules simp: gone)
qed

lemma quiet_prepareSandboxConfig: "emits (prepareSandboxConfig E p) (\<lambda>v es. quiet es)"
  unfolding prepareSandboxConfig_def GetProperty_def
  by (auto intro!: emit_rules emits_step_or_silent split: prod.split)

text \<open>
  The order of a removal from the stop on: stop, then the network where the pod has one, then
  Destroy, then the directory; \<open>net\<close> is the name of the pod's namespace.
\<close>

definition removal_trace :: "env \<Rightarrow> string \<Rightarrow> string \<Rightarrow> string \<Rightarrow> unit res \<Rightarrow> history \<Rightarrow> bool" where
  "removal_trace E i p net v es \<longleftrightarrow> no_destroy es \<and> \<not> is_Ok v
     \<or> (\<exists>a b x c. es = a @ EvStopTimeout p 0 (Inr ()) # b @ EvDestroy p x # c
          \<and> no_destroy a \<and> no_destroy b \<and> (net \<noteq> [] \<longrightarrow> network_gone i b)
          \<and> (c = [] \<or> x = Inr () \<and> (\<exists>y. c = [EvRemoveAll (getRootPath E p) y]))
          \<and> (is_Ok v \<longleftrightarrow> c = [EvRemoveAll (getRootPath E p) (Inr ())]))"

lemma removal_traceI:
  assumes "no_destroy a" "no_destroy b" "net \<noteq> [] \<Longrightarrow> network_gone i b"
    "c = [] \<or> x = Inr () \<and> (\<exists>y. c = [EvRemoveAll (getRootPath E p) y])"
    "is_Ok v \<longleftrightarrow> c = [EvRemoveAll (getRootPath E p) (Inr ())]"
  shows "removal_trace E i p net v (a @ EvStopTimeout p 0 (Inr ()) # b @ EvDestroy p x # c)"
  using assms unfolding removal_trace_def by blast

lemma emits_removal_tail:
  assumes "no_destroy a" "no_destroy b" "net \<noteq> [] \<Longrightarrow> network_gone i b"
  shows "emits (call_or id (Destroy E p) (\<lambda>u. call_or id (RemoveAll E (getRootPath E p)) (\<lambda>u. ret (Ok ()))))
    (\<lambda>v fs. removal_trace E i p net v (a @ EvStopTimeout p 0 (Inr ()) # b @ fs))"
  unfolding Destroy_def RemoveAll_def
  by (intro emit_rules; simp; intro emit_rules removal_traceI assms) (simp_all add: removal_traceI assms)

lemma removal_trace_failed: "no_destroy es \<Longrightarrow> \<not> is_Ok v \<Longrightarrow> removal_trace E i p net v es"
  by (simp add: removal_trace_def)

lemma removal_trace_front:
  assumes "no_destroy es" "removal_trace E i p net v fs"
  shows "removal_trace E i p net v (es @ fs)"
proof -
  from assms(2) consider "no_destroy fs" "\<not> is_Ok v"
    | a b x c where "fs = a @ EvStopTimeout p 0 (Inr ()) # b @ EvDestroy p x # c" "no_destroy a" "no_destroy b"
        "net \<noteq> [] \<longrightarrow> network_gone i b" "c = [] \<or> x = Inr () \<and> (\<exists>y. c = [EvRemoveAll (getRootPath E p) y])"
        "is_Ok v \<longleftrightarrow> c = [EvRemoveAll (getRootPath E p) (Inr ())]"
    unfolding removal_trace_def by blast
  then show ?thesis
  proof cases
    case 2
    have "removal_trace E i p net v ((es @ a) @ EvStopTimeout p 0 (Inr ()) # b @ EvDestroy p x # c)"
      using 2 assms(1) by (intro removal_traceI) auto
    then show ?thesis by (simp add: 2(1))
  qed (simp add: removal_trace_failed assms(1))
qed

lemma emits_remove_from_stop: "emits (remove_from_stop E plugin i p net config) (removal_trace E i p net)"
  unfolding remove_from_stop_def StopTimeout_def
proof (rule emits_call_or_ask)
  have net: "emits (if net \<noteq> [] then removeNetNS E plugin i net config else ret (Ok ()))
      (\<lambda>v es. no_destroy es \<and> (is_Ok v \<and> net \<noteq> [] \<longrightarrow> network_gone i es))"
    using emits_mono [OF emits_removeNetNS] by simp
  show "emits (step_or id (if net \<noteq> [] then removeNetNS E plugin i net config else ret (Ok ())) (\<lambda>u.
      call_or id (Destroy E p) (\<lambda>u. call_or id (RemoveAll E (getRootPath E p)) (\<lambda>u. ret (Ok ())))))
    (\<lambda>v es. removal_trace E i p net v (EvStopTimeout p 0 (Inr u) # es))" for u :: unit
  proof (rule emits_step_or [OF net])
    fix v :: unit and es
    assume "no_destroy es \<and> (is_Ok (Ok v) \<and> net \<noteq> [] \<longrightarrow> network_gone i es)"
    then show "emits (call_or id (Destroy E p) (\<lambda>u. call_or id (RemoveAll E (getRootPath E p)) (\<lambda>u. ret (Ok ()))))
      (\<lambda>v fs. removal_trace E i p net v (EvStopTimeout p 0 (Inr u) # es @ fs))"
      using emits_removal_tail [of "[]" es net i E p] by simp
  qed (simp_all add: removal_trace_failed)
qed (simp add: removal_trace_failed)

lemma emits_remove_known:
  "emits (remove_known E plugin i p netProp) (removal_trace E i p (parsePropertiesNetNS netProp [''netns'']))"
proof -
  have cfg: "emits (if net \<noteq> [] then prepareSandboxConfig E p else ret (Ok empty_config)) (\<lambda>v es. no_destroy es)" for net
    using emits_mono [OF quiet_prepareSandboxConfig quiet_no_destroy] by simp
  show ?thesis
    unfolding remove_known_def Let_def
    by (rule emits_step_or [OF cfg])
      (auto simp: removal_trace_failed intro: emits_mono [OF emits_remove_from_stop removal_trace_front])
qed

text \<open>What RemovePodSandbox does: nothing is destroyed, or the removal above on the pod's container.\<close>

definition pod_removal :: "env \<Rightarrow> string \<Rightarrow> unit res \<Rightarrow> history \<Rightarrow> bool" where
  "pod_removal E i v es \<longleftrightarrow>
     no_destroy es \<and> (is_Ok v \<longrightarrow> (\<exists>a p e. es = a @ [EvGetProperty p ''net'' (Inl e)]
        \<and> errors_As_PortoError e = Some EError_ContainerDoesNotExist \<and> quiet a))
     \<or> (\<exists>p netProp. EvGetProperty p ''net'' (Inr netProp) \<in> set es
        \<and> removal_trace E i p (parsePropertiesNetNS netProp [''netns'']) v es)"

lemma pod_removal_failed: "no_destroy es \<Longrightarrow> \<not> is_Ok v \<Longrightarrow> pod_removal E i v es"
  by (simp add: pod_removal_def)

lemma pod_removal_missing:
  "quiet es \<Longrightarrow> errors_As_PortoError e = Some EError_ContainerDoesNotExist
    \<Longrightarrow> pod_removal E i v (es @ [EvGetProperty p ''net'' (Inl e)])"
  using quiet_no_destroy [of es] by (auto simp: pod_removal_def)

lemma pod_removal_known:
  assumes "quiet es" "removal_trace E i p (parsePropertiesNetNS netProp [''netns'']) v fs"
  shows "pod_removal E i v (es @ EvGetProperty p ''net'' (Inr netProp) # fs)"
proof -
  have "no_destroy (es @ [EvGetProperty p ''net'' (Inr netProp)])" using assms(1) by (simp add: quiet_no_destroy)
  from removal_trace_front [OF this assms(2)] show ?thesis
    unfolding pod_removal_def by (intro disjI2 exI [of _ p] exI [of _ netProp]) simp
qed

lemma emits_remove_pod: "quiet es \<Longrightarrow> emits (remove_pod E plugin i p) (\<lambda>v fs. pod_removal E i v (es @ fs))"
  unfolding remove_pod_def GetProperty_def
  by (rule emits_bind_ask)
    (auto simp: pod_removal_failed pod_removal_missing quiet_no_destroy split: sum.split
      intro: emits_mono [OF emits_remove_known pod_removal_known])

lemma emits_RemovePodSandbox: "emits (RemovePodSandbox E plugin i) (pod_removal E i)"
  unfolding RemovePodSandbox_def
proof (rule emits_bind [OF quiet_getParentCnt])
  fix parent es assume q: "quiet es"
  have "emits (do { portoid \<leftarrow> addPortoPrefix E i; remove_pod E plugin i portoid }) (\<lambda>v fs. pod_removal E i v (es @ fs))"
  proof (rule emits_bind [OF quiet_addPortoPrefix])
    fix p es1 assume "quiet es1"
    with q have "quiet (es @ es1)" by simp
    from emits_remove_pod [OF this] show "emits (remove_pod E plugin i p) (\<lambda>v fs. pod_removal E i v (es @ es1 @ fs))"
      by simp
  qed
  then show "emits (if \<not> isPod i parent then ret (Err (Errorf ''specified ID belongs to container'' [i]))
     else do { portoid \<leftarrow> addPortoPrefix E i; remove_pod E plugin i portoid }) (\<lambda>v fs. pod_removal E i v (es @ fs))"
    using q by (simp add: pod_removal_failed quiet_no_destroy)
qed

section \<open>Listing\<close>

lemma labels_match_iff: "labels_match target labels \<longleftrightarrow> (\<forall>(k, v) \<in> set target. mget labels k = Some v)"
  by (induction target) (auto split: if_splits)

text \<open>An item the filter lets through, for a container of the list Porto gave.\<close>

definition listed_pod :: "string \<Rightarrow> PodFilter \<Rightarrow> string list \<Rightarrow> PodSandbox \<Rightarrow> bool" where
  "listed_pod parent f names it \<longleftrightarrow>
     (pf_State f = None \<or> pf_State f = Some (pl_State it))
     \<and> (\<forall>(k, v) \<in> set (pf_Labels f). mget (pl_Labels it) k = Some v)
     \<and> (mget (pl_Labels it) ''portoshim.pod.id'' \<noteq> None \<or> mget (pl_Labels it) ''io.kubernetes.pod.namespace'' \<noteq> None)
     \<and> pl_Metadata it = convertPodMetadata (pl_Labels it)
     \<and> (\<exists>n \<in> set names. isPod n parent \<and> remove_prefix parent n = Ok (pl_Id it))"

lemma listed_pod_mono: "listed_pod parent f names it \<Longrightarrow> set names \<subseteq> set names' \<Longrightarrow> listed_pod parent f names' it"
  unfolding listed_pod_def by blast

lemma getProperties_parent: "w_parent (snd (run_state (getProperties E i ns) w)) = w_parent w"
  by (simp add: getProperties_def run_simps split: sum.split)

text \<open>One round of the listing: it keeps what it has, or adds a pod the filter lets through.\<close>

lemma list_pods_round:
  assumes run: "run_state (list_pods E parent f items (i # is)) w = (Ok out, w')" and w: "w_parent w = Some parent"
  shows "\<exists>items1 w1. run_state (list_pods E parent f items1 is) w1 = (Ok out, w') \<and> w_parent w1 = Some parent
    \<and> (items1 = items \<or> (\<exists>it. items1 = items @ [it] \<and> listed_pod parent f [i] it))"
proof (cases "isPod i parent")
  case False
  then show ?thesis using assms by (intro exI [of _ items] exI [of _ w]) simp
next
  case True
  obtain r w1 where r: "run_state (getProperties E i [''labels'', ''state'', ''creation_time[raw]'']) w = (r, w1)" by force
  have w1: "w_parent w1 = Some parent" using getProperties_parent [of E i _ w] r w by (metis snd_conv)
  show ?thesis
  proof (cases r)
    case (Err e)
    then show ?thesis using run w1 r True by (intro exI [of _ items] exI [of _ w1]) simp
  next
    case (Panic t)
    then show ?thesis using run r True by simp
  next
    case (Ok props)
    let ?l = "convertFromPortoLabels (mget_str props ''labels'')" and ?st = "convertPodState (mget_str props ''state'')"
    have step: "run_state (step_or id (ret ?l) (\<lambda>(labels, annotations).
        let st = ?st in if skip_pod f labels st then list_pods E parent f items is
        else step_or id (removePortoPrefix E i) (\<lambda>cid. list_pods E parent f (items @ [\<lparr>pl_Id = cid,
          pl_Metadata = convertPodMetadata labels, pl_State = st,
          pl_CreatedAt = convertValueToTime (mget_str props ''creation_time[raw]''),
          pl_Labels = labels, pl_Annotations = annotations\<rparr>]) is))) w1 = (Ok out, w')"
      using run r True Ok by simp
    obtain la where la: "?l = Ok la" using step by (cases ?l) (simp_all add: run_step_or)
    obtain labels annotations where [simp]: "la = (labels, annotations)" by force
    show ?thesis
    proof (cases "skip_pod f labels ?st")
      case True
      then show ?thesis using step la w1 by (intro exI [of _ items] exI [of _ w1]) (simp add: run_step_or)
    next
      case False
      have pre: "run_state (removePortoPrefix E i) w1 = (remove_prefix parent i, w1)"
        using w1 by (simp add: removePortoPrefix_def)
      obtain cid where cid: "remove_prefix parent i = Ok cid"
        using step la False pre by (cases "remove_prefix parent i") (simp_all add: run_step_or Let_def)
      let ?it = "\<lparr>pl_Id = cid, pl_Metadata = convertPodMetadata labels, pl_State = ?st,
         pl_CreatedAt = convertValueToTime (mget_str props ''creation_time[raw]''), pl_Labels = labels, pl_Annotations = annotations\<rparr>"
      have run1: "run_state (list_pods E parent f (items @ [?it]) is) w1 = (Ok out, w')"
        using step la False pre cid by (simp add: run_step_or Let_def)
      have "pf_State f = None \<or> pf_State f = Some ?st" "labels_match (pf_Labels f) labels"
        "mget labels ''portoshim.pod.id'' \<noteq> None \<or> mget labels ''io.kubernetes.pod.namespace'' \<noteq> None"
        using False by (auto simp: skip_pod_def)
      then have "listed_pod parent f [i] ?it"
        unfolding listed_pod_def using cid \<open>isPod i parent\<close> by (simp add: labels_match_iff)
      then show ?thesis using run1 w1 by blast
    qed
  qed
qed

lemma list_pods_sound:
  "run_state (list_pods E parent f items is) w = (Ok out, w') \<Longrightarrow> w_parent w = Some parent
   \<Longrightarrow> list_all (listed_pod parent f names) items \<Longrightarrow> set is \<subseteq> set names \<Longrightarrow> list_all (listed_pod parent f names) out"
proof (induction "is" arbitrary: items w)
  case (Cons i "is")
  from list_pods_round [OF Cons.prems(1,2)] obtain items1 w1 where
    *: "run_state (list_pods E parent f items1 is) w1 = (Ok out, w')" "w_parent w1 = Some parent"
    "items1 = items \<or> (\<exists>it. items1 = items @ [it] \<and> listed_pod parent f [i] it)" by blast
  have "set [i] \<subseteq> set names" "set is \<subseteq> set names" using Cons.prems(4) by simp_all
  from *(3) have "list_all (listed_pod parent f names) items1"
  proof (elim disjE exE conjE)
    fix it assume "items1 = items @ [it]" "listed_pod parent f [i] it"
    with listed_pod_mono [OF this(2) \<open>set [i] \<subseteq> set names\<close>] Cons.prems(3) show ?thesis by simp
  qed (use Cons.prems(3) in simp)
  from Cons.IH [OF *(1,2) this \<open>set is \<subseteq> set names\<close>] show ?case .
qed simp

text \<open>Asking the plugins for DEL, or removing a namespace.\<close>

definition removes_net :: "event \<Rightarrow> bool" where
  "removes_net ev = (case ev of EvCniRemove i p ls an r \<Rightarrow> True | EvNetNSRemove p r \<Rightarrow> True | _ \<Rightarrow> False)"

lemma removes_net_simps [simp]: "\<not> removes_net (EvDestroy i x)" "\<not> removes_net (EvCreateFromSpec sp vs st r)"
  by (simp_all add: removes_net_def)

section \<open>Properties\<close>

text \<open>
  C2. RunPodSandbox leaves no container behind: whatever the outside answers, either nothing was
  created, or exactly one container was, and if a later step fails Destroy of that very container
  is the last call made, while a successful run destroys nothing.
\<close>

theorem pod_never_orphaned:
  "\<exists>es. w_trace (snd (run_state (RunPodSandbox E tags plugin cfg) w)) = w_trace w @ es
     \<and> guarded (fst (run_state (RunPodSandbox E tags plugin cfg) w)) es"
  using guarded_RunPodSandbox unfolding emits_def by blast

text \<open>
  A pod whose creation fails keeps its network: RunPodSandbox never asks the plugins for DEL and
  never removes a network namespace, also when it has made one and a later step fails.
\<close>

theorem failed_pod_keeps_netns:
  assumes "run_state (RunPodSandbox E tags plugin cfg) w = (v, w')" "w_trace w' = w_trace w @ es"
  shows "\<forall>ev \<in> set es. \<not> removes_net ev"
proof -
  have g: "guarded v es" using emitsD [OF guarded_RunPodSandbox assms(1)] assms(2) by auto
  have q: "quiet ys \<Longrightarrow> list_all (\<lambda>ev. \<not> removes_net ev) ys" for ys
    by (erule list.pred_mono_strong) (simp add: quiet_event_def removes_net_def split: event.splits)
  have f: "finishing i v ys \<Longrightarrow> list_all (\<lambda>ev. \<not> removes_net ev) ys" for i ys
    using q by (auto simp: finishing_def split: res.splits)
  from g consider "quiet es" | a sp vs st r b where "es = a @ EvCreateFromSpec sp vs st r # b" "quiet a"
      "case r of Inl e \<Rightarrow> b = [] \<and> \<not> is_Ok v | Inr u \<Rightarrow> finishing (Name sp) v b"
    unfolding guarded_def by blast
  then have "list_all (\<lambda>ev. \<not> removes_net ev) es"
  proof cases
    case 2
    then show ?thesis using q [of a] f [of "Name sp" b] by (cases r) simp_all
  qed (rule q)
  then show ?thesis by (simp add: list_all_iff)
qed

text \<open>CNI ADD fails after the namespace was made.\<close>

definition failing_cni :: env where
  "failing_cni = base_env\<lparr>cni := base_cni\<lparr>o_CniSetup := (\<lambda>h i p ls an. Inl (ExtError ''no address''))\<rparr>\<rparr>"

lemma run_prepareResources_None [run_simps]: "run_state (prepareResources E tags spec None) w = (Ok spec, w)"
  by (simp add: prepareResources_def)

lemma run_pause_attempt_hit:
  "o_DockerImageStatus (porto E) (w_trace w) (PauseImage (Cfg E)) (Place (Cfg E)) = Inr img
   \<Longrightarrow> run_state (retry (pause_attempt E) d 3 s) w = ((Some img, None),
      w\<lparr>w_trace := w_trace w @ [EvDockerImageStatus (PauseImage (Cfg E)) (Place (Cfg E)) (Inr img)]\<rparr>)"
  by (simp add: pause_attempt_def run_simps numeral_3_eq_3)

lemma run_prepareRoot_made:
  assumes "\<And>h p. o_MkdirAll (os E) h p = Inr ()"
  shows "run_state (prepareRoot E spec vs [] img) w
    = (Ok (spec\<lparr>Root := Some (getRootPath E (toContainerCriID (Name spec)))\<rparr>, vs @ [root_volume E (Name spec) img]),
       w\<lparr>w_trace := w_trace w @ [EvMkdirAll (getRootPath E (toContainerCriID (Name spec))) (Inr ())]\<rparr>)"
  using assms by (simp add: prepareRoot_def prepareDirs_def run_simps Let_def)

lemma run_prepareCommand_absolute:
  "run_state (prepareCommand E spec [] [] [CHR ''/'' # c] False) w
    = (Ok (spec\<lparr>CommandArgv := Some (case wrapCmdWithLogShim [CHR ''/'' # c] of Ok v \<Rightarrow> v | _ \<Rightarrow> [])\<rparr>), w)"
  by (simp add: prepareCommand_def wrapCmdWithLogShim_def run_simps Let_def)

lemma run_preparePodNetwork_refused:
  assumes "\<And>h opts. o_CniLoad (cni E) h opts = Inr ()" "\<And>h. o_NewNetNS (cni E) h (NetnsDir (Cfg E)) = Inr np"
    "\<And>h i p ls an. o_CniSetup (cni E) h i p ls an = Inl e" "use_netns E" "w_parent w = Some []"
    "pc_NetworkMode cfg = Some NS_POD"
  shows "\<exists>w1. run_state (preparePodNetwork E True spec cfg) w = (Err e, w1)
    \<and> EvNewNetNS (NetnsDir (Cfg E)) (Inr np) \<in> set (w_trace w1)"
  using assms by (simp add: preparePodNetwork_def pod_netns_path_def removePortoPrefix_def remove_prefix_def run_simps)

lemma failing_setup_run:
  fixes E :: env
  assumes "\<And>h n p. o_DockerImageStatus (porto E) h n p = Inr img" "ConfigCmd img = [CHR ''/'' # c]"
    "\<And>h p. o_MkdirAll (os E) h p = Inr ()" "\<And>h s v st. o_CreateFromSpec (porto E) h s v st = Inr ()"
    "\<And>h opts. o_CniLoad (cni E) h opts = Inr ()" "\<And>h. o_NewNetNS (cni E) h (NetnsDir (Cfg E)) = Inr np"
    "\<And>h i p ls an. o_CniSetup (cni E) h i p ls an = Inl e0" "use_netns E"
    "w_parent w = Some []" "pc_NetworkMode cfg = Some NS_POD" "pc_Resources cfg = None"
  shows "\<exists>e w'. run_state (RunPodSandbox E tags True cfg) w = (Err e, w')
     \<and> EvNewNetNS (NetnsDir (Cfg E)) (Inr np) \<in> set (w_trace w')"
proof -
  let ?n = "pm_Name (pc_Metadata cfg)"
  let ?i = "create_id ?n (o_Intn (os E) (w_trace w) 65536)"
  obtain w1 where w1: "run_state (createID E ?n) w = (?i, w1)" "w_parent w1 = Some []"
    using assms(9) by (simp add: createID_def run_simps)
  have p1: "run_state (addPortoPrefix E ?i) w1 = (?i, w1)"
    using w1(2) by (simp add: addPortoPrefix_def run_simps add_prefix_def)
  let ?s1 = "(new_spec ?i)\<lparr>Capabilities := Some modCaps\<rparr>"
  let ?s2 = "preparePodLabels E ?s1 cfg"
  let ?rp = "getRootPath E (toContainerCriID (Name ?s2))"
  let ?w3 = "w1\<lparr>w_trace := (w_trace w1 @ [EvDockerImageStatus (PauseImage (Cfg E)) (Place (Cfg E)) (Inr img)])
     @ [EvMkdirAll ?rp (Inr ())]\<rparr>"
  let ?w4 = "?w3\<lparr>w_trace := w_trace ?w3 @ [EvCreateFromSpec (?s2\<lparr>Root := Some ?rp\<rparr>)
     [root_volume E (Name ?s2) (PauseImage (Cfg E))] False (Inr ())]\<rparr>"
  let ?s5 = "prepareEnv (new_spec ?i) [] img"
  let ?s6 = "?s5\<lparr>CommandArgv := Some (case wrapCmdWithLogShim [CHR ''/'' # c] of Ok v \<Rightarrow> v | _ \<Rightarrow> [])\<rparr>"
  have "w_parent ?w4 = Some []" using w1(2) by simp
  from run_preparePodNetwork_refused [OF assms(5,6,7,8) this assms(10), of ?s6]
  obtain w5 where w5: "run_state (preparePodNetwork E True ?s6 cfg) ?w4 = (Err e0, w5)"
    "EvNewNetNS (NetnsDir (Cfg E)) (Inr np) \<in> set (w_trace w5)" by blast
  have r6: "run_state (prepareCommand E ?s5 [] [] [CHR ''/'' # c] False) ?w4 = (Ok ?s6, ?w4)"
    by (rule run_prepareCommand_absolute)
  have "run_state (RunPodSandbox E tags True cfg) w
      = (Err (FmtV ''RunPodSandbox'' e0), w5\<lparr>w_trace := w_trace w5 @ [EvDestroy ?i (o_Destroy (porto E) (w_trace w5) ?i)]\<rparr>)"
    unfolding RunPodSandbox_def
    using w5(1) r6 assms(2,11)
    by (simp add: w1(1) p1 run_pause_attempt_hit [OF assms(1)] run_prepareRoot_made [OF assms(3)]
        run_step_or run_call_or run_step_or_destroy assms(4) run_prepareResources_None prepare_image_env_def config_cmd_def Let_def
        CreateFromSpec_def run_ask)
  with w5(2) show ?thesis by simp
qed

lemma failing_cni_run:
  "\<exists>e w'. run_state (RunPodSandbox failing_cni (\<lambda>f. None) True demo_pod) base_world = (Err e, w')
     \<and> EvNewNetNS ''/var/run/netns'' (Inr ''/var/run/netns/cni-1'') \<in> set (w_trace w')"
proof -
  have d: "NetnsDir (Cfg failing_cni) = ''/var/run/netns''" by (simp add: failing_cni_def base_defs)
  have "\<exists>e w'. run_state (RunPodSandbox failing_cni (\<lambda>f. None) True demo_pod) base_world = (Err e, w')
     \<and> EvNewNetNS (NetnsDir (Cfg failing_cni)) (Inr ''/var/run/netns/cni-1'') \<in> set (w_trace w')"
    by (rule failing_setup_run [where img = base_image and c = "''pause''"]; simp add: failing_cni_def base_defs demo_pod_def use_netns_def)
  then show ?thesis unfolding d .
qed

theorem failed_pod_keeps_netns_witness:
  "\<exists>e w'. run_state (RunPodSandbox failing_cni (\<lambda>f. None) True demo_pod) base_world = (Err e, w')
     \<and> EvNewNetNS ''/var/run/netns'' (Inr ''/var/run/netns/cni-1'') \<in> set (w_trace w')
     \<and> (\<forall>ev \<in> set (w_trace w'). \<not> removes_net ev)"
proof -
  obtain e w' where r: "run_state (RunPodSandbox failing_cni (\<lambda>f. None) True demo_pod) base_world = (Err e, w')"
    "EvNewNetNS ''/var/run/netns'' (Inr ''/var/run/netns/cni-1'') \<in> set (w_trace w')"
    using failing_cni_run by blast
  have "w_trace w' = w_trace base_world @ w_trace w'" by (simp add: base_world_def)
  from failed_pod_keeps_netns [OF r(1) this] r show ?thesis by blast
qed

text \<open>
  C5. Removing a pod destroys its container only after it was stopped and, where Porto reports a
  network namespace for it, only after the plugins' DEL and the removal of the namespace succeeded;
  the directory goes last. A call that succeeds without destroying found no such container.
\<close>

theorem pod_removal_order:
  "\<exists>es. w_trace (snd (run_state (RemovePodSandbox E plugin i) w)) = w_trace w @ es
     \<and> pod_removal E i (fst (run_state (RemovePodSandbox E plugin i) w)) es"
  using emits_RemovePodSandbox unfolding emits_def by blast

text \<open>
  Removing a pod again is harmless: when Porto does not have the container any more the call
  succeeds and asks nothing but the one question.
\<close>

theorem pod_removal_idempotent:
  assumes "w_parent w = Some parent" "isPod i parent"
    and "o_GetProperty (porto E) (w_trace w) (add_prefix parent i) ''net'' = Inl e"
    and "errors_As_PortoError e = Some EError_ContainerDoesNotExist"
  shows "run_state (RemovePodSandbox E plugin i) w
    = (Ok (), w\<lparr>w_trace := w_trace w @ [EvGetProperty (add_prefix parent i) ''net'' (Inl e)]\<rparr>)"
  using assms by (simp add: RemovePodSandbox_def remove_pod_def addPortoPrefix_def run_simps)

theorem pod_removal_idempotent_witness:
  "run_state (RemovePodSandbox base_env True ''pod-0001'') base_world
    = (Ok (), base_world\<lparr>w_trace := w_trace base_world @ [EvGetProperty (add_prefix [] ''pod-0001'') ''net'' (Inl no_container)]\<rparr>)"
proof (rule pod_removal_idempotent)
  show "isPod ''pod-0001'' []" by code_simp
qed (simp_all add: base_defs)

text \<open>
  Stopping a pod sends SIGTERM exactly when Porto reports the state "running"; in any other
  state, and when the state cannot be read, it succeeds without doing anything.
\<close>

theorem stop_pod_exact:
  fixes E :: env
  assumes "w_parent w = Some parent" "isPod i parent"
  defines "p \<equiv> add_prefix parent i"
  defines "st \<equiv> o_GetProperty (porto E) (w_trace w) p ''state''"
  defines "h \<equiv> w_trace w @ [EvGetProperty p ''state'' st]"
  shows "run_state (StopPodSandbox E i) w =
    (if st = Inr ''running''
     then (case o_Kill (porto E) h p 15 of Inl e \<Rightarrow> Err (FmtV ''StopPodSandbox'' e) | Inr u \<Rightarrow> Ok (),
           w\<lparr>w_trace := h @ [EvKill p 15 (o_Kill (porto E) h p 15)]\<rparr>)
     else (Ok (), w\<lparr>w_trace := h\<rparr>))"
  using assms(1,2)
  by (auto simp: StopPodSandbox_def addPortoPrefix_def run_simps Let_def p_def st_def h_def split: sum.splits)

theorem stop_pod_exact_witness:
  "fst (run_state (StopPodSandbox base_env ''pod-0001'') base_world) = Ok ()"
proof -
  have "isPod ''pod-0001'' []" by code_simp
  moreover have "w_parent base_world = Some []" by (simp add: base_world_def)
  ultimately show ?thesis
    using stop_pod_exact [of base_world "[]" "''pod-0001''" base_env] by (simp add: base_defs)
qed

text \<open>
  C31. Every pod listed passes the filter on state and labels, is a container of Porto's list that
  classifies as a pod, under its identifier without the parent prefix, and carries the marks of
  Kubernetes.
\<close>

theorem listed_pods_sound:
  assumes "run_state (ListPodSandbox E f) w = (Ok out, w')" "w_parent w = Some parent"
  shows "\<exists>names. o_ListContainers (porto E) (w_trace w) (pf_Id f) = Inr names
    \<and> (\<forall>it \<in> set out. listed_pod parent f names it)"
proof -
  obtain names where n: "o_ListContainers (porto E) (w_trace w) (pf_Id f) = Inr names"
    using assms(1) by (auto simp: ListPodSandbox_def run_simps split: sum.splits)
  let ?w = "w\<lparr>w_trace := w_trace w @ [EvListContainers (pf_Id f) (Inr names)]\<rparr>"
  have "run_state (list_pods E parent f [] names) ?w = (Ok out, w')"
    using assms n by (simp add: ListPodSandbox_def run_simps)
  from list_pods_sound [OF this, of names] n assms(2) show ?thesis by (simp add: list_all_iff)
qed

text \<open>Porto has one running container at the level of pods, with the labels of a pod.\<close>

definition stored_labels :: "(string, string) gomap \<Rightarrow> string" where
  "stored_labels L = render_labels (map (\<lambda>e. (e, 0, 1)) (mset_at ''INFRA.engine'' ''k8s'' (convertToPortoLabels L [])))"

lemma stored_labels_read:
  assumes "wf_map L"
  shows "\<exists>L' A'. convertFromPortoLabels (stored_labels L) = Ok (L', A') \<and> map_of L' = map_of L"
proof -
  have "mset (map fst (map (\<lambda>e. (e, 0, 1)) (mset_at ''INFRA.engine'' ''k8s'' (convertToPortoLabels L []))) :: (string \<times> string) list)
      = mset (mset_at ''INFRA.engine'' ''k8s'' (convertToPortoLabels L []))" by (simp add: comp_def)
  from labels_roundtrip_lemma [OF assms _ this] show ?thesis unfolding stored_labels_def by auto
qed

definition listing_env :: env where
  "listing_env = base_env\<lparr>porto := base_porto\<lparr>o_ListContainers := (\<lambda>h m. Inr [''pod-0001'']),
     o_Get := (\<lambda>h is ns. Inr [(''pod-0001'',
       [\<lparr>Variable = ''labels'', ValError = None, ValErrorMsg = [],
         Val = stored_labels [(''portoshim.pod.id'', ''pod-0001''), (''app'', ''web'')]\<rparr>,
        \<lparr>Variable = ''state'', ValError = None, ValErrorMsg = [], Val = ''running''\<rparr>])])\<rparr>\<rparr>"

definition web_filter :: PodFilter where
  "web_filter = \<lparr>pf_Id = [], pf_State = Some SANDBOX_READY, pf_Labels = [(''app'', ''web'')]\<rparr>"

lemma listing_run:
  "\<exists>it w'. run_state (ListPodSandbox listing_env web_filter) base_world = (Ok [it], w') \<and> pl_Id it = ''pod-0001''"
proof -
  obtain L' A' where l: "convertFromPortoLabels (stored_labels [(''portoshim.pod.id'', ''pod-0001''), (''app'', ''web'')]) = Ok (L', A')"
    "map_of L' = map_of [(''portoshim.pod.id'', ''pod-0001''), (''app'', ''web'')]"
    using stored_labels_read [of "[(''portoshim.pod.id'', ''pod-0001''), (''app'', ''web'')]"] by auto
  have "\<not> skip_pod web_filter L' SANDBOX_READY"
    by (simp add: skip_pod_def web_filter_def l(2))
  moreover have "isPod ''pod-0001'' []" by code_simp
  ultimately show ?thesis
    by (simp add: ListPodSandbox_def listing_env_def base_defs run_simps getProperties_def mget_str_def
        convertPodState_def podStateMap_def removePortoPrefix_def remove_prefix_def Let_def l(1))
qed

theorem listed_pods_sound_witness:
  "\<exists>it names. listed_pod [] web_filter names it \<and> pl_Id it = ''pod-0001'' \<and> names = [''pod-0001'']"
proof -
  obtain it w' where r: "run_state (ListPodSandbox listing_env web_filter) base_world = (Ok [it], w')" "pl_Id it = ''pod-0001''"
    using listing_run by blast
  have "w_parent base_world = Some []" by (simp add: base_world_def)
  from listed_pods_sound [OF r(1) this] obtain names where
    n: "o_ListContainers (porto listing_env) (w_trace base_world) (pf_Id web_filter) = Inr names"
    "listed_pod [] web_filter names it" by auto
  from n(1) have "names = [''pod-0001'']" by (simp add: listing_env_def)
  with n(2) r(2) show ?thesis by blast
qed

end
