(* ===== verification/CDI.thy ===== *)
theory CDI
  imports Cri Porto_Id Json
begin

text \<open>
  The Container Device Interface (cdi.go): the devices a container requests through its
  annotations, the spec files that describe them, the container edits they come to, the mounts
  linked into the created container through the symlinks of its root, and the hooks run between
  creating and starting it.
\<close>

section \<open>Data\<close>

text \<open>The specification types of the CDI package, with the fields the source reads.\<close>

record CDIDeviceNode =
  dn_Path :: string
  dn_HostPath :: string
  dn_Permissions :: string

record CDIMount =
  sm_HostPath :: string
  sm_ContainerPath :: string
  sm_Options :: "string list"

record CDIHook =
  HookName :: string
  h_Path :: string
  h_Args :: "string list"
  h_Env :: "string list"
  h_Timeout :: "int option"

record ContainerEdits =
  ce_Env :: "string list"
  ce_DeviceNodes :: "CDIDeviceNode list"
  ce_Mounts :: "CDIMount list"
  ce_Hooks :: "CDIHook list"

record CDIDevice =
  dev_Name :: string
  dev_Edits :: ContainerEdits

record cdiSpec =
  Kind :: string
  sp_Devices :: "CDIDevice list"
  sp_Edits :: ContainerEdits
  sp_path :: string

record cdiEdits =
  e_Mounts :: "Mount list"
  e_Devices :: "CriDevice list"
  e_Envs :: "(string \<times> string) list"
  e_Hooks :: "CDIHook list"

definition no_edits :: cdiEdits where
  "no_edits = \<lparr>e_Mounts = [], e_Devices = [], e_Envs = [], e_Hooks = []\<rparr>"

section \<open>Requested devices\<close>

definition cdiAnnotationPrefix :: string where
  "cdiAnnotationPrefix = ''cdi.k8s.io/''"

definition cdiRequestedDevices :: "(string, string) gomap \<Rightarrow> string list" where
  "cdiRequestedDevices annotations =
     (let keys = sort_Strings (filter (\<lambda>k. HasPrefix k cdiAnnotationPrefix) (map fst annotations))
      in concat (map (\<lambda>k. filter (\<lambda>d. d \<noteq> []) (map TrimSpace (Split (CHR '','') (mget_str annotations k)))) keys))"

section \<open>Spec files\<close>

fun load_files :: "(string \<Rightarrow> goerr + string) \<Rightarrow> (string \<Rightarrow> goerr + cdiSpec) \<Rightarrow> string
  \<Rightarrow> (string \<times> bool) list \<Rightarrow> (string, cdiSpec) gomap \<Rightarrow> (string, cdiSpec) gomap res" where
  "load_files readFile yaml dir [] specs = Ok specs"
| "load_files readFile yaml dir ((name, isDir) # fs) specs =
     (if isDir \<or> Ext name \<noteq> ''.yaml'' \<and> Ext name \<noteq> ''.json''
      then load_files readFile yaml dir fs specs
      else let path = path_Join [dir, name] in
        case readFile path of
          Inl e \<Rightarrow> Err e
        | Inr data \<Rightarrow>
            (case yaml data of
               Inl e \<Rightarrow> Err (FmtV ''CDI spec: '' e)
             | Inr spec \<Rightarrow>
                 if Kind spec = [] then Err (Errorf ''CDI spec: no kind'' [path])
                 else load_files readFile yaml dir fs
                        (mset_at (Kind spec) (spec\<lparr>sp_path := path\<rparr>) specs)))"

fun load_dirs :: "(string \<Rightarrow> goerr + (string \<times> bool) list) \<Rightarrow> (string \<Rightarrow> goerr + string)
  \<Rightarrow> (string \<Rightarrow> goerr + cdiSpec) \<Rightarrow> string list \<Rightarrow> (string, cdiSpec) gomap \<Rightarrow> (string, cdiSpec) gomap res" where
  "load_dirs readDir readFile yaml [] specs = Ok specs"
| "load_dirs readDir readFile yaml (dir # dirs) specs =
     (case readDir dir of
        Inl e \<Rightarrow> if is_OsNotExist e then load_dirs readDir readFile yaml dirs specs else Err e
      | Inr fs \<Rightarrow> bind_res (load_files readFile yaml dir fs specs) (load_dirs readDir readFile yaml dirs))"

text \<open>The files are read while nothing else happens: one look at the file system.\<close>

definition loadCDISpecs :: "env \<Rightarrow> (string \<Rightarrow> goerr + cdiSpec) \<Rightarrow> string list \<Rightarrow> (string, cdiSpec) gomap res prog" where
  "loadCDISpecs E yaml dirs = look (\<lambda>h. load_dirs (o_ReadDir (os E) h) (o_ReadFile (os E) h) yaml dirs [])"

section \<open>Container edits\<close>

definition env_edits :: "string list \<Rightarrow> (string \<times> string) list" where
  "env_edits es = List.map_filter (\<lambda>e. case SplitN2 (CHR ''='') e of [k, v] \<Rightarrow> Some (k, v) | _ \<Rightarrow> None) es"

definition device_edit :: "CDIDeviceNode \<Rightarrow> CriDevice" where
  "device_edit d =
     \<lparr>d_ContainerPath = dn_Path d,
      d_HostPath = (if dn_HostPath d = [] then dn_Path d else dn_HostPath d),
      d_Permissions = (if dn_Permissions d = [] then ''rwm'' else dn_Permissions d)\<rparr>"

definition mount_edit :: "CDIMount \<Rightarrow> Mount" where
  "mount_edit m =
     \<lparr>ContainerPath = sm_ContainerPath m, HostPath = sm_HostPath m,
      Readonly = list_ex (\<lambda>x. x = ''ro'') (sm_Options m)\<rparr>"

definition apply_edits :: "cdiEdits \<Rightarrow> ContainerEdits \<Rightarrow> cdiEdits" where
  "apply_edits e ed =
     \<lparr>e_Mounts = e_Mounts e @ map mount_edit (ce_Mounts ed),
      e_Devices = e_Devices e @ map device_edit (ce_DeviceNodes ed),
      e_Envs = e_Envs e @ env_edits (ce_Env ed),
      e_Hooks = e_Hooks e @ ce_Hooks ed\<rparr>"

text \<open>The loop of \<open>resolveCDIDevices\<close>; \<open>applied\<close> and \<open>seen\<close> are its two sets.\<close>

fun resolve_devices :: "(string, cdiSpec) gomap \<Rightarrow> string list \<Rightarrow> string list \<Rightarrow> cdiEdits
  \<Rightarrow> string list \<Rightarrow> cdiEdits res" where
  "resolve_devices specs applied seen edits [] = Ok edits"
| "resolve_devices specs applied seen edits (q # qs) =
     (if q \<in> set seen then resolve_devices specs applied seen edits qs
      else case SplitN2 (CHR ''='') q of
        [kind, name] \<Rightarrow>
          (case mget specs kind of
             None \<Rightarrow> Err (Errorf ''unresolvable CDI device: no spec for kind'' [q, kind])
           | Some spec \<Rightarrow>
               (case find (\<lambda>d. dev_Name d = name) (sp_Devices spec) of
                  None \<Rightarrow> Err (Errorf ''unresolvable CDI device: not in spec'' [q, sp_path spec])
                | Some device \<Rightarrow>
                    if Kind spec \<in> set applied
                    then resolve_devices specs applied (q # seen) (apply_edits edits (dev_Edits device)) qs
                    else resolve_devices specs (Kind spec # applied) (q # seen)
                           (apply_edits (apply_edits edits (sp_Edits spec)) (dev_Edits device)) qs))
      | _ \<Rightarrow> Err (Errorf ''invalid CDI device name'' [q]))"

definition resolveCDIDevices :: "env \<Rightarrow> (string \<Rightarrow> goerr + cdiSpec) \<Rightarrow> string list \<Rightarrow> string list \<Rightarrow> cdiEdits res prog" where
  "resolveCDIDevices E yaml requested dirs =
     (if requested = [] then ret (Ok no_edits)
      else step_or id (loadCDISpecs E yaml dirs) (\<lambda>specs. ret (resolve_devices specs [] [] no_edits requested)))"

section \<open>Paths in the container root\<close>

function resolve_loop :: "(string \<Rightarrow> goerr + FileInfo) \<Rightarrow> (string \<Rightarrow> goerr + string) \<Rightarrow> string \<Rightarrow> string
  \<Rightarrow> nat \<Rightarrow> string \<Rightarrow> string list \<Rightarrow> string res" where
  "resolve_loop lstat readlink root path symlinks current [] = Ok current"
| "resolve_loop lstat readlink root path symlinks current (part # parts) =
     (if part = [] \<or> part = ''.'' then resolve_loop lstat readlink root path symlinks current parts
      else if part = ''..'' then resolve_loop lstat readlink root path symlinks (Dir current) parts
      else let next = path_Join [current, part] in
        case lstat (path_Join [root, next]) of
          Inl e \<Rightarrow> resolve_loop lstat readlink root path symlinks next parts
        | Inr fi \<Rightarrow>
            if \<not> ModeSymlink fi then resolve_loop lstat readlink root path symlinks next parts
            else if symlinks + 1 > 40 then Err (Errorf ''too many symlinks'' [path])
            else case readlink (path_Join [root, next]) of
                   Inl e \<Rightarrow> Err e
                 | Inr dest \<Rightarrow>
                     resolve_loop lstat readlink root path (symlinks + 1)
                       (if IsAbs dest then ''/'' else current) (Split (CHR ''/'') dest @ parts))"
  by pat_completeness auto
termination
  by (relation "measures [\<lambda>(lstat, readlink, root, path, symlinks, current, parts). 40 - symlinks,
                          \<lambda>(lstat, readlink, root, path, symlinks, current, parts). length parts]") auto

definition resolveInRoot :: "env \<Rightarrow> string \<Rightarrow> string \<Rightarrow> string res prog" where
  "resolveInRoot E root path =
     look (\<lambda>h. resolve_loop (o_Lstat (os E) h) (o_Readlink (os E) h) root path 0 ''/'' (Split (CHR ''/'') path))"

definition cdiMountTarget :: "env \<Rightarrow> string \<Rightarrow> string \<Rightarrow> string res prog" where
  "cdiMountTarget E root path0 =
     (let path = Clean path0 in
      step_or id (resolveInRoot E root (Dir path)) (\<lambda>dir.
        let target = path_Join [dir, Base path] in do {
          r \<leftarrow> Lstat E (path_Join [root, target]);
          case r of
            Inl e \<Rightarrow> ret (Ok target)
          | Inr fi \<Rightarrow> ret (Ok (if ModeSymlink fi then [] else target))
        }))"

section \<open>Linking the mounts\<close>

definition FormatBool :: "bool \<Rightarrow> string" where
  "FormatBool b = (if b then ''true'' else ''false'')"

fun link_mounts :: "env \<Rightarrow> string \<Rightarrow> string \<Rightarrow> string list \<Rightarrow> Mount list \<Rightarrow> unit res prog" where
  "link_mounts E i root linked [] = ret (Ok ())"
| "link_mounts E i root linked (m # ms) =
     step_or (FmtV ''CDI mount: '') (cdiMountTarget E root (ContainerPath m)) (\<lambda>target.
       if target = [] then link_mounts E i root linked ms
       else if target \<in> set linked then link_mounts E i root linked ms
       else call_or (FmtV ''CDI mount: '')
         (CreateVolume E [] [(''backend'', ''bind''), (''storage'', HostPath m), (''read_only'', FormatBool (Readonly m))])
         (\<lambda>vol. do {
            r \<leftarrow> LinkVolumeTarget E vol i target False (Readonly m);
            u \<leftarrow> UnlinkVolume E vol [];
            case r of
              Inl e \<Rightarrow> ret (Err (FmtV ''CDI mount: '' e))
            | Inr x \<Rightarrow> link_mounts E i root (target # linked) ms
          }))"

definition linkCDIMounts :: "env \<Rightarrow> string \<Rightarrow> string \<Rightarrow> Mount list \<Rightarrow> unit res prog" where
  "linkCDIMounts E i root mounts = link_mounts E i root [] mounts"

section \<open>Hooks\<close>

definition cdiHookStages :: "string list" where
  "cdiHookStages = [''prestart'', ''createRuntime'', ''createContainer'']"

text \<open>A Go \<open>time.Duration\<close> counts nanoseconds in 64 bits; the product wraps.\<close>

definition cdiHookDefaultTimeout :: i64 where
  "cdiHookDefaultTimeout = 60000000000"

definition hook_timeout :: "CDIHook \<Rightarrow> i64" where
  "hook_timeout h = (case h_Timeout h of None \<Rightarrow> cdiHookDefaultTimeout | Some t \<Rightarrow> of_int t * 1000000000)"

definition runCDIHook :: "env \<Rightarrow> CDIHook \<Rightarrow> string \<Rightarrow> unit res prog" where
  "runCDIHook E h state_json =
     call_or (FmtV [])
       (RunHook E (h_Path h) (if h_Args h = [] then [h_Path h] else h_Args h) (h_Env h)
          (sint (hook_timeout h)) state_json)
       (\<lambda>u. ret (Ok ()))"

fun run_stage :: "env \<Rightarrow> string \<Rightarrow> string \<Rightarrow> CDIHook list \<Rightarrow> unit res prog" where
  "run_stage E stage state_json [] = ret (Ok ())"
| "run_stage E stage state_json (h # hs) =
     (if HookName h \<noteq> stage then run_stage E stage state_json hs
      else step_or (FmtV ''CDI hook: '') (runCDIHook E h state_json)
             (\<lambda>u. run_stage E stage state_json hs))"

fun run_stages :: "env \<Rightarrow> string list \<Rightarrow> string \<Rightarrow> CDIHook list \<Rightarrow> unit res prog" where
  "run_stages E [] state_json hooks = ret (Ok ())"
| "run_stages E (st # sts) state_json hooks =
     step_or id (run_stage E st state_json hooks) (\<lambda>u. run_stages E sts state_json hooks)"

definition hook_config :: "string \<Rightarrow> string" where
  "hook_config rootPath = json_object
     [(''ociVersion'', json_string ''1.2.0''),
      (''process'', json_object [(''cwd'', json_string ''/'')]),
      (''root'', json_object [(''path'', json_string rootPath)])]"

definition hook_state :: "string \<Rightarrow> string \<Rightarrow> string" where
  "hook_state i bundle = json_object
     [(''bundle'', json_string bundle), (''id'', json_string i), (''ociVersion'', json_string ''1.2.0''),
      (''pid'', ''0''), (''status'', json_string ''creating'')]"

text \<open>\<open>defer os.RemoveAll(bundle)\<close> runs after everything that follows the \<open>MkdirTemp\<close>.\<close>

definition runCDIHooks :: "env \<Rightarrow> string \<Rightarrow> string \<Rightarrow> CDIHook list \<Rightarrow> unit res prog" where
  "runCDIHooks E i rootPath hooks =
     (if hooks = [] then ret (Ok ())
      else call_or id (MkdirTemp E ''portoshim-cdi-'') (\<lambda>bundle. do {
        r \<leftarrow> call_or id (WriteFile E (path_Join [bundle, ''config.json'']) (hook_config rootPath))
               (\<lambda>u. run_stages E cdiHookStages (hook_state i bundle) hooks);
        x \<leftarrow> RemoveAll E bundle;
        ret r
      }))"

section \<open>Lemmas: requested devices and specs\<close>

lemma cdiRequestedDevices_iff:
  "d \<in> set (cdiRequestedDevices a) \<longleftrightarrow>
     (\<exists>k \<in> fst ` set a. HasPrefix k cdiAnnotationPrefix \<and> d \<noteq> []
        \<and> d \<in> TrimSpace ` set (Split (CHR '','') (mget_str a k)))"
  by (auto simp: cdiRequestedDevices_def Let_def)

text \<open>The specs the files hold, in the order they are read.\<close>

definition file_specs :: "(string \<Rightarrow> goerr + string) \<Rightarrow> (string \<Rightarrow> goerr + cdiSpec) \<Rightarrow> string
  \<Rightarrow> (string \<times> bool) list \<Rightarrow> cdiSpec list" where
  "file_specs readFile yaml dir fs = List.map_filter (\<lambda>(name, isDir).
     if isDir \<or> Ext name \<noteq> ''.yaml'' \<and> Ext name \<noteq> ''.json'' then None
     else case readFile (path_Join [dir, name]) of
       Inl e \<Rightarrow> None
     | Inr data \<Rightarrow> (case yaml data of Inl e \<Rightarrow> None | Inr sp \<Rightarrow> Some (sp\<lparr>sp_path := path_Join [dir, name]\<rparr>))) fs"

definition dir_specs :: "(string \<Rightarrow> goerr + (string \<times> bool) list) \<Rightarrow> (string \<Rightarrow> goerr + string)
  \<Rightarrow> (string \<Rightarrow> goerr + cdiSpec) \<Rightarrow> string list \<Rightarrow> cdiSpec list" where
  "dir_specs readDir readFile yaml dirs =
     concat (map (\<lambda>dir. case readDir dir of Inl e \<Rightarrow> [] | Inr fs \<Rightarrow> file_specs readFile yaml dir fs) dirs)"

definition last_spec :: "string \<Rightarrow> cdiSpec list \<Rightarrow> cdiSpec option" where
  "last_spec k ss = find (\<lambda>s. Kind s = k) (rev ss)"

lemma find_append: "find P (xs @ ys) = (case find P xs of None \<Rightarrow> find P ys | Some x \<Rightarrow> Some x)"
  by (induction xs) auto

lemma last_spec_append:
  "last_spec k (ss @ ts) = (case last_spec k ts of None \<Rightarrow> last_spec k ss | Some s \<Rightarrow> Some s)"
  by (simp add: last_spec_def find_append split: option.split)

lemma last_spec_Cons:
  "last_spec k (s # ss) = (case last_spec k ss of None \<Rightarrow> if Kind s = k then Some s else None | Some t \<Rightarrow> Some t)"
  by (simp add: last_spec_def find_append split: option.split)

lemma last_spec_Nil [simp]: "last_spec k [] = None"
  by (simp add: last_spec_def)

lemma load_files_lookup:
  "load_files readFile yaml dir fs specs0 = Ok specs \<Longrightarrow>
   mget specs k = (case last_spec k (file_specs readFile yaml dir fs) of None \<Rightarrow> mget specs0 k | Some s \<Rightarrow> Some s)"
proof (induction readFile yaml dir fs specs0 rule: load_files.induct)
  case (1 readFile yaml dir specs)
  then show ?case by (simp add: file_specs_def List.map_filter_simps)
next
  case (2 readFile yaml dir name isDir fs specs0)
  show ?case
  proof (cases "isDir \<or> Ext name \<noteq> ''.yaml'' \<and> Ext name \<noteq> ''.json''")
    case True
    with 2 show ?thesis by (simp add: file_specs_def List.map_filter_simps)
  next
    case False
    with "2.prems" obtain data sp where sp: "readFile (path_Join [dir, name]) = Inr data" "yaml data = Inr sp"
      and k: "Kind sp \<noteq> []"
      by (auto simp: Let_def split: sum.splits if_splits)
    let ?sp = "sp\<lparr>sp_path := path_Join [dir, name]\<rparr>"
    have fs: "file_specs readFile yaml dir ((name, isDir) # fs) = ?sp # file_specs readFile yaml dir fs"
      using False sp by (simp add: file_specs_def List.map_filter_simps)
    have "load_files readFile yaml dir fs (mset_at (Kind sp) ?sp specs0) = Ok specs"
      using "2.prems" False sp k by (simp add: Let_def)
    from "2.IH"(2) [OF False refl sp k this] show ?thesis
      by (auto simp: fs last_spec_Cons update_conv' split: option.splits)
  qed
qed

lemma load_dirs_lookup:
  "load_dirs readDir readFile yaml dirs specs0 = Ok specs \<Longrightarrow>
   mget specs k = (case last_spec k (dir_specs readDir readFile yaml dirs) of None \<Rightarrow> mget specs0 k | Some s \<Rightarrow> Some s)"
proof (induction dirs arbitrary: specs0)
  case Nil
  then show ?case by (simp add: dir_specs_def)
next
  case (Cons dir dirs)
  show ?case
  proof (cases "readDir dir")
    case (Inl e)
    with Cons.prems have "load_dirs readDir readFile yaml dirs specs0 = Ok specs" by (simp split: if_splits)
    from Cons.IH [OF this] Inl show ?thesis by (simp add: dir_specs_def)
  next
    case (Inr fs)
    with Cons.prems obtain s1 where "load_files readFile yaml dir fs specs0 = Ok s1"
      and s1: "load_dirs readDir readFile yaml dirs s1 = Ok specs" by auto
    from load_files_lookup [OF this(1)] Cons.IH [OF s1] Inr show ?thesis
      by (simp add: dir_specs_def last_spec_append split: option.splits)
  qed
qed

section \<open>Lemmas: edits of the requested devices\<close>

definition device_of :: "(string, cdiSpec) gomap \<Rightarrow> string \<Rightarrow> (cdiSpec \<times> CDIDevice) option" where
  "device_of specs q = (case SplitN2 (CHR ''='') q of
     [kind, name] \<Rightarrow> (case mget specs kind of None \<Rightarrow> None
       | Some spec \<Rightarrow> map_option (Pair spec) (find (\<lambda>d. dev_Name d = name) (sp_Devices spec)))
   | _ \<Rightarrow> None)"

definition kind_of :: "string \<Rightarrow> string" where
  "kind_of q = hd (SplitN2 (CHR ''='') q)"

definition keyed :: "(string, cdiSpec) gomap \<Rightarrow> bool" where
  "keyed specs \<longleftrightarrow> (\<forall>k s. mget specs k = Some s \<longrightarrow> Kind s = k)"

text \<open>
  What the edits of the requested devices come to: the devices, each at the first place it is
  named, give their edits one after the other, and the edits of a kind come once, right before those
  of its first device.
\<close>

definition first_named :: "string list \<Rightarrow> string list" where
  "first_named qs = rev (remdups (rev qs))"

definition kind_edits :: "(string, cdiSpec) gomap \<Rightarrow> string \<Rightarrow> ContainerEdits" where
  "kind_edits specs k = sp_Edits (the (mget specs k))"

definition device_edits :: "(string, cdiSpec) gomap \<Rightarrow> string \<Rightarrow> ContainerEdits" where
  "device_edits specs q = dev_Edits (snd (the (device_of specs q)))"

definition nth_edits :: "(string, cdiSpec) gomap \<Rightarrow> string list \<Rightarrow> nat \<Rightarrow> ContainerEdits list" where
  "nth_edits specs ds n = (let k = kind_of (ds ! n) in
     (if k \<in> kind_of ` set (take n ds) then [] else [kind_edits specs k]) @ [device_edits specs (ds ! n)])"

definition wanted_edits :: "(string, cdiSpec) gomap \<Rightarrow> string list \<Rightarrow> ContainerEdits list" where
  "wanted_edits specs qs = (let ds = first_named qs in concat (map (nth_edits specs ds) [0..<length ds]))"

lemma first_named_snoc: "first_named (ps @ [q]) = (if q \<in> set ps then first_named ps else first_named ps @ [q])"
  by (simp add: first_named_def)

lemma set_first_named [simp]: "set (first_named qs) = set qs"
  by (simp add: first_named_def)

lemma wanted_edits_Nil [simp]: "wanted_edits specs [] = []"
  by (simp add: wanted_edits_def first_named_def)

lemma wanted_edits_snoc:
  "wanted_edits specs (ps @ [q]) = wanted_edits specs ps @
     (if q \<in> set ps then []
      else (if kind_of q \<in> kind_of ` set ps then [] else [kind_edits specs (kind_of q)]) @ [device_edits specs q])"
proof (cases "q \<in> set ps")
  case False
  let ?ds = "first_named ps"
  have "nth_edits specs (?ds @ [q]) n = nth_edits specs ?ds n" if "n < length ?ds" for n
    using that by (simp add: nth_edits_def nth_append)
  then have "concat (map (nth_edits specs (?ds @ [q])) [0..<length ?ds]) = concat (map (nth_edits specs ?ds) [0..<length ?ds])"
    by (intro arg_cong [where f = concat] map_cong) simp_all
  then show ?thesis
    using False by (simp add: wanted_edits_def first_named_snoc Let_def nth_edits_def [of specs "?ds @ [q]" "length ?ds"])
qed (simp add: wanted_edits_def first_named_snoc)

lemma resolve_devices_step:
  assumes "q \<notin> set seen"
  shows "resolve_devices specs applied seen edits (q # qs) =
    (case device_of specs q of
       None \<Rightarrow> resolve_devices specs applied seen edits [q]
     | Some (spec, device) \<Rightarrow>
         resolve_devices specs (if Kind spec \<in> set applied then applied else Kind spec # applied) (q # seen)
           (apply_edits (if Kind spec \<in> set applied then edits else apply_edits edits (sp_Edits spec))
             (dev_Edits device)) qs)"
  using assms by (auto simp: device_of_def split: list.splits option.splits)

lemma resolve_devices_unknown:
  "q \<notin> set seen \<Longrightarrow> device_of specs q = None \<Longrightarrow> \<exists>e. resolve_devices specs applied seen edits (q # qs) = Err e"
  by (auto simp: device_of_def split: list.splits option.splits)

lemma resolve_devices_ok_iff:
  "(\<exists>e. resolve_devices specs applied seen edits qs = Ok e) \<longleftrightarrow> (\<forall>q \<in> set qs - set seen. device_of specs q \<noteq> None)"
proof (induction qs arbitrary: applied seen edits)
  case (Cons q qs)
  show ?case
  proof (cases "q \<in> set seen")
    case True
    then show ?thesis by (auto simp: Cons.IH)
  next
    case new: False
    show ?thesis
    proof (cases "device_of specs q")
      case None
      then show ?thesis
        using new resolve_devices_unknown [OF new None, of applied edits qs]
        by (fastforce simp del: resolve_devices.simps)
    next
      case (Some sd)
      have "(\<forall>x \<in> set (q # qs) - set seen. device_of specs x \<noteq> None)
          \<longleftrightarrow> (\<forall>x \<in> set qs - set (q # seen). device_of specs x \<noteq> None)"
        using new Some by (auto simp del: not_None_eq)
      moreover obtain spec d where sd: "sd = (spec, d)" by (cases sd)
      have "resolve_devices specs applied seen edits (q # qs)
          = resolve_devices specs (if Kind spec \<in> set applied then applied else Kind spec # applied) (q # seen)
              (apply_edits (if Kind spec \<in> set applied then edits else apply_edits edits (sp_Edits spec)) (dev_Edits d)) qs"
        using resolve_devices_step [OF new, of specs applied edits qs] unfolding Some sd by simp
      ultimately show ?thesis using Cons.IH by simp
    qed
  qed
qed simp

lemma resolve_devices_no_panic: "\<not> is_Panic (resolve_devices specs applied seen edits qs)"
  by (induction specs applied seen edits qs rule: resolve_devices.induct)
    (auto split: list.splits option.splits)

lemma device_of_kind:
  "keyed specs \<Longrightarrow> device_of specs q = Some (spec, d) \<Longrightarrow> Kind spec = kind_of q \<and> mget specs (kind_of q) = Some spec"
  by (auto simp: device_of_def kind_of_def keyed_def split: list.splits option.splits)

lemma resolve_devices_edits:
  assumes "keyed specs" "resolve_devices specs applied seen edits qs = Ok e"
    and "set seen = set ps" "set applied = kind_of ` set ps" "edits = foldl apply_edits no_edits (wanted_edits specs ps)"
  shows "e = foldl apply_edits no_edits (wanted_edits specs (ps @ qs))"
  using assms(2-5)
proof (induction qs arbitrary: applied seen edits ps)
  case (Cons q qs)
  show ?case
  proof (cases "q \<in> set seen")
    case True
    with Cons.prems have "e = foldl apply_edits no_edits (wanted_edits specs ((ps @ [q]) @ qs))"
      by (intro Cons.IH [of applied seen edits "ps @ [q]"]) (auto simp: wanted_edits_snoc)
    then show ?thesis by simp
  next
    case new: False
    have "device_of specs q \<noteq> None"
      using Cons.prems(1) resolve_devices_unknown [OF new, of specs applied edits qs]
      by (auto simp del: resolve_devices.simps not_None_eq)
    then obtain spec d where dev: "device_of specs q = Some (spec, d)" by auto
    from device_of_kind [OF assms(1) dev] have k: "Kind spec = kind_of q" "mget specs (kind_of q) = Some spec" by auto
    have es: "kind_edits specs (kind_of q) = sp_Edits spec" "device_edits specs q = dev_Edits d"
      by (simp_all add: kind_edits_def device_edits_def k dev)
    have "e = foldl apply_edits no_edits (wanted_edits specs ((ps @ [q]) @ qs))"
      using Cons.prems new k es
      by (intro Cons.IH [of "if kind_of q \<in> set applied then applied else kind_of q # applied" "q # seen"
            "apply_edits (if kind_of q \<in> set applied then edits else apply_edits edits (sp_Edits spec)) (dev_Edits d)"])
        (auto simp: resolve_devices_step [OF new] dev wanted_edits_snoc simp del: resolve_devices.simps)
    then show ?thesis by simp
  qed
qed simp

lemma no_edits_parts: "e_Envs no_edits = []" "e_Devices no_edits = []" "e_Mounts no_edits = []" "e_Hooks no_edits = []"
  by (simp_all add: no_edits_def)

lemma edits_parts:
  "e_Envs (foldl apply_edits e bs) = e_Envs e @ concat (map (\<lambda>ed. env_edits (ce_Env ed)) bs)"
  "e_Devices (foldl apply_edits e bs) = e_Devices e @ concat (map (\<lambda>ed. map device_edit (ce_DeviceNodes ed)) bs)"
  "e_Mounts (foldl apply_edits e bs) = e_Mounts e @ concat (map (\<lambda>ed. map mount_edit (ce_Mounts ed)) bs)"
  "e_Hooks (foldl apply_edits e bs) = e_Hooks e @ concat (map ce_Hooks bs)"
  by (induction bs arbitrary: e) (simp_all add: apply_edits_def)

section \<open>Lemmas: paths in the root\<close>

definition is_link :: "(string \<Rightarrow> goerr + FileInfo) \<Rightarrow> string \<Rightarrow> string list \<Rightarrow> bool" where
  "is_link lstat root cs \<longleftrightarrow>
     (case lstat (path_Join [root, abs_path cs]) of Inl e \<Rightarrow> False | Inr fi \<Rightarrow> ModeSymlink fi)"

text \<open>A resolved path: plain components, and no symlink at or above it.\<close>

definition resolved :: "(string \<Rightarrow> goerr + FileInfo) \<Rightarrow> string \<Rightarrow> string list \<Rightarrow> bool" where
  "resolved lstat root cs \<longleftrightarrow>
     list_all plain_comp cs \<and> (\<forall>k. 0 < k \<and> k \<le> length cs \<longrightarrow> \<not> is_link lstat root (take k cs))"

lemma resolved_Nil [simp]: "resolved lstat root []"
  by (simp add: resolved_def)

lemma resolved_butlast: "resolved lstat root cs \<Longrightarrow> resolved lstat root (butlast cs)"
  by (auto simp: resolved_def list_all_iff take_butlast dest: in_set_butlastD)

lemma resolved_snoc:
  "resolved lstat root (cs @ [p]) \<longleftrightarrow>
     resolved lstat root cs \<and> plain_comp p \<and> \<not> is_link lstat root (cs @ [p])"
proof -
  have "(\<forall>k. 0 < k \<and> k \<le> Suc (length cs) \<longrightarrow> \<not> is_link lstat root (take k (cs @ [p]))) \<longleftrightarrow>
    (\<forall>k. 0 < k \<and> k \<le> length cs \<longrightarrow> \<not> is_link lstat root (take k cs)) \<and> \<not> is_link lstat root (cs @ [p])"
    by (auto simp: le_Suc_eq)
  then show ?thesis by (auto simp: resolved_def)
qed

lemma resolved_prefix: "resolved lstat root (cs @ ds) \<Longrightarrow> resolved lstat root cs"
  by (induction ds rule: rev_induct) (auto simp: resolved_snoc simp flip: append_assoc)

lemma abs_path_Nil [simp]: "abs_path [] = ''/''"
  by (simp add: abs_path_def)

lemma path_Join_slash [simp]: "plain_comp p \<Longrightarrow> path_Join [''/'', p] = abs_path [p]"
  using path_Join_abs [of "[]" p] by simp

lemma resolve_loop_resolved:
  assumes "resolve_loop lstat readlink root path n current parts = Ok r"
    "current = abs_path cs" "resolved lstat root cs" "\<And>p. p \<in> set parts \<Longrightarrow> slash_free p"
  shows "\<exists>ds. r = abs_path ds \<and> resolved lstat root ds"
  using assms
proof (induction lstat readlink root path n current parts arbitrary: cs rule: resolve_loop.induct)
  case (1 lstat readlink root path n current)
  then show ?case by auto
next
  case (2 lstat readlink root path n current part parts)
  have cs: "list_all plain_comp cs" using "2.prems"(3) by (simp add: resolved_def)
  have sf: "\<And>p. p \<in> set parts \<Longrightarrow> slash_free p" "slash_free part" using "2.prems"(4) by auto
  consider (skip) "part = [] \<or> part = ''.''" | (up) "part = ''..''" | (name) "plain_comp part"
    using sf(2) by (auto simp: plain_comp_def slash_free_def)
  then show ?case
  proof cases
    case skip
    with "2.IH"(1) [OF skip _ "2.prems"(2,3) sf(1)] "2.prems"(1) show ?thesis by auto
  next
    case up
    have "Dir current = abs_path (butlast cs)" using "2.prems"(2) cs by simp
    with "2.IH"(2) [OF _ up _ this resolved_butlast [OF "2.prems"(3)] sf(1)] "2.prems"(1) up
    show ?thesis by auto
  next
    case name
    then have np: "\<not> (part = [] \<or> part = ''.'')" "part \<noteq> ''..''" by auto
    have nx: "path_Join [current, part] = abs_path (cs @ [part])"
      using "2.prems"(2) cs name by simp
    show ?thesis
    proof (cases "is_link lstat root (cs @ [part])")
      case False
      then have ok: "resolved lstat root (cs @ [part])" using "2.prems"(3) name by (simp add: resolved_snoc)
      show ?thesis
      proof (cases "lstat (path_Join [root, path_Join [current, part]])")
        case (Inl e)
        with "2.prems"(1) np have "resolve_loop lstat readlink root path n (path_Join [current, part]) parts = Ok r"
          by (simp add: Let_def)
        from "2.IH"(3) [OF np refl Inl this nx ok sf(1)] show ?thesis .
      next
        case (Inr fi)
        with False nx have nl: "\<not> ModeSymlink fi" by (simp add: is_link_def)
        with "2.prems"(1) np Inr have "resolve_loop lstat readlink root path n (path_Join [current, part]) parts = Ok r"
          by (simp add: Let_def)
        from "2.IH"(4) [OF np refl Inr nl this nx ok sf(1)] show ?thesis .
      qed
    next
      case True
      then obtain fi where fi: "lstat (path_Join [root, path_Join [current, part]]) = Inr fi" "ModeSymlink fi"
        by (auto simp: is_link_def nx split: sum.splits)
      with "2.prems"(1) np obtain dest where d: "\<not> n + 1 > 40"
        "readlink (path_Join [root, path_Join [current, part]]) = Inr dest"
        and run: "resolve_loop lstat readlink root path (n + 1) (if IsAbs dest then ''/'' else current)
          (Split (CHR ''/'') dest @ parts) = Ok r"
        by (auto simp: Let_def split: if_splits sum.splits)
      have sf': "\<And>p. p \<in> set (Split (CHR ''/'') dest @ parts) \<Longrightarrow> slash_free p"
        using sf(1) by (auto simp: slash_free_def dest: Split_parts_no_sep)
      have "\<exists>es. (if IsAbs dest then ''/'' else current) = abs_path es \<and> resolved lstat root es"
        using "2.prems"(2,3) by (auto intro: exI [of _ "[]"])
      then obtain es where "(if IsAbs dest then ''/'' else current) = abs_path es" "resolved lstat root es" by auto
      from "2.IH"(5) [OF np refl fi(1) _ d(1) d(2) run this sf'] fi(2) show ?thesis by simp
    qed
  qed
qed

text \<open>A resolved path is resolved to itself.\<close>

lemma resolve_loop_fixed:
  assumes "resolved lstat root (cs @ parts)"
  shows "resolve_loop lstat readlink root path n (abs_path cs) parts = Ok (abs_path (cs @ parts))"
  using assms
proof (induction parts arbitrary: cs)
  case (Cons p ps)
  then have r: "resolved lstat root ((cs @ [p]) @ ps)" by simp
  then have p: "plain_comp p" "\<not> is_link lstat root (cs @ [p])" "list_all plain_comp cs"
    using resolved_prefix [OF r] by (auto simp: resolved_snoc resolved_def)
  then have "resolve_loop lstat readlink root path n (abs_path cs) (p # ps)
      = resolve_loop lstat readlink root path n (abs_path (cs @ [p])) ps"
    by (auto simp: Let_def is_link_def split: sum.splits)
  with Cons.IH [OF r] show ?case by simp
qed simp

lemma resolve_loop_no_panic: "\<not> is_Panic (resolve_loop lstat readlink root path n current parts)"
  by (induction lstat readlink root path n current parts rule: resolve_loop.induct)
    (auto simp: Let_def split: sum.splits)

text \<open>Without symlinks the walk is lexical cleaning.\<close>

lemma norm_comps_prefix:
  "list_all plain_comp cs \<Longrightarrow> norm_comps r st (cs @ ps) = norm_comps r (rev cs @ st) ps"
  by (induction cs arbitrary: st) (auto simp: plain_comp_def)

lemma resolve_loop_lexical:
  assumes "\<And>cs. \<not> is_link lstat root cs" "list_all plain_comp cs" "\<And>p. p \<in> set parts \<Longrightarrow> slash_free p"
  shows "resolve_loop lstat readlink root path n (abs_path cs) parts
    = Ok (abs_path (norm_comps True (rev cs) (filter (\<lambda>p. p \<noteq> [] \<and> p \<noteq> ''.'') parts)))"
  using assms(2,3)
proof (induction parts arbitrary: cs)
  case (Cons p ps)
  have IH: "list_all plain_comp cs \<Longrightarrow> resolve_loop lstat readlink root path n (abs_path cs) ps
    = Ok (abs_path (norm_comps True (rev cs) (filter (\<lambda>p. p \<noteq> [] \<and> p \<noteq> ''.'') ps)))" for cs
    using Cons by auto
  consider (skip) "p = [] \<or> p = ''.''" | (up) "p = ''..''" | (name) "plain_comp p"
    using Cons.prems(2) [of p] by (auto simp: plain_comp_def slash_free_def)
  then show ?case
  proof cases
    case skip
    then show ?thesis using IH [OF Cons.prems(1)] by auto
  next
    case up
    have "list_all plain_comp (butlast cs)" using Cons.prems(1) by (auto simp: list_all_iff dest: in_set_butlastD)
    note IH' = IH [OF this]
    show ?thesis
    proof (cases cs rule: rev_cases)
      case Nil
      then show ?thesis using up IH' Dir_abs_path [of "[]"] by simp
    next
      case (snoc ds d)
      then have "d \<noteq> ''..''" using Cons.prems(1) by (auto simp: plain_comp_def)
      with snoc show ?thesis using up IH' Cons.prems(1) by simp
    qed
  next
    case name
    then have l: "list_all plain_comp (cs @ [p])" using Cons.prems(1) by simp
    have "resolve_loop lstat readlink root path n (abs_path cs) (p # ps)
      = resolve_loop lstat readlink root path n (abs_path (cs @ [p])) ps"
      using name Cons.prems(1) assms(1) [of "cs @ [p]"]
      by (auto simp: Let_def is_link_def split: sum.splits)
    with IH [OF l] name show ?thesis by (auto simp: plain_comp_def)
  qed
qed simp

section \<open>Lemmas: the calls made\<close>

text \<open>
  The protocol of linking, from the history \<open>h\<close> on: every mount in its turn has a target at this
  moment, which is skipped when it is empty or taken, or gets a volume with the path and the mode of
  the mount, linked to the container at this target in this mode and unlinked from its creator, also
  when the linking failed; a failure ends the sequence, and nothing else does.
\<close>

definition target_at :: "env \<Rightarrow> string \<Rightarrow> history \<Rightarrow> string \<Rightarrow> string res" where
  "target_at E root h path =
     fst (run_state (cdiMountTarget E root path) \<lparr>w_trace = h, w_parent = None, w_tmpfs = [], w_registries = []\<rparr>)"

definition bind_volume :: "Mount \<Rightarrow> (string, string) gomap" where
  "bind_volume m = [(''backend'', ''bind''), (''storage'', HostPath m), (''read_only'', FormatBool (Readonly m))]"

inductive link_trace :: "env \<Rightarrow> string \<Rightarrow> string \<Rightarrow> history \<Rightarrow> string set \<Rightarrow> Mount list \<Rightarrow> history \<Rightarrow> bool \<Rightarrow> bool" for E i root where
  lt_end: "link_trace E i root h T [] [] True"
| lt_no_target: "\<not> is_Ok (target_at E root h (ContainerPath m)) \<Longrightarrow> link_trace E i root h T (m # ms) [] False"
| lt_skip: "target_at E root h (ContainerPath m) = Ok t \<Longrightarrow> t = [] \<or> t \<in> T \<Longrightarrow> link_trace E i root h T ms es ok
    \<Longrightarrow> link_trace E i root h T (m # ms) es ok"
| lt_no_volume: "target_at E root h (ContainerPath m) = Ok t \<Longrightarrow> t \<noteq> [] \<Longrightarrow> t \<notin> T
    \<Longrightarrow> link_trace E i root h T (m # ms) [EvCreateVolume [] (bind_volume m) (Inl e)] False"
| lt_no_link: "target_at E root h (ContainerPath m) = Ok t \<Longrightarrow> t \<noteq> [] \<Longrightarrow> t \<notin> T
    \<Longrightarrow> link_trace E i root h T (m # ms) [EvCreateVolume [] (bind_volume m) (Inr vol),
          EvLinkVolumeTarget vol i t False (Readonly m) (Inl e), EvUnlinkVolume vol [] u] False"
| lt_link: "target_at E root h (ContainerPath m) = Ok t \<Longrightarrow> t \<noteq> [] \<Longrightarrow> t \<notin> T
    \<Longrightarrow> ls = [EvCreateVolume [] (bind_volume m) (Inr vol), EvLinkVolumeTarget vol i t False (Readonly m) (Inr ()),
          EvUnlinkVolume vol [] u]
    \<Longrightarrow> link_trace E i root (h @ ls) (insert t T) ms es ok
    \<Longrightarrow> link_trace E i root h T (m # ms) (ls @ es) ok"

fun linked_targets :: "history \<Rightarrow> string list" where
  "linked_targets [] = []"
| "linked_targets (ev # es) = (case ev of EvLinkVolumeTarget vol i t b ro r \<Rightarrow> [t] | _ \<Rightarrow> []) @ linked_targets es"

lemma linked_targets_append [simp]: "linked_targets (xs @ ys) = linked_targets xs @ linked_targets ys"
  by (induction xs) simp_all

lemma link_trace_distinct:
  "link_trace E i root h T ms es ok \<Longrightarrow> distinct (linked_targets es) \<and> T \<inter> set (linked_targets es) = {}"
  by (induction rule: link_trace.induct) auto

text \<open>At the end of a successful sequence every mount has been seen to.\<close>

lemma link_trace_covers:
  assumes "link_trace E i root h T ms es ok" "ok" "m \<in> set ms"
  shows "\<exists>a b t. es = a @ b \<and> target_at E root (h @ a) (ContainerPath m) = Ok t
    \<and> (t = [] \<or> t \<in> T \<or> t \<in> set (linked_targets a)
       \<or> (\<exists>vol u c. b = EvCreateVolume [] (bind_volume m) (Inr vol)
            # EvLinkVolumeTarget vol i t False (Readonly m) (Inr ()) # EvUnlinkVolume vol [] u # c))"
  using assms
proof (induction rule: link_trace.induct)
  case (lt_skip h m' t T ms es ok)
  show ?case
  proof (cases "m = m'")
    case True
    then show ?thesis using lt_skip.hyps by (intro exI [of _ "[]"] exI [of _ es] exI [of _ t]) auto
  qed (use lt_skip in simp)
next
  case (lt_link h m' t T ls vol u ms es ok)
  show ?case
  proof (cases "m = m'")
    case True
    then show ?thesis using lt_link.hyps by (intro exI [of _ "[]"] exI [of _ "ls @ es"] exI [of _ t]) simp
  next
    case False
    with lt_link obtain a b t' where "es = a @ b" "target_at E root ((h @ ls) @ a) (ContainerPath m) = Ok t'"
      "t' = [] \<or> t' \<in> insert t T \<or> t' \<in> set (linked_targets a)
       \<or> (\<exists>vol u c. b = EvCreateVolume [] (bind_volume m) (Inr vol)
            # EvLinkVolumeTarget vol i t' False (Readonly m) (Inr ()) # EvUnlinkVolume vol [] u # c)" by auto
    then show ?thesis
      using lt_link.hyps(4) by (intro exI [of _ "ls @ a"] exI [of _ b] exI [of _ t']) (simp, blast)
  qed
qed simp_all

lemma emits_Lstat [emit_rules]: "emits (Lstat E p) (\<lambda>r es. es = [])"
  unfolding Lstat_def by (rule emits_look) simp

lemma emits_cdiMountTarget: "emits (cdiMountTarget E root path) (\<lambda>r es. es = [])"
  unfolding cdiMountTarget_def resolveInRoot_def Let_def
  by (rule emits_step_or [OF emits_look [where Q = "\<lambda>r es. es = []"]])
    (auto intro!: emits_bind [OF emits_Lstat] split: sum.split)

lemma run_cdiMountTarget: "run_state (cdiMountTarget E root p) w = (target_at E root (w_trace w) p, w)"
  by (auto simp: target_at_def cdiMountTarget_def resolveInRoot_def run_simps Let_def split: res.split sum.split)

lemma link_mounts_trace:
  "run_state (link_mounts E i root linked ms) w = (v, w')
     \<Longrightarrow> \<exists>es. w_trace w' = w_trace w @ es \<and> link_trace E i root (w_trace w) (set linked) ms es (is_Ok v)"
proof (induction ms arbitrary: linked w)
  case Nil
  then show ?case by (auto simp: lt_end)
next
  case (Cons m ms)
  let ?h = "w_trace w"
  show ?case
  proof (cases "target_at E root ?h (ContainerPath m)")
    case (Ok t)
    show ?thesis
    proof (cases "t = [] \<or> t \<in> set linked")
      case True
      with Cons.prems Ok have "run_state (link_mounts E i root linked ms) w = (v, w')"
        by (auto simp: run_step_or run_cdiMountTarget split: if_splits)
      from Cons.IH [OF this] Ok True show ?thesis by (blast intro: lt_skip)
    next
      case new: False
      let ?c = "o_CreateVolume (porto E) ?h [] (bind_volume m)"
      show ?thesis
      proof (cases ?c)
        case (Inl e)
        with Cons.prems Ok new show ?thesis
          by (auto simp: run_step_or run_call_or run_cdiMountTarget CreateVolume_def run_ask bind_volume_def [symmetric]
              intro: lt_no_volume)
      next
        case (Inr vol)
        let ?h1 = "?h @ [EvCreateVolume [] (bind_volume m) (Inr vol)]"
        let ?r = "o_LinkVolumeTarget (porto E) ?h1 vol i t False (Readonly m)"
        let ?h2 = "?h1 @ [EvLinkVolumeTarget vol i t False (Readonly m) ?r]"
        let ?u = "o_UnlinkVolume (porto E) ?h2 vol []"
        let ?h3 = "?h2 @ [EvUnlinkVolume vol [] ?u]"
        show ?thesis
        proof (cases ?r)
          case (Inl e)
          with Cons.prems Ok new Inr show ?thesis
            by (auto simp: run_step_or run_call_or run_cdiMountTarget CreateVolume_def LinkVolumeTarget_def UnlinkVolume_def
                run_simps bind_volume_def [symmetric] intro: lt_no_link)
        next
          case linked: (Inr x)
          have "run_state (link_mounts E i root (t # linked) ms) (w\<lparr>w_trace := ?h3\<rparr>) = (v, w')"
            using Cons.prems Ok new Inr linked
            by (simp add: run_step_or run_call_or run_cdiMountTarget CreateVolume_def LinkVolumeTarget_def UnlinkVolume_def
                run_simps bind_volume_def [symmetric] del: link_mounts.simps(1))
          from Cons.IH [OF this] obtain es where es: "w_trace w' = ?h3 @ es"
            "link_trace E i root ?h3 (insert t (set linked)) ms es (is_Ok v)" by auto
          let ?ls = "[EvCreateVolume [] (bind_volume m) (Inr vol), EvLinkVolumeTarget vol i t False (Readonly m) (Inr ()),
            EvUnlinkVolume vol [] ?u]"
          have h3: "?h3 = ?h @ ?ls" by (simp add: linked)
          have "link_trace E i root ?h (set linked) (m # ms) (?ls @ es) (is_Ok v)"
            using es(2) new unfolding h3 by (intro lt_link [OF Ok _ _ refl]) simp_all
          moreover have "w_trace w' = ?h @ ?ls @ es" using es(1) unfolding h3 by simp
          ultimately show ?thesis by blast
        qed
      qed
    qed
  qed (use Cons.prems in \<open>auto simp: run_step_or run_cdiMountTarget intro!: lt_no_target\<close>)
qed

text \<open>Hooks run one after the other until one fails.\<close>

definition hook_event :: "string \<Rightarrow> CDIHook \<Rightarrow> (goerr + unit) \<Rightarrow> event" where
  "hook_event js h r = EvRunHook (h_Path h) (if h_Args h = [] then [h_Path h] else h_Args h) (h_Env h)
     (sint (hook_timeout h)) js r"

lemma hook_event_inj [simp]: "hook_event js h r = hook_event js h r' \<longleftrightarrow> r = r'"
  by (simp add: hook_event_def)

fun hooks_run :: "string \<Rightarrow> CDIHook list \<Rightarrow> history \<Rightarrow> bool \<Rightarrow> bool" where
  "hooks_run js [] es ok \<longleftrightarrow> es = [] \<and> ok"
| "hooks_run js (h # hs) es ok \<longleftrightarrow>
     (\<exists>e. es = [hook_event js h (Inl e)] \<and> \<not> ok)
     \<or> (\<exists>es'. es = hook_event js h (Inr ()) # es' \<and> hooks_run js hs es' ok)"

lemma hooks_run_append:
  "hooks_run js xs es True \<Longrightarrow> hooks_run js ys fs ok \<Longrightarrow> hooks_run js (xs @ ys) (es @ fs) ok"
  by (induction xs arbitrary: es) auto

lemma hooks_run_failed: "hooks_run js xs es False \<Longrightarrow> hooks_run js (xs @ ys) es False"
  by (induction xs arbitrary: es) auto

lemma emits_runCDIHook:
  "emits (runCDIHook E h js) (\<lambda>v es. (\<exists>e. es = [hook_event js h (Inl e)] \<and> v = Err (FmtV [] e))
     \<or> es = [hook_event js h (Inr ())] \<and> v = Ok ())"
  unfolding runCDIHook_def RunHook_def hook_event_def by (auto intro!: emit_rules)

lemma emits_run_stage:
  "emits (run_stage E st js hs) (\<lambda>v es. hooks_run js (filter (\<lambda>h. HookName h = st) hs) es (is_Ok v))"
proof (induction hs)
  case (Cons h hs)
  show ?case
  proof (cases "HookName h = st")
    case True
    then show ?thesis
      by (simp, intro emits_step_or [OF emits_runCDIHook])
        (use Cons.IH in auto)
  qed (simp add: Cons.IH)
qed simp

definition hooks_in_order :: "string list \<Rightarrow> CDIHook list \<Rightarrow> CDIHook list" where
  "hooks_in_order stages hooks = concat (map (\<lambda>st. filter (\<lambda>h. HookName h = st) hooks) stages)"

lemma emits_run_stages:
  "emits (run_stages E sts js hooks) (\<lambda>v es. hooks_run js (hooks_in_order sts hooks) es (is_Ok v))"
proof (induction sts)
  case (Cons st sts)
  show ?case
    unfolding run_stages.simps
    by (rule emits_step_or [OF emits_run_stage])
      (auto simp: hooks_in_order_def intro: hooks_run_failed
        intro!: emits_mono [OF Cons.IH [unfolded hooks_in_order_def]] hooks_run_append)
qed (simp add: hooks_in_order_def)

section \<open>Properties\<close>

text \<open>
  The CDI devices requested by a container's annotations do not depend on the order in which
  Go visits the annotations, and are exactly the non-empty trimmed items of the comma-separated
  values of the keys under "cdi.k8s.io/".
\<close>

theorem requested_devices_exact:
  assumes "wf_map a" "mset b = mset a"
  shows "cdiRequestedDevices b = cdiRequestedDevices a
    \<and> (d \<in> set (cdiRequestedDevices a) \<longleftrightarrow>
        (\<exists>k v. mget a k = Some v \<and> HasPrefix k ''cdi.k8s.io/'' \<and> d \<noteq> []
           \<and> d \<in> TrimSpace ` set (Split (CHR '','') v)))"
proof -
  have m: "map_of b = map_of a" using assms by (rule map_of_eq_of_perm)
  have "mset (map fst b) = mset (map fst a)" using assms(2) by simp
  then have "mset (filter (\<lambda>k. HasPrefix k cdiAnnotationPrefix) (map fst b))
      = mset (filter (\<lambda>k. HasPrefix k cdiAnnotationPrefix) (map fst a))"
    by (simp only: mset_filter)
  from sort_Strings_perm [OF this] m have "cdiRequestedDevices b = cdiRequestedDevices a"
    by (simp add: cdiRequestedDevices_def mget_str_def Let_def)
  moreover have "d \<in> set (cdiRequestedDevices a) \<longleftrightarrow>
        (\<exists>k v. mget a k = Some v \<and> HasPrefix k ''cdi.k8s.io/'' \<and> d \<noteq> []
           \<and> d \<in> TrimSpace ` set (Split (CHR '','') v))"
    using assms(1) by (force simp: cdiRequestedDevices_iff cdiAnnotationPrefix_def mget_str_def)
  ultimately show ?thesis by blast
qed

theorem requested_devices_exact_witness:
  "cdiRequestedDevices [(''cdi.k8s.io/a'', ''v/c=1, v/c=2,''), (''net'', ''x'')]
     = cdiRequestedDevices [(''net'', ''x''), (''cdi.k8s.io/a'', ''v/c=1, v/c=2,'')]"
  using requested_devices_exact [of "[(''net'', ''x''), (''cdi.k8s.io/a'', ''v/c=1, v/c=2,'')]"
    "[(''cdi.k8s.io/a'', ''v/c=1, v/c=2,''), (''net'', ''x'')]"] by simp

text \<open>
  When the spec files load, the spec of a kind is the last one read for it: a later directory
  overrides an earlier one, and every spec is filed under its own kind.
\<close>

theorem later_spec_overrides:
  assumes "run_state (loadCDISpecs E yaml dirs) w = (Ok specs, w')"
  shows "mget specs k = last_spec k (dir_specs (o_ReadDir (os E) (w_trace w)) (o_ReadFile (os E) (w_trace w)) yaml dirs)
    \<and> keyed specs \<and> w' = w"
proof -
  from assms have l: "load_dirs (o_ReadDir (os E) (w_trace w)) (o_ReadFile (os E) (w_trace w)) yaml dirs [] = Ok specs"
    and w: "w' = w"
    by (auto simp add: loadCDISpecs_def run_simps)
  have look: "\<And>k. mget specs k = last_spec k (dir_specs (o_ReadDir (os E) (w_trace w)) (o_ReadFile (os E) (w_trace w)) yaml dirs)"
    using load_dirs_lookup [OF l] by (simp split: option.splits)
  moreover have "keyed specs"
    unfolding keyed_def look last_spec_def by (auto simp: find_Some_iff)
  ultimately show ?thesis using w by blast
qed

definition demo_spec :: cdiSpec where
  "demo_spec = \<lparr>Kind = ''nvidia.com/gpu'', sp_Devices = [\<lparr>dev_Name = ''0'', dev_Edits =
       \<lparr>ce_Env = [''GPU=0''], ce_DeviceNodes = [], ce_Mounts = [], ce_Hooks = []\<rparr>\<rparr>],
     sp_Edits = \<lparr>ce_Env = [''NVIDIA=1''], ce_DeviceNodes = [], ce_Mounts = [], ce_Hooks = []\<rparr>, sp_path = []\<rparr>"

text \<open>An environment with one spec file, the same in both directories.\<close>

definition demo_env :: env where
  "demo_env = base_env\<lparr>os := base_os\<lparr>o_ReadDir := (\<lambda>h p. Inr [(''a.yaml'', False), (''README'', False)]),
     o_ReadFile := (\<lambda>h p. Inr p)\<rparr>\<rparr>"

lemma demo_load:
  "run_state (loadCDISpecs demo_env (\<lambda>d. Inr demo_spec) [''/etc/cdi'', ''/run/cdi'']) base_world
     = (Ok [(''nvidia.com/gpu'', demo_spec\<lparr>sp_path := ''/run/cdi/a.yaml''\<rparr>)], base_world)"
  by (simp add: loadCDISpecs_def run_simps demo_env_def base_defs Ext_def demo_spec_def path_Join_def
      Clean_def IsAbs_def path_comps_def)

theorem later_spec_overrides_witness:
  "mget [(''nvidia.com/gpu'', demo_spec\<lparr>sp_path := ''/run/cdi/a.yaml''\<rparr>)] ''nvidia.com/gpu''
     = last_spec ''nvidia.com/gpu'' (dir_specs (o_ReadDir (os demo_env) (w_trace base_world))
         (o_ReadFile (os demo_env) (w_trace base_world)) (\<lambda>d. Inr demo_spec) [''/etc/cdi'', ''/run/cdi''])"
  by (rule later_spec_overrides [OF demo_load, THEN conjunct1])

text \<open>
  C19. Resolving the requested devices succeeds exactly when every one of them is a device of a
  loaded spec, and then the environment, devices, mounts and hooks of the result are, in this order,
  those of the abstract specification: each requested device once, at the first place it is named,
  and the edits of its kind once, right before those of the first device of the kind.
\<close>

theorem resolve_exact:
  assumes "run_state (loadCDISpecs E yaml dirs) w = (Ok specs, w1)" "requested \<noteq> []"
    and "run_state (resolveCDIDevices E yaml requested dirs) w = (r, w')"
  shows "(is_Ok r \<longleftrightarrow> (\<forall>q \<in> set requested. device_of specs q \<noteq> None)) \<and> \<not> is_Panic r
    \<and> (\<forall>e. r = Ok e \<longrightarrow>
        e_Envs e = concat (map (\<lambda>ed. env_edits (ce_Env ed)) (wanted_edits specs requested))
      \<and> e_Devices e = concat (map (\<lambda>ed. map device_edit (ce_DeviceNodes ed)) (wanted_edits specs requested))
      \<and> e_Mounts e = concat (map (\<lambda>ed. map mount_edit (ce_Mounts ed)) (wanted_edits specs requested))
      \<and> e_Hooks e = concat (map ce_Hooks (wanted_edits specs requested)))"
proof -
  have k: "keyed specs"
    using assms(1) load_dirs_lookup
    by (auto simp: loadCDISpecs_def run_simps keyed_def last_spec_def find_Some_iff split: option.splits)
  have r: "r = resolve_devices specs [] [] no_edits requested"
    using assms(1-3) by (simp add: resolveCDIDevices_def run_simps)
  have "e = foldl apply_edits no_edits (wanted_edits specs requested)" if "r = Ok e" for e
    using resolve_devices_edits [OF k, of "[]" "[]" no_edits requested e "[]"] that r by simp
  then show ?thesis
    using resolve_devices_ok_iff [of specs "[]" "[]" no_edits requested]
      resolve_devices_no_panic [of specs "[]" "[]" no_edits requested]
    by (auto simp: r is_Ok_iff edits_parts no_edits_parts simp del: not_None_eq)
qed

theorem resolve_exact_witness:
  "concat (map (\<lambda>ed. env_edits (ce_Env ed)) (wanted_edits [(''nvidia.com/gpu'', demo_spec\<lparr>sp_path := ''/run/cdi/a.yaml''\<rparr>)]
     [''nvidia.com/gpu=0'', ''nvidia.com/gpu=0''])) = [(''NVIDIA'', ''1''), (''GPU'', ''0'')]"
proof -
  have "run_state (resolveCDIDevices demo_env (\<lambda>d. Inr demo_spec) [''nvidia.com/gpu=0'', ''nvidia.com/gpu=0'']
      [''/etc/cdi'', ''/run/cdi'']) base_world
    = (Ok \<lparr>e_Mounts = [], e_Devices = [], e_Envs = [(''NVIDIA'', ''1''), (''GPU'', ''0'')], e_Hooks = []\<rparr>, base_world)"
    by (simp add: resolveCDIDevices_def run_simps demo_load SplitN2_def)
      (simp add: demo_spec_def no_edits_def apply_edits_def env_edits_def SplitN2_def List.map_filter_simps)
  from resolve_exact [OF demo_load _ this] show ?thesis by simp
qed

lemma resolveInRoot_resolved:
  assumes "run_state (resolveInRoot E root path) w = (Ok p, w)"
  shows "(\<exists>cs. p = abs_path cs \<and> resolved (o_Lstat (os E) (w_trace w)) root cs) \<and> run_state (resolveInRoot E root p) w = (Ok p, w)"
proof -
  have run: "resolve_loop (o_Lstat (os E) (w_trace w)) (o_Readlink (os E) (w_trace w)) root path 0 ''/''
      (Split (CHR ''/'') path) = Ok p"
    using assms by (simp add: resolveInRoot_def run_simps)
  obtain cs where cs: "p = abs_path cs" "resolved (o_Lstat (os E) (w_trace w)) root cs"
    using resolve_loop_resolved [OF run, of "[]"] by (auto simp: slash_free_def dest: Split_parts_no_sep)
  have "Split (CHR ''/'') (abs_path cs) = [] # (if cs = [] then [[]] else cs)"
    using cs(2) Split_Join [of cs "CHR ''/''"]
    by (auto simp: abs_path_def resolved_def list_all_iff plain_comp_def)
  then have "run_state (resolveInRoot E root p) w = (Ok p, w)"
    using resolve_loop_fixed [of _ _ "[]" cs] cs
    by (auto simp: resolveInRoot_def run_simps)
  with cs show ?thesis by blast
qed

text \<open>
  C4. A path resolved inside a container root is an absolute path of plain components under that
  root, neither it nor any directory above it is a symlink, and resolving it again gives it back;
  the walk never panics.
\<close>

theorem resolveInRoot_safe:
  "case run_state (resolveInRoot E root path) w of (r, w') \<Rightarrow> w' = w \<and>
     (case r of Ok p \<Rightarrow> (\<exists>cs. p = abs_path cs \<and> resolved (o_Lstat (os E) (w_trace w)) root cs)
                 \<and> run_state (resolveInRoot E root p) w = (Ok p, w)
      | Err e \<Rightarrow> True | Panic s \<Rightarrow> False)"
proof (cases "fst (run_state (resolveInRoot E root path) w)")
  case (Ok p)
  then have "run_state (resolveInRoot E root path) w = (Ok p, w)" by (simp add: resolveInRoot_def run_simps)
  from resolveInRoot_resolved [OF this] this show ?thesis by auto
qed (use resolve_loop_no_panic in \<open>auto simp: resolveInRoot_def run_simps is_Panic_iff split: res.split\<close>)

text \<open>
  Where no path of the root is a symlink, resolving a path is cleaning it as an absolute path.
\<close>

theorem resolveInRoot_lexical:
  assumes "\<And>p fi. o_Lstat (os E) (w_trace w) p = Inr fi \<Longrightarrow> \<not> ModeSymlink fi"
  shows "run_state (resolveInRoot E root path) w = (Ok (Clean (CHR ''/'' # path)), w)"
proof -
  have "\<not> is_link (o_Lstat (os E) (w_trace w)) root cs" for cs
    using assms by (auto simp: is_link_def split: sum.splits)
  note lex = resolve_loop_lexical [OF this, of "[]" "Split (CHR ''/'') path"]
  have "Clean (CHR ''/'' # path) = abs_path (norm_comps True [] (path_comps path))"
    by (simp add: Clean_abs IsAbs_def)
  moreover have "\<And>p. p \<in> set (Split (CHR ''/'') path) \<Longrightarrow> slash_free p"
    by (auto simp: slash_free_def dest: Split_parts_no_sep)
  ultimately show ?thesis
    using lex by (simp add: resolveInRoot_def run_simps path_comps_def)
qed

theorem resolveInRoot_lexical_witness:
  "run_state (resolveInRoot base_env ''/root'' ''lib/../usr//bin'') base_world
     = (Ok (Clean ''/lib/../usr//bin''), base_world)"
  by (rule resolveInRoot_lexical) (simp add: base_defs)

text \<open>The last element of a path joined to a resolved directory.\<close>

lemma file_part_no_sep: "CHR ''/'' \<notin> set (file_part s)"
  by (auto simp: file_part_def dest: set_takeWhileD)

lemma Base_cases: "Base s = ''/'' \<or> Base s \<noteq> [] \<and> CHR ''/'' \<notin> set (Base s)"
  using file_part_no_sep by (auto simp: Base_def Let_def)

lemma path_Join_gen:
  assumes "list_all plain_comp cs" "b \<noteq> []"
  shows "path_Join [abs_path cs, b] = abs_path (norm_comps True (rev cs) (path_comps b))"
proof -
  have "path_Join [abs_path cs, b] = Clean (abs_path cs @ CHR ''/'' # b)"
    using assms(2) by (auto simp: path_Join_def)
  also have "\<dots> = abs_path (norm_comps True [] (path_comps (abs_path cs @ CHR ''/'' # b)))"
    by (rule Clean_abs) (simp add: IsAbs_def abs_path_def)
  finally show ?thesis using assms(1) by (simp add: path_comps_sep norm_comps_prefix)
qed

lemma join_base_cases:
  assumes "list_all plain_comp cs"
  shows "path_Join [abs_path cs, Base s] \<in> {abs_path cs, abs_path (butlast cs)}
    \<or> (\<exists>b. plain_comp b \<and> path_Join [abs_path cs, Base s] = abs_path (cs @ [b]))"
proof -
  have e: "path_Join [abs_path cs, Base s] = abs_path (norm_comps True (rev cs) (path_comps (Base s)))"
    using assms Base_cases [of s] by (intro path_Join_gen) auto
  consider "Base s = ''/'' \<or> Base s = ''.''" | "Base s = ''..''" | "plain_comp (Base s)"
    using Base_cases [of s] by (auto simp: plain_comp_def)
  then show ?thesis
  proof cases
    case 1
    then have "path_comps (Base s) = []" by (auto simp: path_comps_def)
    then show ?thesis by (simp add: e)
  next
    case 2
    then have "path_comps (Base s) = [''..'']" by (simp add: path_comps_def)
    then have "path_Join [abs_path cs, Base s] = abs_path (butlast cs)"
      using assms unfolding e by (cases cs rule: rev_cases) (simp_all add: plain_comp_def)
    then show ?thesis by simp
  next
    case 3
    then show ?thesis using assms by auto
  qed
qed

text \<open>
  The target of a CDI mount is either skipped, or an absolute path of which neither any
  directory nor the path itself is a symlink of the container root: no mount replaces or goes
  through a link of the image.
\<close>

theorem cdiMountTarget_safe:
  assumes "run_state (cdiMountTarget E root path) w = (Ok t, w')"
  shows "w' = w \<and> (t = [] \<or> (\<exists>cs. t = abs_path cs \<and> resolved (o_Lstat (os E) (w_trace w)) root cs))"
proof -
  let ?l = "o_Lstat (os E) (w_trace w)"
  obtain dir where dir: "run_state (resolveInRoot E root (Dir (Clean path))) w = (Ok dir, w)"
    using assms by (auto simp: cdiMountTarget_def run_simps resolveInRoot_def Let_def split: res.splits)
  from resolveInRoot_resolved [OF this] obtain ds where
    ds: "dir = abs_path ds" "resolved ?l root ds" by auto
  let ?t = "path_Join [dir, Base (Clean path)]"
  have t: "t = (case ?l (path_Join [root, ?t]) of Inl e \<Rightarrow> ?t | Inr fi \<Rightarrow> if ModeSymlink fi then [] else ?t)" "w' = w"
    using assms dir by (auto simp: cdiMountTarget_def run_simps Let_def split: sum.splits)
  have pl: "list_all plain_comp ds" using ds(2) by (simp add: resolved_def)
  from join_base_cases [OF pl, of "Clean path"] consider "?t = abs_path ds" | "?t = abs_path (butlast ds)"
    | b where "plain_comp b" "?t = abs_path (ds @ [b])"
    unfolding ds(1) by auto
  then show ?thesis
  proof cases
    case 3
    show ?thesis
    proof (cases "is_link ?l root (ds @ [b])")
      case True
      then show ?thesis using t 3 by (auto simp: is_link_def split: sum.splits)
    next
      case False
      then have "resolved ?l root (ds @ [b])" using ds(2) 3(1) by (simp add: resolved_snoc)
      then show ?thesis using t 3 by (auto split: sum.splits)
    qed
  qed (use t ds(2) resolved_butlast [OF ds(2)] in \<open>auto split: sum.splits\<close>)
qed

definition link_env :: env where
  "link_env = base_env\<lparr>os := base_os\<lparr>
     o_Lstat := (\<lambda>h p. if p = ''/r/lib'' then Inr \<lparr>ModeSymlink = True, ModeExec = False, ModeDir = False, ModeSocket = False\<rparr>
                       else Inl (OsNotExist p)),
     o_Readlink := (\<lambda>h p. if p = ''/r/lib'' then Inr ''usr/lib'' else Inl (OsNotExist p))\<rparr>\<rparr>"

theorem cdiMountTarget_safe_witness:
  "\<exists>cs. ''/usr/lib/x.so'' = abs_path cs \<and> resolved (o_Lstat (os link_env) (w_trace base_world)) ''/r'' cs"
proof -
  have "run_state (cdiMountTarget link_env ''/r'' ''/lib/x.so'') base_world = (Ok ''/usr/lib/x.so'', base_world)"
    by code_simp
  from cdiMountTarget_safe [OF this] show ?thesis by simp
qed

text \<open>
  C24. Linking the CDI mounts keeps the protocol of volumes: every mount in its turn gets a volume
  with its own path and mode, linked in this mode to a target of the container that no earlier mount
  took and unlinked from the shim right after, also when linking failed; a failure ends the
  sequence. After a success every mount has been linked so, but for those whose target was a symlink
  or taken by an earlier mount, and no target is linked twice.
\<close>

theorem linkCDIMounts_protocol:
  assumes "run_state (linkCDIMounts E i root mounts) w = (v, w')"
  shows "\<exists>es. w_trace w' = w_trace w @ es \<and> link_trace E i root (w_trace w) {} mounts es (is_Ok v)
     \<and> distinct (linked_targets es)
     \<and> (v = Ok () \<longrightarrow> (\<forall>m \<in> set mounts. \<exists>a b t. es = a @ b \<and> target_at E root (w_trace w @ a) (ContainerPath m) = Ok t
          \<and> (t = [] \<or> t \<in> set (linked_targets a)
             \<or> (\<exists>vol u c. b = EvCreateVolume [] (bind_volume m) (Inr vol)
                  # EvLinkVolumeTarget vol i t False (Readonly m) (Inr ()) # EvUnlinkVolume vol [] u # c))))"
proof -
  obtain es where es: "w_trace w' = w_trace w @ es" "link_trace E i root (w_trace w) {} mounts es (is_Ok v)"
    using link_mounts_trace [of E i root "[]" mounts w v w'] assms by (auto simp: linkCDIMounts_def)
  then show ?thesis
    using link_trace_distinct [OF es(2)] link_trace_covers [OF es(2)] by auto
qed

text \<open>Two mounts at the same target: the second is left out.\<close>

theorem linkCDIMounts_protocol_witness:
  "\<exists>w'. run_state (linkCDIMounts base_env ''pod/a'' ''/r'' [\<lparr>ContainerPath = ''/x'', HostPath = ''/h'', Readonly = True\<rparr>,
        \<lparr>ContainerPath = ''/x'', HostPath = ''/g'', Readonly = False\<rparr>]) base_world = (Ok (), w')
     \<and> linked_targets (w_trace w') = [''/x''] \<and> distinct (linked_targets (w_trace w'))"
proof -
  let ?ms = "[\<lparr>ContainerPath = ''/x'', HostPath = ''/h'', Readonly = True\<rparr>,
        \<lparr>ContainerPath = ''/x'', HostPath = ''/g'', Readonly = False\<rparr>]"
  have t: "target_at base_env ''/r'' h ''/x'' = Ok ''/x''" for h
  proof -
    have "Clean ''/x'' = ''/x''" "Dir ''/x'' = ''/''" "Base ''/x'' = ''x''" "path_Join [''/'', ''x''] = ''/x''"
      "Split (CHR ''/'') ''/'' = [[], []]"
      by code_simp+
    then show ?thesis
      by (simp add: target_at_def cdiMountTarget_def resolveInRoot_def run_simps Let_def base_env_def base_os_def)
  qed
  have c: "o_CreateVolume (porto base_env) h p vm = Inr ''/place/vol''"
    "o_LinkVolumeTarget (porto base_env) h p i tg b ro = Inr ()" for h p vm i tg b ro
    by (simp_all add: base_env_def base_porto_def)
  have "\<exists>w'. run_state (linkCDIMounts base_env ''pod/a'' ''/r'' ?ms) base_world = (Ok (), w')
      \<and> linked_targets (w_trace w') = [''/x'']"
    by (simp add: linkCDIMounts_def run_step_or run_call_or run_cdiMountTarget t CreateVolume_def LinkVolumeTarget_def
        UnlinkVolume_def run_simps c base_world_def)
  then obtain w' where w: "run_state (linkCDIMounts base_env ''pod/a'' ''/r'' ?ms) base_world = (Ok (), w')"
    "linked_targets (w_trace w') = [''/x'']" by blast
  from linkCDIMounts_protocol [OF w(1)] have "distinct (linked_targets (w_trace w'))" by (auto simp: base_world_def)
  with w show ?thesis by blast
qed

text \<open>
  C20. The hooks of the three supported stages run stage after stage, and within a stage in the
  order of the edits, up to the first one that fails; the call succeeds exactly when all of them
  did, and the temporary bundle is removed last whatever happened after it was made.
\<close>

theorem runCDIHooks_order:
  assumes "hooks \<noteq> []" "run_state (runCDIHooks E i root hooks) w = (v, w')"
  shows "(\<exists>e. w_trace w' = w_trace w @ [EvMkdirTemp ''portoshim-cdi-'' (Inl e)] \<and> v = Err e)
    \<or> (\<exists>bundle r mid x. w_trace w' = w_trace w @ EvMkdirTemp ''portoshim-cdi-'' (Inr bundle)
           # EvWriteFile (path_Join [bundle, ''config.json'']) (hook_config root) r # mid @ [EvRemoveAll bundle x]
        \<and> (case r of Inl e \<Rightarrow> mid = [] \<and> v = Err e
           | Inr u \<Rightarrow> hooks_run (hook_state i bundle) (hooks_in_order cdiHookStages hooks) mid (is_Ok v)))"
proof -
  have "emits (runCDIHooks E i root hooks) (\<lambda>v es.
     (\<exists>e. es = [EvMkdirTemp ''portoshim-cdi-'' (Inl e)] \<and> v = Err e)
    \<or> (\<exists>bundle r mid x. es = EvMkdirTemp ''portoshim-cdi-'' (Inr bundle)
           # EvWriteFile (path_Join [bundle, ''config.json'']) (hook_config root) r # mid @ [EvRemoveAll bundle x]
        \<and> (case r of Inl e \<Rightarrow> mid = [] \<and> v = Err e
           | Inr u \<Rightarrow> hooks_run (hook_state i bundle) (hooks_in_order cdiHookStages hooks) mid (is_Ok v))))"
    (is "emits _ ?Q")
  proof -
    have inner: "emits (call_or id (WriteFile E (path_Join [bd, ''config.json'']) (hook_config root))
               (\<lambda>u. run_stages E cdiHookStages (hook_state i bd) hooks))
       (\<lambda>v es. \<exists>r mid. es = EvWriteFile (path_Join [bd, ''config.json'']) (hook_config root) r # mid
          \<and> (case r of Inl e \<Rightarrow> mid = [] \<and> v = Err e
             | Inr u \<Rightarrow> hooks_run (hook_state i bd) (hooks_in_order cdiHookStages hooks) mid (is_Ok v)))" for bd
      unfolding WriteFile_def by (auto intro!: emit_rules emits_mono [OF emits_run_stages])
    show ?thesis
      using assms(1) unfolding runCDIHooks_def MkdirTemp_def RemoveAll_def
      apply (simp only: if_False)
      apply (rule emits_call_or_ask, simp)
      apply (rule emits_bind [OF inner])
      apply (rule emits_bind_ask)
      apply auto
      done
  qed
  from emitsD [OF this assms(2)] show ?thesis by auto
qed

theorem runCDIHooks_order_witness:
  "\<exists>v w'. run_state (runCDIHooks base_env ''pod/a'' ''/r''
       [\<lparr>HookName = ''createContainer'', h_Path = ''/b'', h_Args = [], h_Env = [], h_Timeout = None\<rparr>,
        \<lparr>HookName = ''prestart'', h_Path = ''/a'', h_Args = [], h_Env = [], h_Timeout = Some 5\<rparr>]) base_world = (v, w')
     \<and> (\<exists>b r mid x. w_trace w' = EvMkdirTemp ''portoshim-cdi-'' (Inr b)
           # EvWriteFile (path_Join [b, ''config.json'']) (hook_config ''/r'') r # mid @ [EvRemoveAll b x])"
proof -
  let ?hs = "[\<lparr>HookName = ''createContainer'', h_Path = ''/b'', h_Args = [], h_Env = [], h_Timeout = None\<rparr>,
        \<lparr>HookName = ''prestart'', h_Path = ''/a'', h_Args = [], h_Env = [], h_Timeout = Some 5\<rparr>]"
  obtain v w' where r: "run_state (runCDIHooks base_env ''pod/a'' ''/r'' ?hs) base_world = (v, w')" by force
  then have "v = Ok ()"
    by (simp add: runCDIHooks_def runCDIHook_def cdiHookStages_def run_simps base_defs split: prod.splits)
  with runCDIHooks_order [OF _ r] r show ?thesis by (auto simp: base_world_def)
qed

end
