(* ===== verification/Json_Decode.thy ===== *)
theory Json_Decode
  imports Json
begin

text \<open>
  What the source uses of \<open>json.Unmarshal\<close>: decoding into a \<open>[]string\<close>, the command of a
  privileged container that CreateContainer stores in a label and StartContainer reads back. The
  parser is that of encoding/json: the whole text is checked first, strings are decoded to UTF-8
  with U+FFFD for what is not, and an element that is not a string leaves the empty string.
\<close>

section \<open>Runes\<close>

definition byte :: "nat \<Rightarrow> char" where
  "byte n = char_of n"

definition utf8_encode :: "nat \<Rightarrow> string" where
  "utf8_encode r =
     (if r < 128 then [byte r]
      else if r < 2048 then [byte (192 + r div 64), byte (128 + r mod 64)]
      else if r < 65536 then [byte (224 + r div 4096), byte (128 + r div 64 mod 64), byte (128 + r mod 64)]
      else [byte (240 + r div 262144), byte (128 + r div 4096 mod 64), byte (128 + r div 64 mod 64), byte (128 + r mod 64)])"

definition replacement_char :: string where
  "replacement_char = [CHR 0xEF, CHR 0xBF, CHR 0xBD]"

definition hex_val :: "char \<Rightarrow> nat option" where
  "hex_val c = (let n = (of_char c :: nat) in
     if 48 \<le> n \<and> n \<le> 57 then Some (n - 48)
     else if 97 \<le> n \<and> n \<le> 102 then Some (n - 87)
     else if 65 \<le> n \<and> n \<le> 70 then Some (n - 55) else None)"

text \<open>The four digits after a backslash and "u".\<close>

definition hex4 :: "string \<Rightarrow> (nat \<times> string) option" where
  "hex4 s = (case s of
     a # b # c # d # rest \<Rightarrow>
       (case (hex_val a, hex_val b, hex_val c, hex_val d) of
          (Some w, Some x, Some y, Some z) \<Rightarrow> Some (4096 * w + 256 * x + 16 * y + z, rest)
        | _ \<Rightarrow> None)
   | _ \<Rightarrow> None)"

text \<open>\<open>getu4\<close> on the text after a first half of a surrogate pair: the second half, if it is there.\<close>

definition low_surrogate :: "string \<Rightarrow> (nat \<times> string) option" where
  "low_surrogate s = (case s of
     b # u # rest \<Rightarrow>
       if b = CHR 0x5C \<and> u = CHR ''u''
       then (case hex4 rest of
               Some (r, rest2) \<Rightarrow> if 0xDC00 \<le> r \<and> r \<le> 0xDFFF then Some (r, rest2) else None
             | None \<Rightarrow> None)
       else None
   | _ \<Rightarrow> None)"

definition unescape_u :: "string \<Rightarrow> (string \<times> string) option" where
  "unescape_u s = (case hex4 s of
     None \<Rightarrow> None
   | Some (r, rest) \<Rightarrow>
       if 0xD800 \<le> r \<and> r \<le> 0xDFFF
       then (case (if r \<le> 0xDBFF then low_surrogate rest else None) of
               Some (r2, rest2) \<Rightarrow> Some (utf8_encode (65536 + (r - 0xD800) * 1024 + (r2 - 0xDC00)), rest2)
             | None \<Rightarrow> Some (replacement_char, rest))
       else Some (utf8_encode r, rest))"

definition unescape :: "char \<Rightarrow> string \<Rightarrow> (string \<times> string) option" where
  "unescape c rest =
     (if c = CHR 0x22 \<or> c = CHR 0x5C \<or> c = CHR ''/'' then Some ([c], rest)
      else if c = CHR ''b'' then Some ([CHR 0x08], rest)
      else if c = CHR ''f'' then Some ([CHR 0x0C], rest)
      else if c = CHR ''n'' then Some ([CHR 0x0A], rest)
      else if c = CHR ''r'' then Some ([CHR 0x0D], rest)
      else if c = CHR ''t'' then Some ([CHR 0x09], rest)
      else if c = CHR ''u'' then unescape_u rest
      else None)"

section \<open>Strings\<close>

definition utf8_front :: "string \<Rightarrow> string \<times> string" where
  "utf8_front s = (let k = utf8_len s in
     if k = 0 then (replacement_char, drop 1 s) else (take k s, drop k s))"

text \<open>The text after an opening quote: the decoded string and what follows the closing quote.\<close>

fun str_chars :: "nat \<Rightarrow> string \<Rightarrow> (string \<times> string) option" where
  "str_chars 0 s = None"
| "str_chars (Suc n) [] = None"
| "str_chars (Suc n) (c # cs) =
     (if c = CHR 0x22 then Some ([], cs)
      else if c = CHR 0x5C then
        (case cs of
           [] \<Rightarrow> None
         | e # es \<Rightarrow> (case unescape e es of
             None \<Rightarrow> None
           | Some (out, rest) \<Rightarrow> map_option (apfst ((@) out)) (str_chars n rest)))
      else if byte_in 0 31 c then None
      else case utf8_front (c # cs) of (out, rest) \<Rightarrow> map_option (apfst ((@) out)) (str_chars n rest))"

section \<open>Values\<close>

text \<open>A JSON value as far as decoding into strings tells values apart.\<close>

datatype json = JNull | JBool | JNum | JStr string | JArr "json list" | JObj

fun skip_ws :: "string \<Rightarrow> string" where
  "skip_ws [] = []"
| "skip_ws (c # cs) = (if c \<in> set [CHR '' '', CHR 0x09, CHR 0x0A, CHR 0x0D] then skip_ws cs else c # cs)"

fun digits :: "string \<Rightarrow> string" where
  "digits [] = []"
| "digits (c # cs) = (if byte_in 48 57 c then digits cs else c # cs)"

definition digits1 :: "string \<Rightarrow> string option" where
  "digits1 s = (if digits s = s then None else Some (digits s))"

definition number_exp :: "string \<Rightarrow> string option" where
  "number_exp s = (case s of
     c # cs \<Rightarrow> if c \<in> set ''eE''
               then digits1 (case cs of x # xs \<Rightarrow> if x \<in> set ''+-'' then xs else cs | [] \<Rightarrow> [])
               else Some s
   | [] \<Rightarrow> Some [])"

definition number_frac :: "string \<Rightarrow> string option" where
  "number_frac s = (case s of
     c # cs \<Rightarrow> if c = CHR ''.'' then Option.bind (digits1 cs) number_exp else number_exp s
   | [] \<Rightarrow> Some [])"

definition number_int :: "string \<Rightarrow> string option" where
  "number_int s = (case s of
     c # cs \<Rightarrow> if c = CHR ''0'' then number_frac cs
               else if byte_in 49 57 c then number_frac (digits cs) else None
   | [] \<Rightarrow> None)"

definition number :: "string \<Rightarrow> string option" where
  "number s = (case s of c # cs \<Rightarrow> if c = CHR ''-'' then number_int cs else number_int s | [] \<Rightarrow> None)"

definition literal :: "string \<Rightarrow> json \<Rightarrow> string \<Rightarrow> (json \<times> string) option" where
  "literal t v s = (if take (length t) s = t then Some (v, drop (length t) s) else None)"

text \<open>
  Values, the elements after an opening bracket and the members after an opening brace; \<open>d\<close> counts
  the open brackets, of which encoding/json accepts 10000.
\<close>

definition maxNestingDepth :: nat where
  "maxNestingDepth = 10000"

fun parse_value :: "nat \<Rightarrow> nat \<Rightarrow> string \<Rightarrow> (json \<times> string) option"
  and parse_elements :: "nat \<Rightarrow> nat \<Rightarrow> string \<Rightarrow> (json list \<times> string) option"
  and parse_members :: "nat \<Rightarrow> nat \<Rightarrow> string \<Rightarrow> string option" where
  "parse_value 0 d s = None"
| "parse_value (Suc n) d s = (case skip_ws s of
     [] \<Rightarrow> None
   | c # cs \<Rightarrow>
       if c = CHR 0x22 then map_option (apfst JStr) (str_chars (length cs) cs)
       else if c = CHR ''['' then
         (if d \<ge> maxNestingDepth then None
          else case skip_ws cs of
            [] \<Rightarrow> None
          | x # xs \<Rightarrow> if x = CHR '']'' then Some (JArr [], xs)
                      else map_option (apfst JArr) (parse_elements n (Suc d) (x # xs)))
       else if c = CHR ''{'' then
         (if d \<ge> maxNestingDepth then None
          else case skip_ws cs of
            [] \<Rightarrow> None
          | x # xs \<Rightarrow> if x = CHR ''}'' then Some (JObj, xs)
                      else map_option (Pair JObj) (parse_members n (Suc d) (x # xs)))
       else if c = CHR ''n'' then literal ''null'' JNull (c # cs)
       else if c = CHR ''t'' then literal ''true'' JBool (c # cs)
       else if c = CHR ''f'' then literal ''false'' JBool (c # cs)
       else map_option (Pair JNum) (number (c # cs)))"
| "parse_elements 0 d s = None"
| "parse_elements (Suc n) d s = (case parse_value n d s of
     None \<Rightarrow> None
   | Some (v, rest) \<Rightarrow> (case skip_ws rest of
       [] \<Rightarrow> None
     | c # cs \<Rightarrow> if c = CHR '']'' then Some ([v], cs)
                 else if c = CHR '','' then map_option (apfst ((#) v)) (parse_elements n d cs)
                 else None))"
| "parse_members 0 d s = None"
| "parse_members (Suc n) d s = (case skip_ws s of
     [] \<Rightarrow> None
   | q # qs \<Rightarrow> if q \<noteq> CHR 0x22 then None
       else (case str_chars (length qs) qs of
         None \<Rightarrow> None
       | Some (key, rest) \<Rightarrow> (case skip_ws rest of
           [] \<Rightarrow> None
         | c # cs \<Rightarrow> if c \<noteq> CHR '':'' then None
             else (case parse_value n d cs of
               None \<Rightarrow> None
             | Some (v, rest2) \<Rightarrow> (case skip_ws rest2 of
                 [] \<Rightarrow> None
               | x # xs \<Rightarrow> if x = CHR ''}'' then Some xs
                           else if x = CHR '','' then parse_members n d xs
                           else None)))))"

definition json_parse :: "string \<Rightarrow> json option" where
  "json_parse s = (case parse_value (2 * length s + 2) 0 s of
     Some (v, rest) \<Rightarrow> if skip_ws rest = [] then Some v else None
   | None \<Rightarrow> None)"

text \<open>The slice of strings after \<open>json.Unmarshal\<close>, whether or not it returned an error.\<close>

fun json_element :: "json \<Rightarrow> string" where
  "json_element (JStr s) = s"
| "json_element _ = []"

definition json_unmarshal_strings :: "string \<Rightarrow> string list" where
  "json_unmarshal_strings s = (case json_parse s of
     Some (JArr vs) \<Rightarrow> map json_element vs
   | _ \<Rightarrow> [])"

text \<open>\<open>json.Marshal\<close> of a slice of strings; the only empty slice the source has is \<open>nil\<close>.\<close>

definition json_marshal_strings :: "string list \<Rightarrow> string" where
  "json_marshal_strings ss = (if ss = [] then ''null'' else json_strings ss)"

section \<open>What Marshal writes, Unmarshal reads\<close>

text \<open>The text with U+FFFD for every byte that starts no UTF-8 sequence (\<open>strings.ToValidUTF8\<close> byte by byte).\<close>

fun to_valid :: "nat \<Rightarrow> string \<Rightarrow> string" where
  "to_valid 0 s = []"
| "to_valid (Suc n) [] = []"
| "to_valid (Suc n) (c # cs) = (case utf8_front (c # cs) of (out, rest) \<Rightarrow> out @ to_valid n rest)"

definition valid_text :: "string \<Rightarrow> string" where
  "valid_text s = to_valid (length s) s"

lemma utf8_len_ascii [simp]: "byte_in 0 127 c \<Longrightarrow> utf8_len (c # cs) = Suc 0"
  by (simp add: utf8_len_def)

lemma utf8_front_ascii [simp]: "byte_in 0 127 c \<Longrightarrow> utf8_front (c # cs) = ([c], cs)"
  by (simp add: utf8_front_def)

lemma utf8_len_prefix:
  assumes "utf8_len s = k" "k > 0"
  shows "k \<le> length s \<and> utf8_len (take k s @ t) = k"
proof (cases s)
  case (Cons c cs)
  consider "cs = []" | x where "cs = [x]" | x y where "cs = [x, y]" | x y z zs where "cs = x # y # z # zs"
    by (metis neq_Nil_conv)
  then show ?thesis
    using assms unfolding Cons
    by cases (simp_all only: utf8_len_def list.case split: if_split_asm,
      auto simp: numeral_2_eq_2 numeral_3_eq_3 take_Suc_Cons)
qed (use assms in \<open>simp add: utf8_len_def\<close>)

lemma utf8_front_prefix:
  "utf8_len s = k \<Longrightarrow> k > 0 \<Longrightarrow> utf8_front (take k s @ t) = (take k s, t)"
  using utf8_len_prefix [of s k t] by (simp add: utf8_front_def Let_def)

lemma hex_val_digit: "d < 16 \<Longrightarrow> hex_val (hex_digit d) = Some d"
proof -
  have "list_all (\<lambda>d. hex_val (hex_digit d) = Some d) [0..<16]" by code_simp
  then show "d < 16 \<Longrightarrow> ?thesis" by (simp add: list_all_iff)
qed

lemma unescape_control:
  assumes "(of_char c :: nat) < 128"
  shows "unescape_u (CHR ''0'' # CHR ''0'' # hex_digit (of_char c div 16) # hex_digit (of_char c mod 16) # t) = Some ([c], t)"
proof -
  have "hex_val (CHR ''0'') = Some 0" by code_simp
  moreover have "of_char c div 16 < (16 :: nat)" "of_char c mod 16 < (16 :: nat)" using assms by simp_all
  moreover have "16 * (of_char c div 16) + of_char c mod 16 = (of_char c :: nat)" by simp
  ultimately show ?thesis
    using assms by (simp add: unescape_u_def hex4_def hex_val_digit utf8_encode_def byte_def)
qed

lemma escape_units:
  "unescape (CHR 0x22) t = Some ([CHR 0x22], t)" "unescape (CHR 0x5C) t = Some ([CHR 0x5C], t)"
  "unescape (CHR ''b'') t = Some ([CHR 0x08], t)" "unescape (CHR ''f'') t = Some ([CHR 0x0C], t)"
  "unescape (CHR ''n'') t = Some ([CHR 0x0A], t)" "unescape (CHR ''r'') t = Some ([CHR 0x0D], t)"
  "unescape (CHR ''t'') t = Some ([CHR 0x09], t)" "unescape (CHR ''u'') t = unescape_u t"
  by (simp_all add: unescape_def)

lemma str_chars_backslash:
  "unescape e es = Some (out, rest) \<Longrightarrow>
   str_chars (Suc m) (CHR 0x5C # e # es) = map_option (apfst ((@) out)) (str_chars m rest)"
  by simp

lemma str_chars_plain:
  "c \<noteq> CHR 0x22 \<Longrightarrow> c \<noteq> CHR 0x5C \<Longrightarrow> \<not> byte_in 0 31 c \<Longrightarrow> utf8_front (c # cs) = (out, rest) \<Longrightarrow>
   str_chars (Suc m) (c # cs) = map_option (apfst ((@) out)) (str_chars m rest)"
  by simp

lemma str_chars_json_esc:
  assumes "byte_in 0 127 c"
  shows "str_chars (Suc m) (json_esc c @ t) = map_option (apfst ((@) [c])) (str_chars m t)"
proof -
  have c: "(of_char c :: nat) < 128" using assms by (simp add: byte_in_def)
  consider "c = CHR 0x22 \<or> c = CHR 0x5C" | "c = CHR 0x08" | "c = CHR 0x0C" | "c = CHR 0x0A" | "c = CHR 0x0D" | "c = CHR 0x09"
    | "json_esc c = [CHR 0x5C, CHR ''u'', CHR ''0'', CHR ''0'', hex_digit (of_char c div 16), hex_digit (of_char c mod 16)]"
    | "json_esc c = [c]" "c \<noteq> CHR 0x22" "c \<noteq> CHR 0x5C" "\<not> byte_in 0 31 c"
    unfolding json_esc_def by argo
  then show ?thesis
  proof cases
    case 7
    have "unescape (CHR ''u'') (CHR ''0'' # CHR ''0'' # hex_digit (of_char c div 16) # hex_digit (of_char c mod 16) # t) = Some ([c], t)"
      unfolding escape_units by (rule unescape_control [OF c])
    from str_chars_backslash [OF this] show ?thesis unfolding 7 by simp
  next
    case 8
    show ?thesis unfolding 8(1) using str_chars_plain [OF 8(2-4), of t "[c]" t] assms by simp
  qed (auto simp: json_esc_def str_chars_backslash [OF escape_units(1)] str_chars_backslash [OF escape_units(2)]
      str_chars_backslash [OF escape_units(3)] str_chars_backslash [OF escape_units(4)] str_chars_backslash [OF escape_units(5)]
      str_chars_backslash [OF escape_units(6)] str_chars_backslash [OF escape_units(7)] simp del: str_chars.simps)
qed

lemma unescape_json_u:
  "unescape (CHR ''u'') (''fffd'' @ t) = Some (replacement_char, t)"
  "unescape (CHR ''u'') (''2028'' @ t) = Some ([CHR 0xE2, CHR 0x80, CHR 0xA8], t)"
  "unescape (CHR ''u'') (''2029'' @ t) = Some ([CHR 0xE2, CHR 0x80, CHR 0xA9], t)"
  by (simp_all add: unescape_def unescape_u_def hex4_def hex_val_def utf8_encode_def byte_def replacement_char_def
      char_of_def bit_0)

lemma str_chars_json_chars:
  "length s \<le> n \<Longrightarrow> length (json_chars n s) < m \<Longrightarrow>
   str_chars m (json_chars n s @ CHR 0x22 # rest) = Some (to_valid n s, rest)"
proof (induction n arbitrary: s m)
  case 0
  then show ?case by (cases m) simp_all
next
  case (Suc n)
  obtain m1 where m: "m = Suc m1" using Suc.prems(2) by (cases m) simp_all
  show ?case
  proof (cases s)
    case Nil
    then show ?thesis by (simp add: m)
  next
    case (Cons c cs)
    let ?k = "utf8_len (c # cs)" and ?q = "take (utf8_len (c # cs)) (c # cs)" and ?r = "drop (utf8_len (c # cs)) (c # cs)"
    note IH = Suc.IH [of _ m1]
    have cs: "length cs \<le> n" using Suc.prems(1) Cons by simp
    have r: "length ?r \<le> n" if "?k > 0" using that cs by simp
    consider "byte_in 0 127 c" | "\<not> byte_in 0 127 c" "?k = 0"
      | "\<not> byte_in 0 127 c" "?k > 0" "?q = [CHR 0xE2, CHR 0x80, CHR 0xA8]"
      | "\<not> byte_in 0 127 c" "?k > 0" "?q = [CHR 0xE2, CHR 0x80, CHR 0xA9]"
      | "\<not> byte_in 0 127 c" "?k > 0" "?q \<noteq> [CHR 0xE2, CHR 0x80, CHR 0xA8]" "?q \<noteq> [CHR 0xE2, CHR 0x80, CHR 0xA9]"
      by blast
    then show ?thesis
    proof cases
      case 1
      have e: "json_chars (Suc n) s = json_esc c @ json_chars n cs" "json_esc c \<noteq> []" using 1 Cons by (simp_all add: json_esc_def)
      from e Suc.prems(2) have "length (json_chars n cs) < m1" by (cases "json_esc c") (simp_all add: m)
      from IH [OF cs this] show ?thesis
        unfolding e(1) m append_assoc str_chars_json_esc [OF 1] using 1 Cons by simp
    next
      case 2
      have e: "json_chars (Suc n) s = CHR 0x5C # CHR ''u'' # ''fffd'' @ json_chars n cs" using 2 Cons by simp
      from e Suc.prems(2) have "length (json_chars n cs) < m1" by (simp add: m)
      from IH [OF cs this] show ?thesis
        unfolding e m append_Cons append_assoc str_chars_backslash [OF unescape_json_u(1) [unfolded append_Cons append_Nil]]
        using 2 Cons by (simp add: utf8_front_def Let_def del: str_chars.simps)
    next
      case 3
      have e: "json_chars (Suc n) s = CHR 0x5C # CHR ''u'' # ''2028'' @ json_chars n ?r" using 3 Cons by simp
      from e Suc.prems(2) have "length (json_chars n ?r) < m1" by (simp add: m)
      from IH [OF r [OF 3(2)] this] show ?thesis
        unfolding e m append_Cons append_assoc str_chars_backslash [OF unescape_json_u(2) [unfolded append_Cons append_Nil]]
        using 3 Cons by (simp add: utf8_front_def Let_def del: str_chars.simps)
    next
      case 4
      have e: "json_chars (Suc n) s = CHR 0x5C # CHR ''u'' # ''2029'' @ json_chars n ?r" using 4 Cons by simp
      from e Suc.prems(2) have "length (json_chars n ?r) < m1" by (simp add: m)
      from IH [OF r [OF 4(2)] this] show ?thesis
        unfolding e m append_Cons append_assoc str_chars_backslash [OF unescape_json_u(3) [unfolded append_Cons append_Nil]]
        using 4 Cons by (simp add: utf8_front_def Let_def del: str_chars.simps)
    next
      case 5
      have e: "json_chars (Suc n) s = ?q @ json_chars n ?r" using 5 Cons by (simp add: Let_def)
      obtain q where q: "?q = c # q" using 5(2) by (cases ?k) simp_all
      from e q Suc.prems(2) have "length (json_chars n ?r) < m1" by (simp add: m)
      note ih = IH [OF r [OF 5(2)] this]
      have "utf8_front (c # q @ json_chars n ?r @ CHR 0x22 # rest) = (?q, json_chars n ?r @ CHR 0x22 # rest)"
        using utf8_front_prefix [OF refl 5(2)] q by (metis append_Cons)
      moreover have "c \<noteq> CHR 0x22" "c \<noteq> CHR 0x5C" "\<not> byte_in 0 31 c" using 5(1) by (auto simp: byte_in_def)
      ultimately have "str_chars (Suc m1) (c # q @ json_chars n ?r @ CHR 0x22 # rest)
          = map_option (apfst ((@) ?q)) (str_chars m1 (json_chars n ?r @ CHR 0x22 # rest))"
        by (rule str_chars_plain [rotated 3])
      then show ?thesis
        unfolding e m append_assoc q append_Cons ih using 5 Cons q by (simp add: utf8_front_def Let_def del: str_chars.simps)
    qed
  qed
qed

lemma parse_value_string:
  "parse_value (Suc n) d (json_string s @ rest) = Some (JStr (valid_text s), rest)"
proof -
  have "length (json_chars (length s) s) < length (json_chars (length s) s @ CHR 0x22 # rest)" by simp
  from str_chars_json_chars [OF order_refl this] show ?thesis
    by (simp add: json_string_def valid_text_def del: str_chars.simps)
qed

lemma parse_elements_strings:
  "ss \<noteq> [] \<Longrightarrow> Suc (length ss) \<le> n \<Longrightarrow>
   parse_elements n d (Join '','' (map json_string ss) @ CHR '']'' # rest) = Some (map (JStr \<circ> valid_text) ss, rest)"
proof (induction ss arbitrary: n)
  case (Cons s ss)
  obtain n1 where n: "n = Suc (Suc n1)" using Cons.prems(2) by (cases n; cases "n - 1") simp_all
  show ?case
  proof (cases ss)
    case Nil
    then show ?thesis using parse_value_string [of n1 d s "CHR '']'' # rest"] by (simp add: n)
  next
    case (Cons t ts)
    have "parse_elements (Suc n1) d (Join '','' (map json_string ss) @ CHR '']'' # rest) = Some (map (JStr \<circ> valid_text) ss, rest)"
      using Cons.IH [of "Suc n1"] Cons Cons.prems n by simp
    then show ?thesis
      using parse_value_string [of n1 d s "CHR '','' # Join '','' (map json_string ss) @ CHR '']'' # rest"] Cons
      by (simp add: n)
  qed
qed simp

text \<open>A text that is valid UTF-8 is its own valid text.\<close>

fun is_utf8 :: "nat \<Rightarrow> string \<Rightarrow> bool" where
  "is_utf8 n [] = True"
| "is_utf8 0 (c # cs) = False"
| "is_utf8 (Suc n) (c # cs) = (utf8_len (c # cs) > 0 \<and> is_utf8 n (drop (utf8_len (c # cs)) (c # cs)))"

lemma to_valid_utf8: "length s \<le> n \<Longrightarrow> is_utf8 n s \<Longrightarrow> to_valid n s = s"
proof (induction n s rule: is_utf8.induct)
  case (1 n)
  then show ?case by (cases n) simp_all
next
  case (3 n c cs)
  then have "Suc (length cs) - utf8_len (c # cs) \<le> n" by (simp add: le_diff_conv)
  with 3 have "to_valid n (drop (utf8_len (c # cs)) (c # cs)) = drop (utf8_len (c # cs)) (c # cs)" by simp
  with 3 show ?case by (simp add: utf8_front_def Let_def)
qed simp

lemma valid_text_ascii: "list_all (byte_in 0 127) s \<Longrightarrow> valid_text s = s"
  unfolding valid_text_def by (induction s) simp_all

lemma json_parse_strings:
  assumes "ss \<noteq> []"
  shows "json_parse (json_strings ss) = Some (JArr (map (JStr \<circ> valid_text) ss))"
proof -
  let ?body = "Join '','' (map json_string ss) @ CHR '']'' # []"
  have "length ss \<le> length (Join '','' (map json_string ss))"
  proof (induction ss)
    case (Cons s ss)
    then show ?case by (cases ss) (simp_all add: json_string_def)
  qed simp
  then have "Suc (length ss) \<le> 2 * length (json_strings ss) + 1" by (simp add: json_strings_def)
  from parse_elements_strings [OF assms this, of "Suc 0" "[]"]
  have el: "parse_elements (2 * length (json_strings ss) + 1) (Suc 0) ?body = Some (map (JStr \<circ> valid_text) ss, [])" .
  obtain s ts where "ss = s # ts" using assms by (cases ss) simp_all
  then obtain bs where b: "?body = CHR 0x22 # bs" by (cases ts) (simp_all add: json_string_def)
  then have "skip_ws ?body = ?body" by simp
  then have "parse_value (Suc (2 * length (json_strings ss) + 1)) 0 (json_strings ss) = Some (JArr (map (JStr \<circ> valid_text) ss), [])"
    using el b by (simp add: json_strings_def maxNestingDepth_def)
  then show ?thesis by (simp add: json_parse_def)
qed

lemma unmarshal_marshal_lemma: "json_unmarshal_strings (json_marshal_strings ss) = map valid_text ss"
proof (cases "ss = []")
  case True
  have "json_unmarshal_strings ''null'' = []" by code_simp
  then show ?thesis by (simp add: True json_marshal_strings_def)
next
  case False
  then show ?thesis by (simp add: json_marshal_strings_def json_unmarshal_strings_def json_parse_strings)
qed

end
