(* ===== verification/Containers.thy ===== *)
theory Containers
  imports Pods CDI Json_Decode
begin

text \<open>
  CreateContainer and what a container is made of (runtime_mapper.go, privileged.go): the container
  is created in its pod, given its CDI mounts and hooks, and configured; a privileged one runs the
  sandbox command itself and leaves its own command to a child that StartContainer makes. The
  parser of the spec files and the one of a Kubernetes pod (\<open>corev1.Pod\<close>) are parameters.
\<close>

section \<open>Secrets to wait for\<close>

text \<open>
  What the handler reads of the pod in the annotation "last-applied-configuration": the volume
  mounts (name, path) of each container, and the volumes with the item paths of a secret. It is
  what \<open>json.Unmarshal\<close> leaves in the empty pod, also after an error.
\<close>

record applied_pod =
  ap_Containers :: "(string \<times> string) list list"
  ap_Volumes :: "(string \<times> string list option) list"

fun volume_mounts :: "(string \<times> string) list \<Rightarrow> (string, string) gomap \<Rightarrow> (string, string) gomap" where
  "volume_mounts [] m = m"
| "volume_mounts ((name, path) # ms) m = volume_mounts ms (mset_at name path m)"

fun secret_pathes :: "(string, string) gomap \<Rightarrow> (string \<times> string list option) list
    \<Rightarrow> (string, string list) gomap \<Rightarrow> (string, string list) gomap" where
  "secret_pathes mounts [] wp = wp"
| "secret_pathes mounts ((name, None) # vs) wp = secret_pathes mounts vs wp"
| "secret_pathes mounts ((name, Some items) # vs) wp =
     (case mget mounts name of
        Some volPath \<Rightarrow> secret_pathes mounts vs (mset_at volPath items wp)
      | None \<Rightarrow> secret_pathes mounts vs wp)"

definition wait_pathes :: "(string \<Rightarrow> applied_pod) \<Rightarrow> (string, string) gomap \<Rightarrow> (string, string list) gomap" where
  "wait_pathes unpod annotations =
     (let wp = [(''/var/run/secrets/kubernetes.io/serviceaccount'', [''/ca.crt'', ''/token'', ''/namespace''])] in
      case mget annotations ''kubectl.kubernetes.io/last-applied-configuration'' of
        None \<Rightarrow> wp
      | Some lastApplied \<Rightarrow>
          let lastPod = unpod lastApplied
          in secret_pathes (volume_mounts (concat (ap_Containers lastPod)) []) (ap_Volumes lastPod) wp)"

section \<open>The sandbox command (privileged.go)\<close>

definition sandboxInPriv :: string where
  "sandboxInPriv = ''/sandbox_root''"

definition sandbox_command :: "string \<Rightarrow> string" where
  "sandbox_command cmd = path_Join [sandboxInPriv, TrimSuffix (TrimPrefix (TrimSpace cmd) [CHR 0x27]) [CHR 0x27]]"

definition getSandboxCommand :: "env \<Rightarrow> string \<Rightarrow> string prog" where
  "getSandboxCommand E podID = do {
     r \<leftarrow> GetProperty E podID ''command'';
     ret (sandbox_command (case r of Inl e \<Rightarrow> [] | Inr s \<Rightarrow> s))
   }"

section \<open>CreateContainer\<close>

text \<open>CDI mounts and hooks of the created container.\<close>

definition edit_container :: "env \<Rightarrow> string \<Rightarrow> cdiEdits \<Rightarrow> unit res prog" where
  "edit_container E i cdi =
     (if e_Mounts cdi \<noteq> [] \<or> e_Hooks cdi \<noteq> []
      then call_or id (GetProperty E i ''root_path'') (\<lambda>rootPath.
           step_or id (linkCDIMounts E i rootPath (e_Mounts cdi)) (\<lambda>u.
           runCDIHooks E i rootPath (e_Hooks cdi)))
      else ret (Ok ()))"

definition main_command :: "env \<Rightarrow> string \<Rightarrow> TContainerSpec \<Rightarrow> ContainerConfig \<Rightarrow> TDockerImage \<Rightarrow> TContainerSpec res prog" where
  "main_command E podID spec cfg img =
     (if cc_Privileged cfg
      then do { cmd \<leftarrow> getSandboxCommand E podID; ret (Ok (spec\<lparr>CommandArgv := Some [cmd]\<rparr>)) }
      else prepareCommand E spec (cc_Command cfg) (cc_Args cfg) (ConfigCmd img) False)"

text \<open>The command kept for the privileged child; a failure to prepare it is only logged.\<close>

definition child_command :: "env \<Rightarrow> string \<Rightarrow> TContainerSpec \<Rightarrow> ContainerConfig \<Rightarrow> TDockerImage \<Rightarrow> string list res prog" where
  "child_command E i spec cfg img =
     (if cc_Privileged cfg
      then do {
        r \<leftarrow> prepareCommand E ((new_spec i)\<lparr>Env := Env spec\<rparr>) (cc_Command cfg) (cc_Args cfg) (ConfigCmd img) False;
        ret (case r of
               Ok ctSpec \<Rightarrow> Ok (case CommandArgv ctSpec of Some argv \<Rightarrow> argv | None \<Rightarrow> [])
             | Err e \<Rightarrow> Ok []
             | Panic s \<Rightarrow> Panic s)
      }
      else ret (Ok []))"

text \<open>The rest of the handler once Porto has the container.\<close>

definition configure_container :: "env \<Rightarrow> string \<Rightarrow> string \<Rightarrow> string \<Rightarrow> ContainerConfig \<Rightarrow> TDockerImage \<Rightarrow> cdiEdits
    \<Rightarrow> string res prog" where
  "configure_container E i podID logPath cfg img cdi =
     step_or_destroy E i (FmtV ''CreateContainer'') (edit_container E i cdi) (\<lambda>u.
     let spec = prepareEnv (new_spec i) (cc_Envs cfg @ e_Envs cdi) img in
     step_or_destroy E i (FmtV ''CreateContainer'') (main_command E podID spec cfg img) (\<lambda>spec.
     step_or id (child_command E i spec cfg img) (\<lambda>privCmds.
     case ImageId img of
       None \<Rightarrow> ret (Panic ''nil pointer dereference'')
     | Some imgId \<Rightarrow>
         let spec = prepareContainerLabels json_marshal_strings spec cfg imgId logPath privCmds (cc_Privileged cfg) in
         step_or_destroy E i (FmtV ''CreateContainer'') (lift_call (UpdateFromSpec E spec False)) (\<lambda>u.
         step_or id (removePortoPrefix E i) (\<lambda>cid. ret (Ok (toContainerCriID cid)))))))"

definition initial_spec :: "string \<Rightarrow> bool \<Rightarrow> TContainerSpec" where
  "initial_spec i privileged =
     (if privileged
      then (new_spec i)\<lparr>Bind := Some [(''/'', sandboxInPriv)], Capabilities := Some modCaps\<rparr>
      else (new_spec i)\<lparr>Capabilities := Some rmModCaps\<rparr>)"

text \<open>
  The devices of the container are given to the pod first, whose name may be the one of a
  privileged child; then the container is created with them.
\<close>

definition place_container :: "env \<Rightarrow> string \<Rightarrow> string \<Rightarrow> string \<Rightarrow> string \<Rightarrow> ContainerConfig \<Rightarrow> TDockerImage
    \<Rightarrow> (string, string list) gomap \<Rightarrow> cdiEdits \<Rightarrow> TContainerSpec \<Rightarrow> TVolumeSpec list \<Rightarrow> string res prog" where
  "place_container E podSandboxId i podID logPath cfg img waitPathes cdi spec volumes = do {
     volumes \<leftarrow> prepareContainerMounts E i volumes (cc_Mounts cfg) waitPathes;
     let spec = prepareContainerDevices spec (cc_Devices cfg @ e_Devices cdi);
     portoSandboxId \<leftarrow> generateFullContainerName E podSandboxId;
     let sandboxUpdateSpec = (new_spec portoSandboxId)\<lparr>Devices := Devices spec, DevicesExplicit := Some True\<rparr>;
     call_or (FmtV ''CreateContainer'') (UpdateFromSpec E sandboxUpdateSpec False) (\<lambda>u.
     call_or (FmtV ''CreateContainer'') (CreateFromSpec E spec volumes False) (\<lambda>u.
     configure_container E i podID logPath cfg img cdi))
   }"

definition CreateContainer :: "env \<Rightarrow> struct_tags \<Rightarrow> (string \<Rightarrow> goerr + cdiSpec) \<Rightarrow> (string \<Rightarrow> applied_pod)
    \<Rightarrow> string \<Rightarrow> ContainerConfig \<Rightarrow> PodSandboxConfig \<Rightarrow> string res prog" where
  "CreateContainer E tags yaml unpod podSandboxId cfg sandbox = do {
     podID \<leftarrow> addPortoPrefix E podSandboxId;
     containerID \<leftarrow> createID E (cm_Name (cc_Metadata cfg));
     let i = Join ''/'' [podID, containerID];
     call_or (FmtV ''CreateContainer'') (DockerImageStatus E (cc_Image cfg) (Place (Cfg E))) (\<lambda>img.
     step_or (FmtV ''Failed to prepare resources'')
       (prepareResources E tags (initial_spec i (cc_Privileged cfg)) (cc_Resources cfg)) (\<lambda>spec.
     step_or (FmtV ''CreateContainer'') (prepareContainerLogs E spec (cc_Privileged cfg)) (\<lambda>(spec, logPath).
     let spec = prepareContainerResolvConf spec (pc_Dns sandbox) in
     step_or (FmtV ''CreateContainer'') (prepareRoot E spec [] (CHR ''/'' # containerID) (cc_Image cfg)) (\<lambda>(spec, volumes).
     let waitPathes = wait_pathes unpod (pc_Annotations sandbox) in
     step_or (FmtV ''CreateContainer'')
       (resolveCDIDevices E yaml (cdiRequestedDevices (cc_Annotations cfg)) (SpecDirs (Cfg E))) (\<lambda>cdi.
     place_container E podSandboxId i podID logPath cfg img waitPathes cdi spec volumes)))))
   }"

section \<open>Quiet steps\<close>

lemma quiet_prepareContainerLogs:
  "emits (prepareContainerLogs E spec priv) (\<lambda>r es. quiet es \<and> (case r of Ok sl \<Rightarrow> Name (fst sl) = Name spec | _ \<Rightarrow> True))"
  unfolding prepareContainerLogs_def Let_def MkdirAll_def CreateFile_def Dup_def
  by (auto intro!: emit_rules)

lemma quiet_stat_all: "emits (stat_all E i hp fs) (\<lambda>r es. quiet es)"
  by (induction fs) (auto simp: Stat_def intro!: emit_rules split: sum.split)

lemma quiet_await_mount: "emits (await_mount E i ps m) (\<lambda>r es. quiet es)"
proof -
  have rest: "emits (case miss of Some e \<Rightarrow> ret (m, Some e)
     | None \<Rightarrow>
         if ParentContainer (Cfg E) = [] then ret (m, None)
         else do {
           rnd \<leftarrow> RandRead E;
           case rnd of
             Inl e \<Rightarrow> ret (m, Some (Errorf ''Failed to generate kube-api-access name'' []))
           | Inr randBytes \<Rightarrow>
               let hostPathTmp = path_Join [Dir (HostPath m), ''kube-api-access-'' @ hexEncode randBytes] in do {
                 cp \<leftarrow> CopyDir E hostPathTmp (HostPath m);
                 case cp of
                   Inl e \<Rightarrow> ret (m, Some (FmtV ''Failed to copy'' e))
                 | Inr u \<Rightarrow> do {
                     x \<leftarrow> mod_world (\<lambda>w. w\<lparr>w_tmpfs := mset_at (path_Join [i, ContainerPath m]) hostPathTmp (w_tmpfs w)\<rparr>);
                     ret (m\<lparr>HostPath := hostPathTmp\<rparr>, None)
                   }
               }
         }) (\<lambda>r es. quiet es)" for miss
    unfolding RandRead_def CopyDir_def Let_def by (auto intro!: emit_rules split: option.split sum.split)
  show ?thesis
    unfolding await_mount_def by (rule emits_bind [OF quiet_stat_all]) (simp add: emits_mono [OF rest])
qed

lemma quiet_add_mounts: "emits (add_mounts E i wp vs ms) (\<lambda>r es. quiet es)"
proof (induction ms arbitrary: vs)
  case (Cons m ms)
  have "emits (case mget wp (ContainerPath (clean_mount m)) of None \<Rightarrow> ret (clean_mount m)
      | Some pathes \<Rightarrow> retry (await_mount E i pathes) 1000 3 (clean_mount m)) (\<lambda>r es. quiet es)"
    by (simp add: quiet_retry quiet_await_mount split: option.split)
  then show ?case
    using Cons.IH by (auto simp: Let_def intro!: emits_bind emits_mono [OF Cons.IH])
qed simp

lemma quiet_prepareContainerMounts: "emits (prepareContainerMounts E i vs ms wp) (\<lambda>r es. quiet es)"
  unfolding prepareContainerMounts_def by (rule emits_bind [OF quiet_add_mounts]) simp

lemma quiet_generateFullContainerName: "emits (generateFullContainerName E i) (\<lambda>r es. quiet es)"
proof -
  have "emits (do { portoid \<leftarrow> addPortoPrefix E i; r2 \<leftarrow> GetProperty E portoid ''state''; ret portoid }) (\<lambda>r es. quiet es)"
    unfolding GetProperty_def by (rule emits_bind [OF quiet_addPortoPrefix]) (auto intro!: emit_rules)
  then show ?thesis
    unfolding generateFullContainerName_def Let_def GetProperty_def
    by (auto intro!: emit_rules split: sum.split)
qed

lemma quiet_runCDIHook: "emits (runCDIHook E h st) (\<lambda>r es. quiet es)"
  unfolding runCDIHook_def RunHook_def by (auto intro!: emit_rules)

lemma quiet_run_stage: "emits (run_stage E st js hs) (\<lambda>r es. quiet es)"
  by (induction hs) (auto intro!: emits_step_or [OF quiet_runCDIHook] intro: emits_mono)

lemma quiet_run_stages: "emits (run_stages E sts js hs) (\<lambda>r es. quiet es)"
  by (induction sts) (auto intro!: emits_step_or [OF quiet_run_stage] intro: emits_mono)

lemma quiet_runCDIHooks: "emits (runCDIHooks E i root hs) (\<lambda>r es. quiet es)"
proof -
  have "emits (call_or id (WriteFile E p d) (\<lambda>u. run_stages E sts js hs)) (\<lambda>r es. quiet es)" for p d sts js
    unfolding WriteFile_def by (rule emits_call_or_ask) (simp_all add: quiet_run_stages)
  then show ?thesis
    unfolding runCDIHooks_def MkdirTemp_def RemoveAll_def
    by (auto intro!: emit_rules emits_bind)
qed

lemma quiet_cdiMountTarget: "emits (cdiMountTarget E root p) (\<lambda>r es. quiet es)"
  unfolding cdiMountTarget_def resolveInRoot_def Lstat_def Let_def
  by (rule emits_step_or [OF emits_look [where Q = "\<lambda>r es. es = []"]])
    (auto intro!: emit_rules split: sum.split)

lemma quiet_link_mounts: "emits (link_mounts E i root linked ms) (\<lambda>r es. quiet es)"
proof (induction ms arbitrary: linked)
  case (Cons m ms)
  have "emits (call_or g (CreateVolume E [] props) (\<lambda>vol. do {
       r \<leftarrow> LinkVolumeTarget E vol i target False ro;
       u \<leftarrow> UnlinkVolume E vol [];
       case r of Inl e \<Rightarrow> ret (Err (h e)) | Inr x \<Rightarrow> link_mounts E i root (target # linked) ms })) (\<lambda>r es. quiet es)"
    for g props target ro h
    unfolding CreateVolume_def LinkVolumeTarget_def UnlinkVolume_def
    by (auto intro!: emit_rules Cons.IH split: sum.split)
  then show ?case
    using Cons.IH by (auto intro!: emits_step_or [OF quiet_cdiMountTarget] intro: emits_mono)
qed simp

lemma quiet_edit_container: "emits (edit_container E i cdi) (\<lambda>r es. quiet es)"
proof -
  have "emits (step_or id (linkCDIMounts E i root ms) (\<lambda>u. runCDIHooks E i root hs)) (\<lambda>r es. quiet es)" for root ms hs
    unfolding linkCDIMounts_def
    by (rule emits_step_or [OF quiet_link_mounts]) (auto intro: emits_mono [OF quiet_runCDIHooks])
  then show ?thesis
    unfolding edit_container_def GetProperty_def by (auto intro!: emit_rules)
qed

lemma quiet_getSandboxCommand: "emits (getSandboxCommand E podID) (\<lambda>r es. quiet es)"
  unfolding getSandboxCommand_def GetProperty_def by (auto intro!: emit_rules)

lemma quiet_main_command: "emits (main_command E podID spec cfg img) (\<lambda>r es. quiet es)"
  unfolding main_command_def
  by (auto intro!: emits_bind [OF quiet_getSandboxCommand] simp: quiet_prepareCommand)

text \<open>Steps that do not fail: they may only panic.\<close>

definition no_Err :: "'a res \<Rightarrow> bool" where
  "no_Err r \<longleftrightarrow> (\<forall>e. r \<noteq> Err e)"

lemma no_Err_simps [simp]: "no_Err (Ok v)" "no_Err (Panic s)" "\<not> no_Err (Err e)"
  by (simp_all add: no_Err_def)

lemma quiet_child_command: "emits (child_command E i spec cfg img) (\<lambda>r es. quiet es \<and> no_Err r)"
proof -
  have "emits (do { r \<leftarrow> prepareCommand E sp c a im b;
     ret (case r of Ok ct \<Rightarrow> Ok (f ct) | Err e \<Rightarrow> Ok [] | Panic s \<Rightarrow> Panic s) }) (\<lambda>r es. quiet es \<and> no_Err r)"
    for sp c a im b and f :: "TContainerSpec \<Rightarrow> string list"
    by (rule emits_bind [OF quiet_prepareCommand]) (simp split: res.split)
  then show ?thesis by (simp add: child_command_def)
qed

lemma removePortoPrefix_no_Err: "emits (removePortoPrefix E i) (\<lambda>r es. quiet es \<and> no_Err r)"
  unfolding removePortoPrefix_def
  by (rule emits_bind [OF quiet_getParentCnt]) (simp add: remove_prefix_def)

lemma quiet_resolveCDIDevices: "emits (resolveCDIDevices E yaml req dirs) (\<lambda>r es. quiet es)"
  unfolding resolveCDIDevices_def loadCDISpecs_def
  by (auto intro!: emits_step_or [OF emits_look [where Q = "\<lambda>r es. es = []"]])

lemma resolvConf_Name [simp]: "Name (prepareContainerResolvConf spec dns) = Name spec"
  by (simp add: prepareContainerResolvConf_def Let_def split: option.split)

lemma initial_spec_Name [simp]: "Name (initial_spec i priv) = i"
  by (simp add: initial_spec_def new_spec_def)

text \<open>
  The handler from the back: what follows the creation, the creation, the preparation up to the CDI
  devices, and the rest. The contract on the creation is any; its container is \<open>n\<close>.
\<close>

context creating_handler
begin

lemma after_sure_step:
  assumes "emits m (\<lambda>r es. quiet es \<and> no_Err r)" "\<And>v. emits (k v) F"
  shows "emits (step_or g m k) F"
  by (rule emits_step_or [OF assms(1)])
    (auto simp: after_panic intro: emits_mono [OF assms(2) after_front])

lemma configured: "emits (configure_container E n podID logPath cfg img cdi) F"
proof -
  have last: "emits (step_or id (removePortoPrefix E n) (\<lambda>cid. ret (Ok (f cid)))) F" for f :: "string \<Rightarrow> string"
    by (rule after_sure_step [OF removePortoPrefix_no_Err]) (simp add: after_ok)
  have update: "emits (step_or_destroy E n g (lift_call (UpdateFromSpec E sp False))
      (\<lambda>u. step_or id (removePortoPrefix E n) (\<lambda>cid. ret (Ok (toContainerCriID cid))))) F" for g sp
    by (rule after_step [OF quiet_lift_Update last])
  have labels: "emits (case ImageId img of None \<Rightarrow> ret (Panic ''nil pointer dereference'')
     | Some imgId \<Rightarrow>
         let spec = prepareContainerLabels json_marshal_strings spec cfg imgId logPath privCmds (cc_Privileged cfg) in
         step_or_destroy E n (FmtV ''CreateContainer'') (lift_call (UpdateFromSpec E spec False)) (\<lambda>u.
         step_or id (removePortoPrefix E n) (\<lambda>cid. ret (Ok (toContainerCriID cid))))) F" for spec privCmds
    using update by (simp add: Let_def after_panic split: option.split)
  show ?thesis
    unfolding configure_container_def
    by (rule after_step [OF quiet_edit_container], unfold Let_def,
        rule after_step [OF quiet_main_command], rule after_sure_step [OF quiet_child_command],
        rule labels [unfolded Let_def])
qed

lemma placed:
  assumes "Name spec = n"
  shows "emits (place_container E podSandboxId n podID logPath cfg img wp cdi spec volumes) P"
proof -
  have create: "emits (call_or g (CreateFromSpec E (prepareContainerDevices spec ds) vs False)
      (\<lambda>u. configure_container E n podID logPath cfg img cdi)) P" for g ds vs
    using assms by (intro create) (simp_all add: prepareContainerDevices_def configured)
  have update: "emits (call_or h (UpdateFromSpec E up False) (\<lambda>u. call_or g (CreateFromSpec E (prepareContainerDevices spec ds) vs False)
      (\<lambda>u. configure_container E n podID logPath cfg img cdi))) P" for g h ds vs up
    unfolding UpdateFromSpec_def by (rule call) (simp_all add: create)
  show ?thesis
    unfolding place_container_def Let_def
    by (intro bind [OF quiet_prepareContainerMounts] bind [OF quiet_generateFullContainerName] update)
qed

lemma from_cdi:
  assumes "Name spec = n"
  shows "emits (step_or g (resolveCDIDevices E yaml req dirs)
     (\<lambda>cdi. place_container E podSandboxId n podID logPath cfg img wp cdi spec volumes)) P"
  by (rule step [where S = "\<lambda>r. True"])
    (simp_all add: quiet_resolveCDIDevices placed assms)

lemma from_root:
  assumes "Name spec = n"
  shows "emits (step_or g (prepareRoot E spec [] rp im) (\<lambda>(spec, volumes).
     step_or h (resolveCDIDevices E yaml req dirs)
       (\<lambda>cdi. place_container E podSandboxId n podID logPath cfg img wp cdi spec volumes))) P"
proof (rule step [OF quiet_prepareRoot])
  fix sv :: "TContainerSpec \<times> TVolumeSpec list" assume "case Ok sv of Ok sv \<Rightarrow> Name (fst sv) = Name spec | _ \<Rightarrow> True"
  then have "Name (fst sv) = n" using assms by simp
  then show "emits (case sv of (spec, volumes) \<Rightarrow> step_or h (resolveCDIDevices E yaml req dirs)
      (\<lambda>cdi. place_container E podSandboxId n podID logPath cfg img wp cdi spec volumes)) P"
    by (cases sv) (simp add: from_cdi)
qed

lemma from_logs:
  assumes "Name spec = n"
  shows "emits (step_or g (prepareContainerLogs E spec priv) (\<lambda>(spec, logPath).
     step_or h (prepareRoot E (prepareContainerResolvConf spec dns) [] rp im) (\<lambda>(spec, volumes).
     step_or k (resolveCDIDevices E yaml req dirs)
       (\<lambda>cdi. place_container E podSandboxId n podID logPath cfg img wp cdi spec volumes)))) P"
proof (rule step [OF quiet_prepareContainerLogs])
  fix sl :: "TContainerSpec \<times> string" assume "case Ok sl of Ok sl \<Rightarrow> Name (fst sl) = Name spec | _ \<Rightarrow> True"
  then have "Name (fst sl) = n" using assms by simp
  then show "emits (case sl of (spec, logPath) \<Rightarrow>
     step_or h (prepareRoot E (prepareContainerResolvConf spec dns) [] rp im) (\<lambda>(spec, volumes).
     step_or k (resolveCDIDevices E yaml req dirs)
       (\<lambda>cdi. place_container E podSandboxId n podID logPath cfg img wp cdi spec volumes))) P"
    by (cases sl) (simp add: from_root)
qed

text \<open>The whole handler once its name is known.\<close>

lemma from_image:
  "emits (call_or (FmtV ''CreateContainer'') (DockerImageStatus E (cc_Image cfg) (Place (Cfg E))) (\<lambda>img.
     step_or (FmtV ''Failed to prepare resources'')
       (prepareResources E tags (initial_spec n (cc_Privileged cfg)) (cc_Resources cfg)) (\<lambda>spec.
     step_or (FmtV ''CreateContainer'') (prepareContainerLogs E spec (cc_Privileged cfg)) (\<lambda>(spec, logPath).
     step_or (FmtV ''CreateContainer'') (prepareRoot E (prepareContainerResolvConf spec dns) [] rp (cc_Image cfg)) (\<lambda>(spec, volumes).
     step_or (FmtV ''CreateContainer'') (resolveCDIDevices E yaml req dirs) (\<lambda>cdi.
     place_container E podSandboxId n podID logPath cfg img wp cdi spec volumes)))))) P"
  unfolding DockerImageStatus_def
proof (rule call)
  fix img :: TDockerImage
  show "emits (step_or (FmtV ''Failed to prepare resources'')
       (prepareResources E tags (initial_spec n (cc_Privileged cfg)) (cc_Resources cfg)) (\<lambda>spec.
     step_or (FmtV ''CreateContainer'') (prepareContainerLogs E spec (cc_Privileged cfg)) (\<lambda>(spec, logPath).
     step_or (FmtV ''CreateContainer'') (prepareRoot E (prepareContainerResolvConf spec dns) [] rp (cc_Image cfg)) (\<lambda>(spec, volumes).
     step_or (FmtV ''CreateContainer'') (resolveCDIDevices E yaml req dirs) (\<lambda>cdi.
     place_container E podSandboxId n podID logPath cfg img wp cdi spec volumes))))) P"
    by (rule step [OF quiet_prepareResources], rule from_logs) simp
qed simp_all

end

text \<open>
  What CreateContainer leaves behind, whatever the outside answers; the property is in Panics, with
  the one case in which the handler panics.
\<close>

lemma guarded_CreateContainer:
  "emits (CreateContainer E tags yaml unpod podSandboxId cfg sandbox) guarded"
  unfolding CreateContainer_def Let_def
  by (intro gd.bind [OF quiet_addPortoPrefix] gd.bind [OF quiet_createID] gch.from_image)

end
