(* ===== verification/Container_Ops.thy ===== *)
theory Container_Ops
  imports Containers
begin

text \<open>
  What happens to a created container (runtime_mapper.go, privileged.go): starting it and its
  privileged child, stopping and removing it, its status and the listing, and ExecSync, which runs
  a command in a container of its own below it.
\<close>

section \<open>The privileged child (privileged.go)\<close>

definition createPrivCnt :: "env \<Rightarrow> string \<Rightarrow> string list \<Rightarrow> unit res prog" where
  "createPrivCnt E parent cmds =
     (let i = path_Join [parent, privCntName] in do {
        r \<leftarrow> GetProperty E i ''state'';
        let st = (case r of Inl e \<Rightarrow> [] | Inr s \<Rightarrow> s);
        if st = ''meta'' \<or> st = ''running'' \<or> st = ''stopped'' then ret (Ok ())
        else
          let privCntSpec = (new_spec i)\<lparr>Capabilities := Some modCaps, Isolate := Some False, CommandArgv := Some cmds\<rparr> in
          call_or (FmtV ''createPrivCnt'') (CreateFromSpec E privCntSpec [] False) (\<lambda>u.
          call_or (FmtV ''createPrivCnt: get env'') (GetProperty E parent ''env'') (\<lambda>env.
          call_or (FmtV ''createPrivCnt: set env'') (SetProperty E i ''env'' env) (\<lambda>u.
          call_or (FmtV ''createPrivCnt: failed to start privileged container'') (UpdateFromSpec E privCntSpec True) (\<lambda>u.
          ret (Ok ())))))
      })"

section \<open>StartContainer, StopContainer, RemoveContainer\<close>

text \<open>After the start: the remounts, whose failure is only logged, and the child of a privileged container.\<close>

definition started_container :: "env \<Rightarrow> string \<Rightarrow> unit res prog" where
  "started_container E i = do {
     rp \<leftarrow> GetProperty E i ''root_pid'';
     let rPid = fst (Atoi (case rp of Inl e \<Rightarrow> [] | Inr s \<Rightarrow> s));
     x \<leftarrow> Remount E rPid ''/proc/sys'';
     l \<leftarrow> GetProperty E i ''labels'';
     case l of
       Inl e \<Rightarrow> ret (Ok ())
     | Inr portoLabels \<Rightarrow>
         step_or id (ret (convertFromPortoLabels portoLabels)) (\<lambda>(labels, annotations).
         if mget labels ''priv'' = Some ''true''
         then do {
           x \<leftarrow> Remount E rPid ''/sys'';
           step_or (FmtV ''failed to create or configure privileged container'')
             (createPrivCnt E i (json_unmarshal_strings (mget_str labels ''privCmd''))) (\<lambda>u. ret (Ok ()))
         }
         else ret (Ok ()))
   }"

definition StartContainer :: "env \<Rightarrow> string \<Rightarrow> unit res prog" where
  "StartContainer E cid = do {
     parentCnt \<leftarrow> getParentCnt E;
     if \<not> isContainer cid parentCnt then ret (Err (Errorf ''specified ID belongs to pod'' [cid]))
     else do {
       i \<leftarrow> generateFullContainerName E cid;
       call_or (FmtV ''StartContainer'') (Start E i) (\<lambda>u. started_container E i)
     }
   }"

definition StopContainer :: "env \<Rightarrow> string \<Rightarrow> unit res prog" where
  "StopContainer E cid = do {
     parentCnt \<leftarrow> getParentCnt E;
     if \<not> isContainer cid parentCnt then ret (Err (Errorf ''specified ID belongs to pod'' [cid]))
     else do {
       i \<leftarrow> generateFullContainerName E cid;
       r \<leftarrow> GetProperty E i ''state'';
       let st = (case r of Inl e \<Rightarrow> [] | Inr s \<Rightarrow> s);
       if st = ''running'' then call_or (FmtV ''StopContainer'') (Kill E i 15) (\<lambda>u. ret (Ok ()))
       else ret (Ok ())
     }
   }"

text \<open>The removal of the prefixed name, with the volumes it was linked to where there is a parent.\<close>

definition destroy_container :: "env \<Rightarrow> string \<Rightarrow> string \<Rightarrow> unit res prog" where
  "destroy_container E i linkedVolumes =
     call_or (FmtV ''RemoveContainer'') (Destroy E i) (\<lambda>u.
     call_or (FmtV ''RemoveContainer'') (RemoveAll E (getRootPath E i)) (\<lambda>u.
     if ParentContainer (Cfg E) \<noteq> [] then removeSpecificVolumes E i linkedVolumes else ret (Ok ())))"

definition RemoveContainer :: "env \<Rightarrow> string \<Rightarrow> unit res prog" where
  "RemoveContainer E cid = do {
     parentCnt \<leftarrow> getParentCnt E;
     if \<not> isContainer cid parentCnt then ret (Err (Errorf ''specified ID belongs to pod'' [cid]))
     else do {
       i \<leftarrow> addPortoPrefix E cid;
       if ParentContainer (Cfg E) \<noteq> []
       then step_or (FmtV ''RemoveContainer'') (getProperties E i [''volumes_linked'']) (\<lambda>props.
              destroy_container E i (mget_str props ''volumes_linked''))
       else destroy_container E i []
     }
   }"

section \<open>Images of containers and the status\<close>

definition getContainerImage :: "env \<Rightarrow> string \<Rightarrow> (string, string) gomap \<Rightarrow> string res prog" where
  "getContainerImage E i labels = (case mget labels ''portoshim.container.image'' of
     Some img \<Rightarrow> ret (Ok img)
   | None \<Rightarrow>
       if labels = [] then ret (Ok [])
       else do {
         r \<leftarrow> ListVolumes E (getRootPath E i) i;
         case r of
           Inl e \<Rightarrow> ret (Ok [])
         | Inr imageDescriptions \<Rightarrow> (case imageDescriptions of
             [] \<Rightarrow> ret (Panic ''index out of range'')
           | props # rest \<Rightarrow> ret (Ok (mget_str props ''image'')))
       })"

definition destroyDead :: "env \<Rightarrow> string \<Rightarrow> unit res prog" where
  "destroyDead E portoid = call_or (FmtV ''failed to destroy container'') (Destroy E (toContainerCriID portoid)) (\<lambda>u. ret (Ok ()))"

definition status_of :: "string \<Rightarrow> string \<Rightarrow> (string, string) gomap \<Rightarrow> (string, string) gomap \<Rightarrow> (string, string) gomap
    \<Rightarrow> ContainerStatusRec" where
  "status_of i img props labels annotations =
     \<lparr>cs_Id = i, cs_Metadata = convertContainerMetadata labels,
      cs_State = convertContainerState (mget_str props ''state''),
      cs_CreatedAt = convertValueToTime (mget_str props ''creation_time[raw]''),
      cs_StartedAt = convertValueToTime (mget_str props ''start_time[raw]''),
      cs_FinishedAt = convertValueToTime (mget_str props ''death_time[raw]''),
      cs_ExitCode = ucast (convertValueToInt (mget_str props ''exit_code'')),
      cs_Image = img, cs_Labels = labels, cs_Annotations = annotations,
      cs_LogPath = mget_str labels ''io.kubernetes.container.logpath''\<rparr>"

lemma status_of_State [simp]:
  "cs_State (status_of i img props labels annotations) = convertContainerState (mget_str props ''state'')"
  by (simp add: status_of_def)

text \<open>The labels of a privileged container are those of its parent.\<close>

definition status_labels :: "env \<Rightarrow> string \<Rightarrow> (string, string) gomap \<Rightarrow> string res prog" where
  "status_labels E portoid props =
     (if isPrivilegedContainer portoid
      then step_or (FmtV ''ContainerStatus'') (getProperties E (toContainerCriID portoid) [''labels''])
             (\<lambda>metadata. ret (Ok (mget_str metadata ''labels'')))
      else ret (Ok (mget_str props ''labels'')))"

definition ContainerStatus :: "env \<Rightarrow> string \<Rightarrow> ContainerStatusRec res prog" where
  "ContainerStatus E i = do {
     parentCnt \<leftarrow> getParentCnt E;
     if \<not> isContainer i parentCnt then ret (Err (Errorf ''specified ID belongs to pod'' []))
     else do {
       portoid \<leftarrow> generateFullContainerName E i;
       step_or (FmtV ''ContainerStatus'')
         (getProperties E portoid [''labels'', ''state'', ''creation_time[raw]'', ''start_time[raw]'', ''death_time[raw]'', ''exit_code'']) (\<lambda>props.
       step_or id (status_labels E portoid props) (\<lambda>portoLabels.
       step_or id (ret (convertFromPortoLabels portoLabels)) (\<lambda>(labels, annotations).
       step_or id (getContainerImage E portoid labels) (\<lambda>img.
       let status = status_of i img props labels annotations in
       if mget_str props ''state'' = ''dead''
       then step_or (FmtV ''ContainerStatus'') (destroyDead E portoid) (\<lambda>u. ret (Ok status))
       else ret (Ok status)))))
     }
   }"

section \<open>ListContainers\<close>

record ContainerFilter =
  cf_Id :: string
  cf_State :: "ContainerState option"
  cf_PodSandboxId :: string
  cf_Labels :: "(string, string) gomap"

definition list_mask :: "PortoshimConfig \<Rightarrow> ContainerFilter \<Rightarrow> string" where
  "list_mask cfg f =
     (if cf_Id f \<noteq> [] then fst (getPodAndContainer cfg (cf_Id f)) @ ''/***''
      else if cf_PodSandboxId f \<noteq> [] then cf_PodSandboxId f @ ''/***''
      else [])"

definition narrow :: "env \<Rightarrow> string list \<Rightarrow> string \<Rightarrow> string list res prog" where
  "narrow E ids target = (if target \<noteq> [] then filterContainerIDs E ids target else ret (Ok ids))"

text \<open>The labels a container of the answer is shown with; none when it is left out before the filter.\<close>

definition shown_labels :: "(string, (string, string) gomap) gomap \<Rightarrow> string \<Rightarrow> (string, string) gomap
    \<Rightarrow> ((string, string) gomap \<times> (string, string) gomap) option res" where
  "shown_labels properties portoid props =
     bind_res (convertFromPortoLabels (mget_str props ''labels'')) (\<lambda>(labels, annotations).
       if mget labels ''priv'' \<noteq> None then Ok None
       else if isPrivilegedContainer portoid
       then (case mget properties (toContainerCriID portoid) of
               None \<Rightarrow> Ok None
             | Some parentProps \<Rightarrow> bind_res (convertFromPortoLabels (mget_str parentProps ''labels'')) (\<lambda>la. Ok (Some la)))
       else Ok (Some (labels, annotations)))"

definition skip_container :: "ContainerFilter \<Rightarrow> (string, string) gomap \<Rightarrow> ContainerState \<Rightarrow> bool" where
  "skip_container f labels st \<longleftrightarrow>
     mget labels ''portoshim.container.id'' = None \<and> mget labels ''io.kubernetes.pod.namespace'' = None
     \<or> cf_State f \<noteq> None \<and> cf_State f \<noteq> Some st \<or> \<not> labels_match (cf_Labels f) labels"

definition show_container :: "env \<Rightarrow> string \<Rightarrow> (string, string) gomap \<Rightarrow> (string, string) gomap \<Rightarrow> (string, string) gomap
    \<Rightarrow> CriContainer res prog" where
  "show_container E portoid props labels annotations =
     step_or id (getContainerImage E portoid labels) (\<lambda>img.
     step_or id (removePortoPrefix E portoid) (\<lambda>cid.
     ret (Ok \<lparr>c_Id = toContainerCriID cid, c_PodSandboxId = fst (getPodAndContainer (Cfg E) portoid),
              c_Metadata = convertContainerMetadata labels, c_Image = img,
              c_State = convertContainerState (mget_str props ''state''),
              c_CreatedAt = convertValueToTime (mget_str props ''creation_time[raw]''),
              c_Labels = labels, c_Annotations = annotations\<rparr>)))"

fun list_containers :: "env \<Rightarrow> string \<Rightarrow> ContainerFilter \<Rightarrow> (string, (string, string) gomap) gomap
    \<Rightarrow> CriContainer list \<Rightarrow> string list \<Rightarrow> CriContainer list res prog" where
  "list_containers E parentCnt f properties containers [] = ret (Ok containers)"
| "list_containers E parentCnt f properties containers (portoid # ids) =
     (if \<not> isContainer (toContainerCriID portoid) parentCnt then list_containers E parentCnt f properties containers ids
      else case mget properties portoid of
        None \<Rightarrow> list_containers E parentCnt f properties containers ids
      | Some props \<Rightarrow>
          step_or id (ret (shown_labels properties portoid props)) (\<lambda>shown. case shown of
            None \<Rightarrow> list_containers E parentCnt f properties containers ids
          | Some (labels, annotations) \<Rightarrow>
              if skip_container f labels (convertContainerState (mget_str props ''state''))
              then list_containers E parentCnt f properties containers ids
              else step_or id (show_container E portoid props labels annotations) (\<lambda>c.
                     list_containers E parentCnt f properties (containers @ [c]) ids)))"

definition ListContainersOp :: "env \<Rightarrow> ContainerFilter \<Rightarrow> CriContainer list res prog" where
  "ListContainersOp E f =
     (let mask = list_mask (Cfg E) f in
      call_or (FmtV ''ListContainers'') (ListContainers E mask) (\<lambda>response.
      step_or id (if mask = [] then ret (Ok response) else narrow E response (cf_Id f)) (\<lambda>response.
      step_or id (if mask = [] then ret (Ok response) else narrow E response (cf_PodSandboxId f)) (\<lambda>response.
      call_or (FmtV ''ListContainers'') (GetProperties E response [''labels'', ''state'', ''creation_time[raw]'']) (\<lambda>properties. do {
        parentCnt \<leftarrow> getParentCnt E;
        list_containers E parentCnt f properties [] response
      })))))"

section \<open>ExecSync\<close>

text \<open>The timeout of the wait in nanoseconds: the one of the request where it is positive, in 64 bits.\<close>

definition exec_timeout :: "env \<Rightarrow> i64 \<Rightarrow> int" where
  "exec_timeout E timeout = (if sint timeout > 0 then sint (timeout * 1000000000) else SocketTimeout (Cfg E))"

definition exec_result :: "env \<Rightarrow> string \<Rightarrow> i64 \<Rightarrow> ExecSyncResponse res prog" where
  "exec_result E i timeout =
     call_or (WrapW ''failed to wait exec container'') (Wait E [i] (exec_timeout E timeout)) (\<lambda>u.
     call_or (WrapW ''failed to get container exit_code'') (GetProperty E i ''exit_code'') (\<lambda>exitCode.
     case parse_int 32 exitCode of
       (code, Some e) \<Rightarrow> ret (Err (Errorf ''failed to parse exit_code'' [exitCode]))
     | (code, None) \<Rightarrow>
         step_or (FmtV ''ExecSync'') (getProperties E i [''stdout'', ''stderr'']) (\<lambda>streams.
         ret (Ok \<lparr>Stdout = mget_str streams ''stdout'', Stderr = mget_str streams ''stderr'', ExitCode = of_int code\<rparr>))))"

text \<open>\<open>defer pc.Destroy(id)\<close> runs after everything that follows the creation, a panic included.\<close>

definition run_exec :: "env \<Rightarrow> TContainerSpec \<Rightarrow> i64 \<Rightarrow> ExecSyncResponse res prog" where
  "run_exec E spec timeout =
     call_or (FmtV ''ExecSync'') (CreateFromSpec E spec [] True) (\<lambda>u. do {
       r \<leftarrow> exec_result E (Name spec) timeout;
       x \<leftarrow> Destroy E (Name spec);
       ret r
     })"

definition ExecSync :: "env \<Rightarrow> string \<Rightarrow> string list \<Rightarrow> i64 \<Rightarrow> ExecSyncResponse res prog" where
  "ExecSync E containerID cmd timeout = do {
     portoContainerID \<leftarrow> addPortoPrefix E containerID;
     name \<leftarrow> createID E ''exec-sync'';
     let i = Join ''/'' [portoContainerID, name];
     call_or (WrapW ''failed to get parent container env prop'') (GetProperty E portoContainerID ''env'') (\<lambda>env.
     let spec = prepareExecEnv ((new_spec i)\<lparr>Weak := Some True\<rparr>) env in
     step_or (WrapW ''failed to prepare command for exec container'') (prepareCommand E spec cmd [] [] True) (\<lambda>spec.
     run_exec E spec timeout))
   }"

section \<open>Lemmas\<close>

lemma quiet_getProperties: "emits (getProperties E i ns) (\<lambda>r es. quiet es)"
  unfolding getProperties_def Get_def by (auto intro!: emit_rules split: sum.split)

lemma quiet_exec_result: "emits (exec_result E i t) (\<lambda>r es. quiet es)"
proof -
  have "emits (case parse_int 32 exitCode of
       (code, Some e) \<Rightarrow> ret (Err (Errorf ''failed to parse exit_code'' [exitCode]))
     | (code, None) \<Rightarrow>
         step_or (FmtV ''ExecSync'') (getProperties E i [''stdout'', ''stderr'']) (\<lambda>streams.
         ret (Ok \<lparr>Stdout = mget_str streams ''stdout'', Stderr = mget_str streams ''stderr'', ExitCode = of_int code\<rparr>)))
    (\<lambda>r es. quiet es)" for exitCode
    by (cases "parse_int 32 exitCode"; cases "snd (parse_int 32 exitCode)")
      (auto intro!: emits_step_or [OF quiet_getProperties])
  then show ?thesis
    unfolding exec_result_def Wait_def GetProperty_def by (auto intro!: emit_rules)
qed

text \<open>A command run in a container of its own: nothing created, or created and destroyed as the last call.\<close>

definition transient :: "'a res \<Rightarrow> history \<Rightarrow> bool" where
  "transient v es \<longleftrightarrow> quiet es \<and> \<not> is_Ok v
     \<or> (\<exists>a spec e. es = a @ [EvCreateFromSpec spec [] True (Inl e)] \<and> quiet a \<and> \<not> is_Ok v)
     \<or> (\<exists>a spec b x. es = a @ EvCreateFromSpec spec [] True (Inr ()) # b @ [EvDestroy (Name spec) x] \<and> quiet a \<and> quiet b)"

lemma transient_front: "quiet es \<Longrightarrow> transient v fs \<Longrightarrow> transient v (es @ fs)"
  unfolding transient_def
proof (elim disjE exE conjE)
  fix a spec e assume "quiet es" "fs = a @ [EvCreateFromSpec spec [] True (Inl e)]" "quiet a" "\<not> is_Ok v"
  then show "quiet (es @ fs) \<and> \<not> is_Ok v
     \<or> (\<exists>a spec e. es @ fs = a @ [EvCreateFromSpec spec [] True (Inl e)] \<and> quiet a \<and> \<not> is_Ok v)
     \<or> (\<exists>a spec b x. es @ fs = a @ EvCreateFromSpec spec [] True (Inr ()) # b @ [EvDestroy (Name spec) x] \<and> quiet a \<and> quiet b)"
    by (intro disjI2 disjI1 exI [of _ "es @ a"] exI [of _ spec] exI [of _ e]) simp
next
  fix a spec b x
  assume "quiet es" "fs = a @ EvCreateFromSpec spec [] True (Inr ()) # b @ [EvDestroy (Name spec) x]" "quiet a" "quiet b"
  then show "quiet (es @ fs) \<and> \<not> is_Ok v
     \<or> (\<exists>a spec e. es @ fs = a @ [EvCreateFromSpec spec [] True (Inl e)] \<and> quiet a \<and> \<not> is_Ok v)
     \<or> (\<exists>a spec b x. es @ fs = a @ EvCreateFromSpec spec [] True (Inr ()) # b @ [EvDestroy (Name spec) x] \<and> quiet a \<and> quiet b)"
    by (intro disjI2 exI [of _ "es @ a"] exI [of _ spec] exI [of _ b] exI [of _ x]) simp
qed simp

lemma transient_created:
  assumes "quiet b"
  shows "transient v (EvCreateFromSpec spec [] True (Inr ()) # b @ [EvDestroy (Name spec) x])"
  unfolding transient_def using assms
  by (intro disjI2 exI [of _ "[]"] exI [of _ spec] exI [of _ b] exI [of _ x]) simp

lemma transient_refused: "\<not> is_Ok v \<Longrightarrow> transient v [EvCreateFromSpec spec [] True (Inl e)]"
  unfolding transient_def by (intro disjI2 disjI1 exI [of _ "[]"]) simp

interpretation tr: outcome transient
  by unfold_locales (auto intro: transient_front simp: transient_def [of _ "[]"])

lemma transient_run_exec: "emits (run_exec E spec t) transient"
  unfolding run_exec_def CreateFromSpec_def Destroy_def
proof (rule emits_call_or_ask)
  show "transient (Err (FmtV ''ExecSync'' e)) [EvCreateFromSpec spec [] True (Inl e)]" for e
    by (simp add: transient_refused)
  show "emits (do { r \<leftarrow> exec_result E (Name spec) t; x \<leftarrow> ask (\<lambda>h. o_Destroy (porto E) h (Name spec)) (EvDestroy (Name spec)); ret r })
      (\<lambda>r es. transient r (EvCreateFromSpec spec [] True (Inr u) # es))" for u :: unit
    by (rule emits_bind [OF quiet_exec_result]) (auto intro!: emit_rules simp: transient_created)
qed

lemma transient_ExecSync: "emits (ExecSync E cid cmd t) transient"
proof -
  have prepared: "emits (step_or g (prepareCommand E spec cmd [] [] True) (\<lambda>spec. run_exec E spec t)) transient" for g spec
    by (rule tr.step [where S = "\<lambda>r. True"]) (simp_all add: quiet_prepareCommand transient_run_exec)
  show ?thesis
    unfolding ExecSync_def Let_def GetProperty_def
    by (intro tr.bind [OF quiet_addPortoPrefix] tr.bind [OF quiet_createID] tr.call prepared) simp
qed

text \<open>What the removal of a container does, from its name in Porto on.\<close>

definition container_removal :: "env \<Rightarrow> string \<Rightarrow> unit res \<Rightarrow> history \<Rightarrow> bool" where
  "container_removal E i v es \<longleftrightarrow> (\<exists>x rest. es = EvDestroy i x # rest
     \<and> (case x of Inl e \<Rightarrow> v = Err (FmtV ''RemoveContainer'' e) \<and> rest = []
        | Inr u \<Rightarrow> \<exists>y copies. rest = EvRemoveAll (getRootPath E i) y # copies
            \<and> (case y of Inl e \<Rightarrow> v = Err (FmtV ''RemoveContainer'' e) \<and> copies = []
               | Inr u \<Rightarrow> \<not> is_Panic v \<and> (\<forall>ev \<in> set copies. \<exists>d z. ev = EvRemoveAll d z)
                   \<and> (ParentContainer (Cfg E) = [] \<longrightarrow> v = Ok () \<and> copies = []))))"

lemma emits_removal_copies:
  "emits (removeSpecificVolumes E i vols) (\<lambda>v es. \<not> is_Panic v \<and> (\<forall>ev \<in> set es. \<exists>d z. ev = EvRemoveAll d z))"
  unfolding emits_def
proof
  fix w
  obtain r w' where r: "run_state (removeSpecificVolumes E i vols) w = (r, w')" by force
  from removes_relI [OF removes_own r]
  show "\<exists>es. w_trace (snd (run_state (removeSpecificVolumes E i vols) w)) = w_trace w @ es
    \<and> \<not> is_Panic (fst (run_state (removeSpecificVolumes E i vols) w)) \<and> (\<forall>ev \<in> set es. \<exists>d z. ev = EvRemoveAll d z)"
    unfolding r removes_rel_def by fastforce
qed

lemma emits_destroy_container: "emits (destroy_container E i vols) (container_removal E i)"
proof -
  have copies: "emits (if ParentContainer (Cfg E) \<noteq> [] then removeSpecificVolumes E i vols else ret (Ok ()))
    (\<lambda>v es. \<not> is_Panic v \<and> (\<forall>ev \<in> set es. \<exists>d z. ev = EvRemoveAll d z) \<and> (ParentContainer (Cfg E) = [] \<longrightarrow> v = Ok () \<and> es = []))"
    using emits_removal_copies by simp
  show ?thesis
    unfolding destroy_container_def Destroy_def RemoveAll_def
    by (intro emit_rules) (simp_all add: container_removal_def emits_mono [OF copies])
qed

section \<open>The status of a container\<close>

lemma exited_iff_dead: "convertContainerState s = CONTAINER_EXITED \<longleftrightarrow> s = ''dead''"
  by (simp add: convertContainerState_def containerStateMap_def)

lemma quiet_getContainerImage: "emits (getContainerImage E i labels) (\<lambda>r es. quiet es)"
  unfolding getContainerImage_def ListVolumes_def
  by (auto intro!: emit_rules split: option.split sum.split list.split)

lemma quiet_status_labels: "emits (status_labels E i props) (\<lambda>r es. quiet es)"
  unfolding status_labels_def by (auto intro!: emits_step_or [OF quiet_getProperties])

text \<open>
  The calls of a status of the container with the name \<open>p\<close>: it is destroyed by the last call, after its
  properties were read, exactly when it is reported as exited; a refused destruction is an error, and
  whatever else is answered nothing is destroyed.
\<close>

definition reaped :: "string \<Rightarrow> (goerr + unit) \<Rightarrow> history \<Rightarrow> bool" where
  "reaped p x es \<longleftrightarrow> (\<exists>a b ns r. es = a @ EvGet [p] ns r # b @ [EvDestroy (toContainerCriID p) x] \<and> quiet a \<and> quiet b)"

definition reported :: "string \<Rightarrow> ContainerStatusRec res \<Rightarrow> history \<Rightarrow> bool" where
  "reported p v es \<longleftrightarrow> (case v of
     Ok st \<Rightarrow> if cs_State st = CONTAINER_EXITED then reaped p (Inr ()) es else quiet es
   | Err e \<Rightarrow> quiet es \<or> (\<exists>x. reaped p (Inl x) es)
   | Panic s \<Rightarrow> quiet es)"

lemma reaped_front: "quiet es \<Longrightarrow> reaped p x fs \<Longrightarrow> reaped p x (es @ fs)"
  unfolding reaped_def
proof (elim exE conjE)
  fix a b ns r assume "quiet es" "fs = a @ EvGet [p] ns r # b @ [EvDestroy (toContainerCriID p) x]" "quiet a" "quiet b"
  then have "es @ fs = (es @ a) @ EvGet [p] ns r # b @ [EvDestroy (toContainerCriID p) x] \<and> quiet (es @ a) \<and> quiet b" by simp
  then show "\<exists>a b ns r. es @ fs = a @ EvGet [p] ns r # b @ [EvDestroy (toContainerCriID p) x] \<and> quiet a \<and> quiet b"
    by (intro exI)
qed

lemma reaped_last: "quiet b \<Longrightarrow> reaped p x (EvGet [p] ns r # b @ [EvDestroy (toContainerCriID p) x])"
  unfolding reaped_def by (intro exI [of _ "[]"] exI [of _ b] exI [of _ ns] exI [of _ r]) simp

interpretation rp: outcome "reported p" for p
  by unfold_locales (auto simp: reported_def intro: reaped_front split: res.splits if_splits)

lemma reported_last:
  assumes "cs_State st = convertContainerState s" "quiet b"
  shows "emits (if s = ''dead'' then step_or g (destroyDead E p) (\<lambda>u. ret (Ok st)) else ret (Ok st))
    (\<lambda>v es. reported p v (EvGet [p] ns r # b @ es))"
proof (cases "s = ''dead''")
  case True
  have exited: "cs_State st = CONTAINER_EXITED" using assms(1) True by (simp add: exited_iff_dead)
  have "emits (destroyDead E p) (\<lambda>v es. (v = Ok () \<and> es = [EvDestroy (toContainerCriID p) (Inr ())])
      \<or> (\<exists>e x. v = Err e \<and> es = [EvDestroy (toContainerCriID p) (Inl x)]))"
    unfolding destroyDead_def Destroy_def by (auto intro!: emit_rules)
  then have "emits (step_or g (destroyDead E p) (\<lambda>u. ret (Ok st))) (\<lambda>v es. reported p v (EvGet [p] ns r # b @ es))"
    by (rule emits_step_or) (use exited reaped_last [OF assms(2), of p] in \<open>auto simp: reported_def intro: exI\<close>)
  then show ?thesis using True by simp
qed (use assms in \<open>simp add: reported_def exited_iff_dead\<close>)

lemma reported_failed: "quiet es \<Longrightarrow> reported p (Err e) es" "quiet es \<Longrightarrow> reported p (Panic s) es"
  by (simp_all add: reported_def)

lemma reported_from_props:
  "emits (step_or id (status_labels E p props) (\<lambda>portoLabels.
       step_or id (ret (convertFromPortoLabels portoLabels)) (\<lambda>(labels, annotations).
       step_or id (getContainerImage E p labels) (\<lambda>img.
       let status = status_of i img props labels annotations in
       if mget_str props ''state'' = ''dead''
       then step_or g (destroyDead E p) (\<lambda>u. ret (Ok status)) else ret (Ok status)))))
    (\<lambda>v es. reported p v (EvGet [p] ns r # es))"
proof (rule emits_step_or [OF quiet_status_labels])
  fix portoLabels es1 assume q1: "quiet es1"
  have img: "emits (step_or id (getContainerImage E p labels) (\<lambda>img.
       let status = status_of i img props labels annotations in
       if mget_str props ''state'' = ''dead''
       then step_or g (destroyDead E p) (\<lambda>u. ret (Ok status)) else ret (Ok status)))
    (\<lambda>v es. reported p v (EvGet [p] ns r # es1 @ es))" for labels annotations
  proof (rule emits_step_or [OF quiet_getContainerImage])
    fix img es2 assume "quiet es2"
    with q1 have "quiet (es1 @ es2)" by simp
    from reported_last [OF _ this, of "status_of i img props labels annotations" "mget_str props ''state''" g E p ns r]
    show "emits (let status = status_of i img props labels annotations in
       if mget_str props ''state'' = ''dead''
       then step_or g (destroyDead E p) (\<lambda>u. ret (Ok status)) else ret (Ok status))
      (\<lambda>v es. reported p v (EvGet [p] ns r # es1 @ es2 @ es))"
      by (simp add: Let_def)
  qed (use q1 in \<open>simp_all add: reported_failed\<close>)
  show "emits (step_or id (ret (convertFromPortoLabels portoLabels)) (\<lambda>(labels, annotations).
       step_or id (getContainerImage E p labels) (\<lambda>img.
       let status = status_of i img props labels annotations in
       if mget_str props ''state'' = ''dead''
       then step_or g (destroyDead E p) (\<lambda>u. ret (Ok status)) else ret (Ok status))))
    (\<lambda>v es. reported p v (EvGet [p] ns r # es1 @ es))"
    by (rule emits_step_or [where P = "\<lambda>v es. es = []"]) (use q1 in \<open>auto simp: reported_failed img\<close>)
qed (simp_all add: reported_failed)

text \<open>The name a container is asked about: its privileged child where Porto has one.\<close>

definition asked_name :: "env \<Rightarrow> history \<Rightarrow> string \<Rightarrow> string \<Rightarrow> string" where
  "asked_name E h q i = (let child = Join ''/'' [Dir i, Base i, privCntName] in
     case o_GetProperty (porto E) h child ''state'' of Inr s \<Rightarrow> child | Inl e \<Rightarrow> add_prefix q i)"

lemma run_generateFullContainerName:
  "run_state (generateFullContainerName E i) w = (p, w1) \<Longrightarrow> w_parent w = Some q \<Longrightarrow> p = asked_name E (w_trace w) q i"
  by (auto simp: generateFullContainerName_def addPortoPrefix_def getParentCnt_def asked_name_def run_simps Let_def
      split: sum.splits)

lemma reported_ContainerStatus:
  assumes "run_state (ContainerStatus E i) w = (v, w')" "w_parent w = Some q"
  shows "\<exists>es. w_trace w' = w_trace w @ es \<and> reported (asked_name E (w_trace w) q i) v es"
proof (cases "isContainer i q")
  case False
  then show ?thesis using assms by (auto simp: ContainerStatus_def reported_failed)
next
  case True
  let ?p = "asked_name E (w_trace w) q i"
  let ?rest = "\<lambda>p. step_or (FmtV ''ContainerStatus'')
         (getProperties E p [''labels'', ''state'', ''creation_time[raw]'', ''start_time[raw]'', ''death_time[raw]'', ''exit_code'']) (\<lambda>props.
       step_or id (status_labels E p props) (\<lambda>portoLabels.
       step_or id (ret (convertFromPortoLabels portoLabels)) (\<lambda>(labels, annotations).
       step_or id (getContainerImage E p labels) (\<lambda>img.
       let status = status_of i img props labels annotations in
       if mget_str props ''state'' = ''dead''
       then step_or (FmtV ''ContainerStatus'') (destroyDead E p) (\<lambda>u. ret (Ok status))
       else ret (Ok status)))))"
  have props: "emits (?rest p) (reported p)" for p
  proof (rule emits_step_or [where P = "\<lambda>v es. \<exists>ns r. es = [EvGet [p] ns r]"])
    show "emits (getProperties E p ns) (\<lambda>v es. \<exists>ns r. es = [EvGet [p] ns r])" for ns
      unfolding getProperties_def Get_def by (auto intro!: emit_rules split: sum.split)
  qed (auto simp: reported_from_props reported_failed)
  obtain p w1 where g: "run_state (generateFullContainerName E i) w = (p, w1)" by (rule prod.exhaust)
  have p: "p = ?p" by (rule run_generateFullContainerName [OF g assms(2)])
  obtain es where es: "w_trace w1 = w_trace w @ es" "quiet es" using emitsD [OF quiet_generateFullContainerName g] by blast
  have "run_state (?rest p) w1 = (v, w')" using assms True g by (simp add: ContainerStatus_def)
  from emitsD [OF props this] obtain fs where fs: "w_trace w' = w_trace w1 @ fs" "reported p v fs" by blast
  have "reported ?p v (es @ fs)" using rp.front [OF es(2) fs(2)] by (simp add: p)
  then show ?thesis using es(1) fs(1) by auto
qed

section \<open>The listing of containers\<close>

text \<open>
  An item of the answer, for a name of the list and the properties Porto gave: it passes the whole
  filter, has the marks of Kubernetes, and is shown under its name without prefix and alias.
\<close>

definition listed_container :: "env \<Rightarrow> string \<Rightarrow> ContainerFilter \<Rightarrow> (string, (string, string) gomap) gomap \<Rightarrow> string list
    \<Rightarrow> CriContainer \<Rightarrow> bool" where
  "listed_container E parent f properties names c \<longleftrightarrow>
     (cf_State f = None \<or> cf_State f = Some (c_State c))
     \<and> (\<forall>(k, v) \<in> set (cf_Labels f). mget (c_Labels c) k = Some v)
     \<and> (mget (c_Labels c) ''portoshim.container.id'' \<noteq> None \<or> mget (c_Labels c) ''io.kubernetes.pod.namespace'' \<noteq> None)
     \<and> (\<exists>n \<in> set names. isContainer (toContainerCriID n) parent
          \<and> (\<exists>props. mget properties n = Some props \<and> c_State c = convertContainerState (mget_str props ''state'')
               \<and> shown_labels properties n props = Ok (Some (c_Labels c, c_Annotations c)))
          \<and> (\<exists>cid. remove_prefix parent n = Ok cid \<and> c_Id c = toContainerCriID cid
               \<and> (cf_Id f \<noteq> [] \<longrightarrow> under_target (cf_Id f) cid) \<and> (cf_PodSandboxId f \<noteq> [] \<longrightarrow> under_target (cf_PodSandboxId f) cid))
          \<and> c_PodSandboxId c = fst (getPodAndContainer (Cfg E) n))"

lemma listed_container_mono:
  "listed_container E parent f properties names c \<Longrightarrow> set names \<subseteq> set names' \<Longrightarrow> listed_container E parent f properties names' c"
  unfolding listed_container_def by blast

text \<open>The names that pass the filter on identifiers.\<close>

definition narrowed :: "string \<Rightarrow> ContainerFilter \<Rightarrow> string \<Rightarrow> bool" where
  "narrowed parent f n \<longleftrightarrow>
     (cf_Id f \<noteq> [] \<longrightarrow> (\<exists>c. remove_prefix parent n = Ok c \<and> under_target (cf_Id f) c))
     \<and> (cf_PodSandboxId f \<noteq> [] \<longrightarrow> (\<exists>c. remove_prefix parent n = Ok c \<and> under_target (cf_PodSandboxId f) c))"

lemma run_narrow:
  "run_state (narrow E ids target) w = (Ok out, w') \<Longrightarrow> w_parent w = Some p
    \<Longrightarrow> w' = w \<and> set out \<subseteq> {n \<in> set ids. target \<noteq> [] \<longrightarrow> (\<exists>c. remove_prefix p n = Ok c \<and> under_target target c)}"
  using filterContainerIDs_sound [of E ids target w out w' p] by (auto simp: narrow_def split: if_splits)

lemma run_getContainerImage_parent: "w_parent (snd (run_state (getContainerImage E i labels) w)) = w_parent w"
  by (simp add: getContainerImage_def run_simps split: option.split sum.split list.split)

lemma show_container_run:
  assumes "run_state (show_container E n props labels annotations) w = (Ok c, w')" "w_parent w = Some parent"
  shows "w_parent w' = Some parent \<and> c_Labels c = labels \<and> c_Annotations c = annotations
    \<and> c_State c = convertContainerState (mget_str props ''state'') \<and> c_PodSandboxId c = fst (getPodAndContainer (Cfg E) n)
    \<and> (\<exists>cid. remove_prefix parent n = Ok cid \<and> c_Id c = toContainerCriID cid)"
proof -
  obtain r w1 where r: "run_state (getContainerImage E n labels) w = (r, w1)" by force
  have p: "w_parent w1 = Some parent" using run_getContainerImage_parent [of E n labels w] r assms(2) by simp
  show ?thesis
    using assms(1) r p
    by (cases r; cases "remove_prefix parent n")
      (auto simp: show_container_def run_step_or removePortoPrefix_def)
qed

lemma list_containers_round:
  assumes run: "run_state (list_containers E parent f properties cs (n # ns)) w = (Ok out, w')" and w: "w_parent w = Some parent"
    and nar: "narrowed parent f n"
  shows "\<exists>cs1 w1. run_state (list_containers E parent f properties cs1 ns) w1 = (Ok out, w') \<and> w_parent w1 = Some parent
    \<and> (cs1 = cs \<or> (\<exists>c. cs1 = cs @ [c] \<and> listed_container E parent f properties [n] c))"
proof (cases "isContainer (toContainerCriID n) parent \<and> (\<exists>props labels annotations. mget properties n = Some props
    \<and> shown_labels properties n props = Ok (Some (labels, annotations))
    \<and> \<not> skip_container f labels (convertContainerState (mget_str props ''state'')))")
  case False
  then have "run_state (list_containers E parent f properties cs ns) w = (Ok out, w')"
    using run by (cases "mget properties n"; cases "shown_labels properties n (the (mget properties n))")
      (auto simp: run_step_or split: if_splits option.splits)
  then show ?thesis using w by blast
next
  case True
  then obtain props labels annotations where k: "isContainer (toContainerCriID n) parent" "mget properties n = Some props"
    "shown_labels properties n props = Ok (Some (labels, annotations))"
    "\<not> skip_container f labels (convertContainerState (mget_str props ''state''))" by blast
  obtain r w1 where r: "run_state (show_container E n props labels annotations) w = (r, w1)" by force
  with run k obtain c where c: "r = Ok c" by (cases r) (simp_all add: run_step_or)
  note s = show_container_run [OF r [unfolded c] w]
  have "listed_container E parent f properties [n] c"
    unfolding listed_container_def using k s nar by (auto simp: skip_container_def labels_match_iff narrowed_def)
  moreover have "run_state (list_containers E parent f properties (cs @ [c]) ns) w1 = (Ok out, w')"
    using run k r c by (simp add: run_step_or)
  ultimately show ?thesis using s by blast
qed

lemma list_containers_sound:
  "run_state (list_containers E parent f properties cs ns) w = (Ok out, w') \<Longrightarrow> w_parent w = Some parent
   \<Longrightarrow> list_all (listed_container E parent f properties names) cs \<Longrightarrow> set ns \<subseteq> {n \<in> set names. narrowed parent f n}
   \<Longrightarrow> list_all (listed_container E parent f properties names) out"
proof (induction ns arbitrary: cs w)
  case (Cons n ns)
  have nar: "narrowed parent f n" using Cons.prems(4) by simp
  from list_containers_round [OF Cons.prems(1,2) this] obtain cs1 w1 where
    *: "run_state (list_containers E parent f properties cs1 ns) w1 = (Ok out, w')" "w_parent w1 = Some parent"
    "cs1 = cs \<or> (\<exists>c. cs1 = cs @ [c] \<and> listed_container E parent f properties [n] c)" by blast
  have sub: "set [n] \<subseteq> set names" "set ns \<subseteq> {n \<in> set names. narrowed parent f n}" using Cons.prems(4) by simp_all
  from *(3) have "list_all (listed_container E parent f properties names) cs1"
  proof (elim disjE exE conjE)
    fix c assume "cs1 = cs @ [c]" "listed_container E parent f properties [n] c"
    with listed_container_mono [OF this(2) sub(1)] Cons.prems(3) show ?thesis by simp
  qed (use Cons.prems(3) in simp)
  from Cons.IH [OF *(1,2) this sub(2)] show ?case .
qed simp

lemma quiet_list_containers: "emits (list_containers E parent f properties cs ns) (\<lambda>v es. quiet es)"
proof (induction ns arbitrary: cs)
  case (Cons n ns)
  have name: "emits (step_or id (removePortoPrefix E n) (\<lambda>cid. ret (Ok (f cid)))) (\<lambda>v es. quiet es)" for f :: "string \<Rightarrow> CriContainer"
    by (rule emits_step_or [OF emits_mono [OF removePortoPrefix_no_Err, where Q = "\<lambda>v es. quiet es"]]) simp_all
  have item: "emits (show_container E n props labels annotations) (\<lambda>v es. quiet es)" for props labels annotations
    unfolding show_container_def
    by (rule emits_step_or [OF quiet_getContainerImage]) (auto intro!: emits_mono [OF name])
  show ?case
    unfolding list_containers.simps
    using Cons.IH by (auto intro!: emits_step_or [OF item] emits_mono [OF Cons.IH] emits_step_or [where P = "\<lambda>v es. es = []"]
        split: option.split)
qed simp

section \<open>Properties\<close>

text \<open>
  C10. A command run by ExecSync leaves no container behind: either none was created, or the one
  created is destroyed by the last call made, whether the wait, the exit code or the output failed
  or not; nothing in between starts, stops or destroys anything.
\<close>

theorem exec_always_cleans_up:
  "\<exists>es. w_trace (snd (run_state (ExecSync E cid cmd t) w)) = w_trace w @ es
     \<and> transient (fst (run_state (ExecSync E cid cmd t) w)) es"
  using transient_ExecSync unfolding emits_def by blast

text \<open>
  C27. The command of a privileged container survives its label: read back when the container is
  started, from whatever order portod prints the labels in, it is the command of the privileged
  child, each argument with U+FFFD for bytes that are no UTF-8; the child is created under the
  container with the capabilities of the system and not isolated.
\<close>

theorem privileged_command_kept:
  fixes E :: env
  assumes labels: "Labels (prepareContainerLabels json_marshal_strings spec cfg img logPath cmds True) = Some L"
    and es: "mset (map fst es) = mset L"
    and wf: "wf_map (cc_Labels cfg)" "wf_map (cc_Annotations cfg)"
    and read: "\<And>h. o_GetProperty (porto E) h i ''labels'' = Inr (render_labels es)"
    and absent: "\<And>h. o_GetProperty (porto E) h (path_Join [i, ''privileged'']) ''state'' = Inl e0"
  shows "\<exists>a r b. w_trace (snd (run_state (started_container E i) w)) = w_trace w @ a
    @ EvCreateFromSpec ((new_spec (path_Join [i, ''privileged'']))\<lparr>Capabilities := Some modCaps, Isolate := Some False,
        CommandArgv := Some (map valid_text cmds)\<rparr>) [] False r # b"
proof -
  let ?l = "container_labels json_marshal_strings (Name spec) cfg img logPath cmds True"
  have "wf_map (set_default k v m)" if "wf_map m" for k v and m :: "(string, string) gomap"
    using that by (simp add: set_default_def)
  then have wl: "wf_map ?l" using wf(1) by (simp add: container_labels_def Let_def)
  have "mset (map fst es) = mset (mset_at ''INFRA.engine'' ''k8s'' (convertToPortoLabels ?l (cc_Annotations cfg)))"
    using labels es by (simp add: prepareContainerLabels_def convertToStringMap_def Let_def)
  from labels_roundtrip_lemma [OF wl wf(2) this] obtain L' A' where
    d: "convertFromPortoLabels (render_labels es) = Ok (L', A')" "map_of L' = map_of ?l" by blast
  have m: "mget L' ''priv'' = Some ''true''" "json_unmarshal_strings (mget_str L' ''privCmd'') = map valid_text cmds"
    by (simp_all add: d(2) mget_str_def container_labels_def Let_def update_conv' unmarshal_marshal_lemma)
  have child: "\<exists>r b. w_trace (snd (run_state (createPrivCnt E i (map valid_text cmds)) w1)) = w_trace w1
      @ [EvGetProperty (path_Join [i, ''privileged'']) ''state'' (Inl e0)]
      @ EvCreateFromSpec ((new_spec (path_Join [i, ''privileged'']))\<lparr>Capabilities := Some modCaps, Isolate := Some False,
        CommandArgv := Some (map valid_text cmds)\<rparr>) [] False r # b" for w1
    by (auto simp: createPrivCnt_def run_simps Let_def privCntName_def absent split: sum.split)
  have "\<exists>w1. run_state (started_container E i) w = run_state (step_or (FmtV ''failed to create or configure privileged container'')
        (createPrivCnt E i (map valid_text cmds)) (\<lambda>u. ret (Ok ()))) w1 \<and> (\<exists>a. w_trace w1 = w_trace w @ a)"
    unfolding started_container_def
    by (rule exI, rule conjI)
      (simp add: GetProperty_def Remount_def run_ask run_step_or [of id] Let_def read d(1) m, simp)
  then obtain w1 a where w1: "w_trace w1 = w_trace w @ a"
    "run_state (started_container E i) w = run_state (step_or (FmtV ''failed to create or configure privileged container'')
        (createPrivCnt E i (map valid_text cmds)) (\<lambda>u. ret (Ok ()))) w1" by blast
  have "w_trace (snd (run_state (step_or g (createPrivCnt E i (map valid_text cmds)) (\<lambda>u. ret (Ok ()))) w1))
      = w_trace (snd (run_state (createPrivCnt E i (map valid_text cmds)) w1))" for g
    by (simp add: run_step_or split: prod.split res.split)
  then show ?thesis using child [of w1] w1 by (metis append.assoc)
qed

text \<open>A privileged container started with the command "sh -c" in its label.\<close>

definition priv_cfg :: ContainerConfig where
  "priv_cfg = \<lparr>cc_Metadata = \<lparr>cm_Name = ''app'', cm_Attempt = 0\<rparr>, cc_Image = ''img'', cc_Command = [''sh'', ''-c''], cc_Args = [],
     cc_Envs = [], cc_Mounts = [], cc_Devices = [], cc_Labels = [(''app'', ''web'')], cc_Annotations = [], cc_Resources = None,
     cc_Privileged = True\<rparr>"

definition priv_labels :: "(string, string) gomap" where
  "priv_labels = the (Labels (prepareContainerLabels json_marshal_strings (new_spec ''pod-1/app'') priv_cfg ''img'' ''/log''
     [''sh'', ''-c''] True))"

definition priv_env :: env where
  "priv_env = base_env\<lparr>porto := base_porto\<lparr>o_GetProperty := (\<lambda>h i n.
     if n = ''labels'' then Inr (render_labels (map (\<lambda>e. (e, 0, 1)) priv_labels)) else Inl no_container)\<rparr>\<rparr>"

theorem privileged_command_kept_witness:
  "\<exists>a sp r b. w_trace (snd (run_state (started_container priv_env ''pod-1/app'') base_world)) = a @ EvCreateFromSpec sp [] False r # b
     \<and> CommandArgv sp = Some [''sh'', ''-c'']"
proof -
  have l: "Labels (prepareContainerLabels json_marshal_strings (new_spec ''pod-1/app'') priv_cfg ''img'' ''/log''
     [''sh'', ''-c''] True) = Some priv_labels"
    by (simp add: priv_labels_def prepareContainerLabels_def Let_def)
  have v: "map valid_text [''sh'', ''-c''] = [''sh'', ''-c'']"
    by (simp add: valid_text_ascii byte_in_def)
  have "\<exists>a r b. w_trace (snd (run_state (started_container priv_env ''pod-1/app'') base_world)) = w_trace base_world @ a
    @ EvCreateFromSpec ((new_spec (path_Join [''pod-1/app'', ''privileged'']))\<lparr>Capabilities := Some modCaps, Isolate := Some False,
        CommandArgv := Some (map valid_text [''sh'', ''-c''])\<rparr>) [] False r # b"
    by (rule privileged_command_kept [OF l, of "map (\<lambda>e. (e, 0, 1)) priv_labels"])
      (simp_all add: comp_def priv_cfg_def priv_env_def)
  then show ?thesis unfolding v by (force simp: base_world_def)
qed

text \<open>
  Removing a container destroys it first, then removes its directory, then the copies made for
  it, and stops at the first failure; without a parent container that is all it does.
\<close>

theorem container_removal_order:
  "\<exists>es. w_trace (snd (run_state (destroy_container E i vols) w)) = w_trace w @ es
     \<and> container_removal E i (fst (run_state (destroy_container E i vols) w)) es"
  using emits_destroy_container unfolding emits_def by blast

text \<open>
  C34. ContainerStatus destroys a container exactly when it answers that it has exited: then its last
  call destroyed, under the name its properties were read by, the very container asked about (the
  container itself, also where the exit is that of its privileged child), and in every other case,
  an answer, an error or a panic, nothing is destroyed; a destruction that Porto refuses is an error.
\<close>

theorem dead_container_reaped:
  assumes "run_state (ContainerStatus E i) w = (v, w')" "w_parent w = Some q"
  shows "\<exists>es. w_trace w' = w_trace w @ es \<and> reported (asked_name E (w_trace w) q i) v es
     \<and> ((\<exists>c. EvDestroy c (Inr ()) \<in> set es) \<longleftrightarrow> (\<exists>st. v = Ok st \<and> cs_State st = CONTAINER_EXITED))
     \<and> (\<forall>c x. EvDestroy c x \<in> set es \<longrightarrow> c = toContainerCriID (asked_name E (w_trace w) q i))"
proof -
  let ?p = "asked_name E (w_trace w) q i"
  obtain es where es: "w_trace w' = w_trace w @ es" "reported ?p v es" using reported_ContainerStatus [OF assms] by blast
  have q: "EvDestroy c x \<notin> set fs" if "quiet fs" for c x fs using that by (auto simp: list_all_iff)
  have r: "EvDestroy c x \<in> set es \<longleftrightarrow> c = toContainerCriID ?p \<and> x = y" if "reaped ?p y es" for c x y
    using that q by (auto simp: reaped_def)
  show ?thesis
    using es q [of es] r by (intro exI [of _ es]) (auto simp: reported_def split: res.splits if_splits)
qed

text \<open>A container that died, asked about under its own name.\<close>

definition dead_env :: env where
  "dead_env = base_env\<lparr>porto := base_porto\<lparr>o_Get := (\<lambda>h is ns. Inr [(''pod-1/app'',
     [\<lparr>Variable = ''state'', ValError = None, ValErrorMsg = [], Val = ''dead''\<rparr>])])\<rparr>\<rparr>"

theorem dead_container_reaped_witness:
  "\<exists>st w'. run_state (ContainerStatus dead_env ''pod-1/app'') base_world = (Ok st, w') \<and> cs_State st = CONTAINER_EXITED
     \<and> EvDestroy ''pod-1/app'' (Inr ()) \<in> set (w_trace w')"
proof -
  have c: "isContainer ''pod-1/app'' []" "toContainerCriID ''pod-1/app'' = ''pod-1/app''" "\<not> isPrivilegedContainer ''pod-1/app''"
    "Join ''/'' [Dir ''pod-1/app'', Base ''pod-1/app'', privCntName] = ''pod-1/app/privileged''" by code_simp+
  have e: "convertFromPortoLabels [] = Ok ([], [])" by (simp add: convertFromPortoLabels_def)
  have n: "o_GetProperty (porto dead_env) h j nm = Inl no_container" "o_Destroy (porto dead_env) h j = Inr ()"
    "o_Get (porto dead_env) h js ns = Inr [(''pod-1/app'', [\<lparr>Variable = ''state'', ValError = None, ValErrorMsg = [], Val = ''dead''\<rparr>])]"
    for h j nm js ns by (simp_all add: dead_env_def base_porto_def)
  have a: "asked_name dead_env h [] ''pod-1/app'' = ''pod-1/app''" for h
    by (simp add: asked_name_def n add_prefix_def)
  have "\<exists>st w'. run_state (ContainerStatus dead_env ''pod-1/app'') base_world = (Ok st, w') \<and> cs_State st = CONTAINER_EXITED"
    by (simp add: ContainerStatus_def generateFullContainerName_def addPortoPrefix_def getParentCnt_def getProperties_def
        add_prefix_def base_world_def status_labels_def mget_str_def destroyDead_def convertContainerState_def
        containerStateMap_def getContainerImage_def c c(4) [simplified] n e run_simps Let_def)
  then obtain st w' where r: "run_state (ContainerStatus dead_env ''pod-1/app'') base_world = (Ok st, w')" "cs_State st = CONTAINER_EXITED"
    by blast
  have "w_parent base_world = Some []" by (simp add: base_world_def)
  from dead_container_reaped [OF r(1) this] r show ?thesis by (auto simp: a c(2) base_world_def)
qed


text \<open>A privileged container and its child: one item, the child under the name of its parent.\<close>

definition both_labels :: "(string, string) gomap" where
  "both_labels = [(''portoshim.container.id'', ''x''), (''portoshim.container.image'', ''img''), (''priv'', ''true'')]"

definition both_properties :: "(string, (string, string) gomap) gomap" where
  "both_properties =
     [(''pod-1/app'', [(''labels'', stored_labels both_labels), (''state'', ''running'')]),
      (''pod-1/app/privileged'', [(''state'', ''dead'')])]"

definition any_container :: ContainerFilter where
  "any_container = \<lparr>cf_Id = [], cf_State = None, cf_PodSandboxId = [], cf_Labels = []\<rparr>"

lemma both_ids:
  "isContainer (toContainerCriID ''pod-1/app'') []" "isContainer (toContainerCriID ''pod-1/app/privileged'') []"
  "isPrivilegedContainer ''pod-1/app/privileged''" "toContainerCriID ''pod-1/app/privileged'' = ''pod-1/app''"
  by code_simp+

lemma both_run:
  assumes "w_parent w = Some []" "cf_State f = None" "cf_Labels f = []"
  shows "\<exists>c. run_state (list_containers E [] f both_properties [] [''pod-1/app'', ''pod-1/app/privileged'']) w
      = (Ok [c], w) \<and> c_Id c = ''pod-1/app''"
proof -
  have "wf_map both_labels" by (simp add: both_labels_def)
  from stored_labels_read [OF this] obtain L' A' where
    l: "convertFromPortoLabels (stored_labels both_labels) = Ok (L', A')" "map_of L' = map_of both_labels" by blast
  have e: "convertFromPortoLabels [] = Ok ([], [])" by (simp add: convertFromPortoLabels_def)
  have g: "mget L' ''priv'' = Some ''true''" "mget L' ''portoshim.container.id'' = Some ''x''"
    "mget L' ''portoshim.container.image'' = Some ''img''" by (simp_all add: l(2) both_labels_def)
  show ?thesis
    using both_ids assms
    by (simp add: both_properties_def shown_labels_def mget_str_def l(1) g e run_step_or show_container_def
        getContainerImage_def skip_container_def removePortoPrefix_def remove_prefix_def getParentCnt_def run_simps)
qed

definition both_env :: env where
  "both_env = base_env\<lparr>porto := base_porto\<lparr>o_ListContainers := (\<lambda>h m. Inr [''pod-1/app'', ''pod-1/app/privileged'', ''pod-2/app'']),
     o_GetProperties := (\<lambda>h is ns. Inr both_properties)\<rparr>\<rparr>"

definition pod_filter :: ContainerFilter where
  "pod_filter = any_container\<lparr>cf_PodSandboxId := ''pod-1''\<rparr>"

lemma both_listed:
  "\<exists>c w'. run_state (ListContainersOp both_env pod_filter) base_world = (Ok [c], w') \<and> c_Id c = ''pod-1/app''"
proof -
  let ?w = "\<lparr>w_trace = [EvListContainers ''pod-1/***'' (Inr [''pod-1/app'', ''pod-1/app/privileged'', ''pod-2/app'']),
     EvGetProperties [''pod-1/app'', ''pod-1/app/privileged''] [''labels'', ''state'', ''creation_time[raw]''] (Inr both_properties)],
     w_parent = Some [], w_tmpfs = [], w_registries = []\<rparr>"
  have "w_parent ?w = Some []" by simp
  from both_run [OF this, where E = both_env and f = pod_filter] obtain c
    where c: "run_state (list_containers both_env [] pod_filter both_properties [] [''pod-1/app'', ''pod-1/app/privileged'']) ?w = (Ok [c], ?w)"
      "c_Id c = ''pod-1/app''" by (auto simp: pod_filter_def any_container_def)
  have f: "filter_loop [] ''pod-1'' [''pod-1/app'', ''pod-1/app/privileged'', ''pod-2/app''] 0 0 = Ok [''pod-1/app'', ''pod-1/app/privileged'']"
    by (subst filter_loop_spec) (auto simp: remove_prefix_def under_target_def)
  have o: "o_ListContainers (porto both_env) h m = Inr [''pod-1/app'', ''pod-1/app/privileged'', ''pod-2/app'']"
    "o_GetProperties (porto both_env) h js ns = Inr both_properties" for h m js ns
    by (simp_all add: both_env_def)
  have "list_mask (Cfg both_env) pod_filter = ''pod-1/***''" by (simp add: list_mask_def pod_filter_def any_container_def)
  then show ?thesis
    using c f by (simp add: ListContainersOp_def narrow_def filterContainerIDs_def o pod_filter_def any_container_def
        base_world_def getParentCnt_def run_simps Let_def)
qed


text \<open>
  A privileged child whose environment could not be copied is never started: the call that
  created it fails and leaves it behind, and every later call that finds it "stopped" takes it for
  a started one, succeeds and does nothing.
\<close>

theorem child_left_stopped:
  fixes E :: env
  assumes "o_GetProperty (porto E) (w_trace w) (path_Join [parent, privCntName]) ''state'' = Inl e0"
    and "\<And>h sp. o_CreateFromSpec (porto E) h sp [] False = Inr ()"
    and "\<And>h. o_GetProperty (porto E) h parent ''env'' = Inl e1"
    and "o_GetProperty (porto E) (w_trace w2) (path_Join [parent, privCntName]) ''state'' = Inr ''stopped''"
  shows "(\<exists>sp w1. run_state (createPrivCnt E parent cmds) w = (Err (FmtV ''createPrivCnt: get env'' e1), w1)
       \<and> w_trace w1 = w_trace w @ [EvGetProperty (path_Join [parent, privCntName]) ''state'' (Inl e0),
           EvCreateFromSpec sp [] False (Inr ()), EvGetProperty parent ''env'' (Inl e1)])
    \<and> run_state (createPrivCnt E parent cmds) w2 = (Ok (), w2\<lparr>w_trace := w_trace w2
         @ [EvGetProperty (path_Join [parent, privCntName]) ''state'' (Inr ''stopped'')]\<rparr>)"
  using assms by (simp add: createPrivCnt_def run_simps Let_def)

text \<open>Porto reports the child as missing at first and as stopped once it was created.\<close>

definition child_env :: env where
  "child_env = base_env\<lparr>porto := base_porto\<lparr>o_GetProperty := (\<lambda>h i n.
     if n = ''state'' \<and> h \<noteq> [] then Inr ''stopped'' else Inl no_container)\<rparr>\<rparr>"

theorem child_left_stopped_witness:
  "(\<exists>w1. run_state (createPrivCnt child_env ''pod-1/app'' [''sh'']) base_world
      = (Err (FmtV ''createPrivCnt: get env'' no_container), w1))
   \<and> fst (run_state (createPrivCnt child_env ''pod-1/app'' [''sh'']) (base_world\<lparr>w_trace := [EvSleep 0]\<rparr>)) = Ok ()"
proof -
  from child_left_stopped [where E = child_env and w = base_world and parent = "''pod-1/app''" and ?e0.0 = no_container
      and ?e1.0 = no_container and ?w2.0 = "base_world\<lparr>w_trace := [EvSleep 0]\<rparr>" and cmds = "[''sh'']"]
  show ?thesis by (auto simp: child_env_def base_world_def base_porto_def base_env_def)
qed

end
