(* ===== verification/Stats.thy ===== *)
theory Stats
  imports Container_Ops
begin

text \<open>
  Statistics of pods and containers, the version and the status of the runtime, and the handlers
  that only answer (runtime_mapper.go). A statistics record the program could not fill is the nil
  pointer of the source, here \<open>None\<close>.
\<close>

section \<open>Statistics\<close>

record CpuUsage =
  cu_Timestamp :: int
  cu_UsageCoreNanoSeconds :: u64
  cu_UsageNanoCores :: u64

record MemoryUsage =
  mu_Timestamp :: int
  mu_WorkingSetBytes :: u64
  mu_AvailableBytes :: u64
  mu_UsageBytes :: u64
  mu_RssBytes :: u64
  mu_PageFaults :: u64
  mu_MajorPageFaults :: u64

record ContainerStatsRec =
  ct_Id :: string
  ct_Metadata :: ContainerMetadata
  ct_Labels :: "(string, string) gomap"
  ct_Annotations :: "(string, string) gomap"
  ct_Cpu :: CpuUsage
  ct_Memory :: MemoryUsage
  ct_Mountpoint :: string
  ct_UsedBytes :: u64
  ct_InodesUsed :: u64

record PodStatsRec =
  pt_Id :: string
  pt_Metadata :: PodSandboxMetadata
  pt_Labels :: "(string, string) gomap"
  pt_Annotations :: "(string, string) gomap"
  pt_Cpu :: CpuUsage
  pt_Memory :: MemoryUsage
  pt_Interface :: string
  pt_RxBytes :: u64
  pt_TxBytes :: u64
  pt_ProcessCount :: u64
  pt_Containers :: "ContainerStatsRec option list"

definition cpu_usage :: "int \<Rightarrow> (string, string) gomap \<Rightarrow> CpuUsage" where
  "cpu_usage timestamp props =
     (let cpu = convertValueToUint (mget_str props ''cpu_usage'')
      in \<lparr>cu_Timestamp = timestamp, cu_UsageCoreNanoSeconds = cpu, cu_UsageNanoCores = cpu div 1000000000\<rparr>)"

definition memory_usage :: "int \<Rightarrow> (string, string) gomap \<Rightarrow> MemoryUsage" where
  "memory_usage timestamp props =
     \<lparr>mu_Timestamp = timestamp, mu_WorkingSetBytes = 0, mu_AvailableBytes = 0,
      mu_UsageBytes = convertValueToUint (mget_str props ''memory_usage''), mu_RssBytes = 0,
      mu_PageFaults = convertValueToUint (mget_str props ''minor_faults''),
      mu_MajorPageFaults = convertValueToUint (mget_str props ''major_faults'')\<rparr>"

definition getContainerStats :: "env \<Rightarrow> string \<Rightarrow> string \<Rightarrow> ContainerStatsRec option res prog" where
  "getContainerStats E i portoid = do {
     timestamp \<leftarrow> Now E;
     r \<leftarrow> getProperties E portoid [''labels'', ''cpu_usage'', ''memory_usage'', ''minor_faults'', ''major_faults''];
     case r of
       Err e \<Rightarrow> ret (Ok None)
     | Panic s \<Rightarrow> ret (Panic s)
     | Ok props \<Rightarrow>
         step_or id (ret (convertFromPortoLabels (mget_str props ''labels''))) (\<lambda>(labels, annotations).
         ret (Ok (Some
           \<lparr>ct_Id = i, ct_Metadata = convertContainerMetadata labels, ct_Labels = labels, ct_Annotations = annotations,
            ct_Cpu = cpu_usage timestamp props, ct_Memory = memory_usage timestamp props,
            ct_Mountpoint = getRootPath E i, ct_UsedBytes = 0, ct_InodesUsed = 0\<rparr>)))
   }"

fun stats_of_children :: "env \<Rightarrow> ContainerStatsRec option list \<Rightarrow> string list \<Rightarrow> ContainerStatsRec option list res prog" where
  "stats_of_children E stats [] = ret (Ok stats)"
| "stats_of_children E stats (portoCtrID # ids) =
     step_or id (removePortoPrefix E portoCtrID) (\<lambda>i.
     step_or id (getContainerStats E i portoCtrID) (\<lambda>s. stats_of_children E (stats @ [s]) ids))"

definition getPodStats :: "env \<Rightarrow> string \<Rightarrow> string \<Rightarrow> PodStatsRec option res prog" where
  "getPodStats E i portoid = do {
     timestamp \<leftarrow> Now E;
     response \<leftarrow> ListContainers E (portoid @ ''/*'');
     case response of
       Inl e \<Rightarrow> ret (Ok None)
     | Inr ids \<Rightarrow>
         step_or id (stats_of_children E [] ids) (\<lambda>stats. do {
           r \<leftarrow> getProperties E portoid [''labels'', ''cpu_usage'', ''memory_usage'', ''minor_faults'', ''major_faults'',
                  ''net_rx_bytes'', ''net_bytes'', ''process_count''];
           case r of
             Err e \<Rightarrow> ret (Ok None)
           | Panic s \<Rightarrow> ret (Panic s)
           | Ok props \<Rightarrow>
               step_or id (ret (convertFromPortoLabels (mget_str props ''labels''))) (\<lambda>(labels, annotations).
               ret (Ok (Some
                 \<lparr>pt_Id = i, pt_Metadata = convertPodMetadata labels, pt_Labels = labels, pt_Annotations = annotations,
                  pt_Cpu = cpu_usage timestamp props, pt_Memory = memory_usage timestamp props,
                  pt_Interface = defaultIfName,
                  pt_RxBytes = convertValueToUint (mget_str props ''net_rx_bytes''),
                  pt_TxBytes = convertValueToUint (mget_str props ''net_bytes''),
                  pt_ProcessCount = convertValueToUint (mget_str props ''process_count''),
                  pt_Containers = stats\<rparr>)))
         })
   }"

section \<open>The handlers of statistics\<close>

definition PodSandboxStats :: "env \<Rightarrow> string \<Rightarrow> PodStatsRec option res prog" where
  "PodSandboxStats E i = do { portoid \<leftarrow> addPortoPrefix E i; getPodStats E i portoid }"

definition ContainerStats :: "env \<Rightarrow> string \<Rightarrow> ContainerStatsRec option res prog" where
  "ContainerStats E i = do {
     parentCnt \<leftarrow> getParentCnt E;
     if \<not> isContainer i parentCnt then ret (Err (Errorf ''specified ID belongs to pod'' []))
     else do { portoid \<leftarrow> generateFullContainerName E i; getContainerStats E i portoid }
   }"

text \<open>Not an item of Kubernetes (\<open>mark\<close> is the label of the kind), or one the filter leaves out.\<close>

definition skip_stats :: "string \<Rightarrow> (string, string) gomap \<Rightarrow> (string, string) gomap \<Rightarrow> bool" where
  "skip_stats mark target labels \<longleftrightarrow>
     mget labels mark = None \<and> mget labels ''io.kubernetes.pod.namespace'' = None \<or> \<not> labels_match target labels"

text \<open>
  The loops of ListContainerStats and ListPodSandboxStats: \<open>keep\<close> is the test on the name, \<open>fill\<close>
  the function that fills one record.
\<close>

fun list_stats :: "env \<Rightarrow> (string \<Rightarrow> bool) \<Rightarrow> (string \<Rightarrow> string \<Rightarrow> 'a option res prog) \<Rightarrow> string \<Rightarrow> (string, string) gomap
    \<Rightarrow> 'a option list \<Rightarrow> string list \<Rightarrow> 'a option list res prog" where
  "list_stats E keep fill mark target stats [] = ret (Ok stats)"
| "list_stats E keep fill mark target stats (portoid # ids) =
     (if \<not> keep portoid then list_stats E keep fill mark target stats ids
      else do {
        r \<leftarrow> getProperties E portoid [''labels'', ''state''];
        case r of
          Err e \<Rightarrow> list_stats E keep fill mark target stats ids
        | Panic s \<Rightarrow> ret (Panic s)
        | Ok props \<Rightarrow>
            step_or id (ret (convertFromPortoLabels (mget_str props ''labels''))) (\<lambda>(labels, annotations).
            if skip_stats mark target labels then list_stats E keep fill mark target stats ids
            else step_or id (removePortoPrefix E portoid) (\<lambda>i.
                 step_or id (fill i portoid) (\<lambda>s.
                 list_stats E keep fill mark target (stats @ [s]) ids)))
      })"

record StatsFilter =
  sf_Id :: string
  sf_PodSandboxId :: string
  sf_Labels :: "(string, string) gomap"

definition stats_mask :: "StatsFilter \<Rightarrow> string" where
  "stats_mask f = (if sf_Id f \<noteq> [] then sf_Id f else if sf_PodSandboxId f \<noteq> [] then sf_PodSandboxId f @ ''/*'' else [])"

definition ListContainerStats :: "env \<Rightarrow> StatsFilter \<Rightarrow> ContainerStatsRec option list res prog" where
  "ListContainerStats E f = do {
     mask \<leftarrow> addPortoPrefix E (stats_mask f);
     call_or (FmtV ''ListContainerStats'') (ListContainers E mask) (\<lambda>response. do {
       parentCnt \<leftarrow> getParentCnt E;
       list_stats E (\<lambda>p. isContainer p parentCnt) (getContainerStats E) ''portoshim.container.id'' (sf_Labels f) [] response
     })
   }"

definition ListPodSandboxStats :: "env \<Rightarrow> StatsFilter \<Rightarrow> PodStatsRec option list res prog" where
  "ListPodSandboxStats E f = do {
     mask \<leftarrow> addPortoPrefix E (if sf_Id f \<noteq> [] then sf_Id f else ''*'');
     call_or (FmtV ''ListPodSandboxStats'') (ListContainers E mask) (\<lambda>response.
       list_stats E (\<lambda>p. True) (getPodStats E) ''portoshim.pod.id'' (sf_Labels f) [] response)
   }"

section \<open>Version, status and what is not there\<close>

record VersionResponse =
  v_Version :: string
  v_RuntimeName :: string
  v_RuntimeVersion :: string
  v_RuntimeApiVersion :: string

definition Version :: "env \<Rightarrow> string \<Rightarrow> VersionResponse res prog" where
  "Version E version =
     call_or (FmtV ''Version'') (GetVersion E) (\<lambda>tag.
     ret (Ok \<lparr>v_Version = version, v_RuntimeName = RuntimeName (Cfg E), v_RuntimeVersion = tag, v_RuntimeApiVersion = tag\<rparr>))"

definition Status :: "env \<Rightarrow> (string \<times> bool) list res prog" where
  "Status E = call_or (FmtV ''Status'') (GetVersion E) (\<lambda>tag. ret (Ok [(''RuntimeReady'', True), (''NetworkReady'', True)]))"

definition UpdateRuntimeConfig :: "unit res prog" where
  "UpdateRuntimeConfig = ret (Err (Errorf ''not implemented UpdateRuntimeConfig'' []))"

definition UpdateContainerResources :: "unit res prog" where
  "UpdateContainerResources = ret (Err (Errorf ''not implemented UpdateContainerResources'' []))"

definition ReopenContainerLog :: "unit res prog" where
  "ReopenContainerLog = ret (Ok ())"

definition Attach :: "unit res prog" where
  "Attach = ret (Err (Errorf ''not implemented Attach'' []))"

text \<open>The streaming server is a library; \<open>get\<close> is its answer with the address of the stream.\<close>

definition Exec :: "(goerr + string) \<Rightarrow> string res prog" where
  "Exec get = call_or (FmtV ''unable to prepare exec endpoint'') (ret get) (\<lambda>url. ret (Ok url))"

definition PortForward :: "env \<Rightarrow> (goerr + string) \<Rightarrow> string \<Rightarrow> string res prog" where
  "PortForward E get i = do {
     parentCnt \<leftarrow> getParentCnt E;
     if \<not> isPod i parentCnt then ret (Err (Errorf ''is not a pod sandbox ID'' [i]))
     else call_or (FmtV ''unable to prepare port forward endpoint'') (ret get) (\<lambda>url. ret (Ok url))
   }"

section \<open>What the statistics say\<close>

text \<open>The answer of Porto to a question for properties, after the history \<open>h\<close>.\<close>

definition props_answer :: "env \<Rightarrow> history \<Rightarrow> string \<Rightarrow> string list \<Rightarrow> (string, string) gomap res" where
  "props_answer E h i names = (case o_Get (porto E) h [i] names of
     Inl e \<Rightarrow> Err (FmtV ''getProperties'' e) | Inr items \<Rightarrow> collect_items i items [])"

lemma run_getProperties:
  "run_state (getProperties E i names) w = (props_answer E (w_trace w) i names,
     w\<lparr>w_trace := w_trace w @ [EvGet [i] names (o_Get (porto E) (w_trace w) [i] names)]\<rparr>)"
  by (simp add: getProperties_def props_answer_def run_simps split: sum.split)

text \<open>A field has the number Porto prints for a property, for every number of 64 bits.\<close>

definition printed :: "(string, string) gomap \<Rightarrow> string \<Rightarrow> u64 \<Rightarrow> bool" where
  "printed props k v \<longleftrightarrow> (\<forall>n < 2 ^ 64. mget props k = Some (dec n) \<longrightarrow> unat v = n)"

lemma printed_value: "printed props k (convertValueToUint (mget_str props k))"
  by (simp add: printed_def mget_str_def convertValueToUint_def parse_uint_dec unat_of_nat)

definition usage_counted :: "(string, string) gomap \<Rightarrow> CpuUsage \<Rightarrow> MemoryUsage \<Rightarrow> bool" where
  "usage_counted props cpu memory \<longleftrightarrow>
     printed props ''cpu_usage'' (cu_UsageCoreNanoSeconds cpu) \<and> unat (cu_UsageNanoCores cpu) = unat (cu_UsageCoreNanoSeconds cpu) div 10 ^ 9
     \<and> printed props ''memory_usage'' (mu_UsageBytes memory) \<and> printed props ''minor_faults'' (mu_PageFaults memory)
     \<and> printed props ''major_faults'' (mu_MajorPageFaults memory)
     \<and> mu_WorkingSetBytes memory = 0 \<and> mu_AvailableBytes memory = 0 \<and> mu_RssBytes memory = 0"

lemma usage_counted: "usage_counted props (cpu_usage t props) (memory_usage t props)"
  by (simp add: usage_counted_def cpu_usage_def memory_usage_def printed_value Let_def unat_div)

text \<open>The question for \<open>names\<close> of \<open>i\<close> that was asked after the history \<open>h\<close> is in the history \<open>tr\<close>.\<close>

definition question :: "env \<Rightarrow> history \<Rightarrow> string \<Rightarrow> string list \<Rightarrow> history \<Rightarrow> bool" where
  "question E h i names tr \<longleftrightarrow> prefix (h @ [EvGet [i] names (o_Get (porto E) h [i] names)]) tr"

definition container_counters :: "string list" where
  "container_counters = [''labels'', ''cpu_usage'', ''memory_usage'', ''minor_faults'', ''major_faults'']"

definition pod_counters :: "string list" where
  "pod_counters = container_counters @ [''net_rx_bytes'', ''net_bytes'', ''process_count'']"

text \<open>
  The statistics of the container \<open>portoid\<close>, by an answer of Porto in the history \<open>tr\<close>: missing only
  where Porto answered with an error.
\<close>

definition container_counted :: "env \<Rightarrow> history \<Rightarrow> string \<Rightarrow> string \<Rightarrow> ContainerStatsRec option \<Rightarrow> bool" where
  "container_counted E tr i portoid c \<longleftrightarrow> (\<exists>h. question E h portoid container_counters tr \<and> (case c of
     None \<Rightarrow> \<exists>e. props_answer E h portoid container_counters = Err e
   | Some s \<Rightarrow> \<exists>props. props_answer E h portoid container_counters = Ok props
       \<and> convertFromPortoLabels (mget_str props ''labels'') = Ok (ct_Labels s, ct_Annotations s)
       \<and> ct_Id s = i \<and> ct_Metadata s = convertContainerMetadata (ct_Labels s) \<and> ct_Mountpoint s = getRootPath E i
       \<and> usage_counted props (ct_Cpu s) (ct_Memory s)))"

lemma container_counted_mono: "container_counted E tr i n c \<Longrightarrow> prefix tr tr' \<Longrightarrow> container_counted E tr' i n c"
  unfolding container_counted_def question_def by (meson prefix_order.trans)

lemma from_pairs_no_Err: "no_Err (from_pairs ps L A)"
  by (induction ps L A rule: from_pairs.induct) (auto simp: Let_def split: list.split)

lemma convertFromPortoLabels_no_Err: "convertFromPortoLabels l \<noteq> Err e"
  using from_pairs_no_Err [of "Split (CHR '';'') l" "[]" "[]"] by (auto simp: convertFromPortoLabels_def)

lemma getContainerStats_counted:
  assumes "run_state (getContainerStats E i portoid) w = (r, w')"
  shows "(case r of Ok c \<Rightarrow> container_counted E (w_trace w') i portoid c | Err e \<Rightarrow> False | Panic s \<Rightarrow> True)
    \<and> prefix (w_trace w) (w_trace w') \<and> w_parent w' = w_parent w"
proof (cases "props_answer E (w_trace w) portoid container_counters")
  case (Ok props)
  show ?thesis
  proof (cases "convertFromPortoLabels (mget_str props ''labels'')")
    case la: (Ok la)
    have "w_trace w' = w_trace w @ [EvGet [portoid] container_counters (o_Get (porto E) (w_trace w) [portoid] container_counters)]"
      and "w_parent w' = w_parent w"
      and r: "\<exists>s. r = Ok (Some s) \<and> (ct_Labels s, ct_Annotations s) = la \<and> ct_Id s = i
        \<and> ct_Metadata s = convertContainerMetadata (ct_Labels s) \<and> ct_Mountpoint s = getRootPath E i
        \<and> usage_counted props (ct_Cpu s) (ct_Memory s)"
      using assms Ok la
      by (auto simp: getContainerStats_def run_simps run_getProperties container_counters_def usage_counted split: prod.splits)
    then show ?thesis using Ok la by (auto simp: container_counted_def question_def intro!: exI [of _ "w_trace w"] exI [of _ props])
  qed (use assms Ok in \<open>auto simp: getContainerStats_def run_simps run_getProperties container_counters_def
      convertFromPortoLabels_no_Err\<close>)
qed (use assms in \<open>auto simp: getContainerStats_def run_simps run_getProperties container_counters_def container_counted_def question_def
      intro!: exI [of _ "w_trace w"]\<close>)

definition child_counted :: "env \<Rightarrow> history \<Rightarrow> string \<Rightarrow> string \<Rightarrow> ContainerStatsRec option \<Rightarrow> bool" where
  "child_counted E tr parent n c \<longleftrightarrow> (\<exists>i. remove_prefix parent n = Ok i \<and> container_counted E tr i n c)"

lemma stats_of_children_counted:
  assumes "run_state (stats_of_children E stats names) w = (r, w')" "w_parent w = Some parent"
  shows "(case r of Ok out \<Rightarrow> \<exists>more. out = stats @ more \<and> list_all2 (child_counted E (w_trace w') parent) names more
      | Err e \<Rightarrow> False | Panic s \<Rightarrow> True) \<and> prefix (w_trace w) (w_trace w')"
  using assms
proof (induction names arbitrary: stats w)
  case (Cons n names)
  have pre: "run_state (removePortoPrefix E n) w = (remove_prefix parent n, w)"
    using Cons.prems(2) by (simp add: removePortoPrefix_def getParentCnt_def run_simps)
  show ?case
  proof (cases "remove_prefix parent n")
    case (Ok i)
    obtain r1 w1 where r1: "run_state (getContainerStats E i n) w = (r1, w1)" by force
    note c = getContainerStats_counted [OF r1]
    show ?thesis
    proof (cases r1)
      case o: (Ok c1)
      have run: "run_state (stats_of_children E (stats @ [c1]) names) w1 = (r, w')"
        using Cons.prems(1) pre Ok r1 o by (simp add: run_step_or)
      have "w_parent w1 = Some parent" using c Cons.prems(2) by simp
      note IH = Cons.IH [OF run this]
      have "child_counted E (w_trace w') parent n c1"
        using c o Ok IH by (auto simp: child_counted_def intro: container_counted_mono)
      then show ?thesis using IH c by (auto split: res.splits intro: prefix_order.trans)
    qed (use c Cons.prems(1) pre Ok r1 in \<open>auto simp: run_step_or\<close>)
  qed (use Cons.prems(1) pre in \<open>auto simp: run_step_or remove_prefix_def split: if_splits\<close>)
qed auto

text \<open>The statistics of the pod \<open>portoid\<close>, whose containers Porto lists as \<open>names\<close>.\<close>

definition pod_counted :: "env \<Rightarrow> history \<Rightarrow> string \<Rightarrow> string \<Rightarrow> string \<Rightarrow> string list \<Rightarrow> PodStatsRec \<Rightarrow> bool" where
  "pod_counted E tr parent i portoid names s \<longleftrightarrow> (\<exists>h props. question E h portoid pod_counters tr
     \<and> props_answer E h portoid pod_counters = Ok props
     \<and> convertFromPortoLabels (mget_str props ''labels'') = Ok (pt_Labels s, pt_Annotations s)
     \<and> pt_Id s = i \<and> pt_Metadata s = convertPodMetadata (pt_Labels s) \<and> usage_counted props (pt_Cpu s) (pt_Memory s)
     \<and> printed props ''net_rx_bytes'' (pt_RxBytes s) \<and> printed props ''net_bytes'' (pt_TxBytes s)
     \<and> printed props ''process_count'' (pt_ProcessCount s)
     \<and> list_all2 (child_counted E tr parent) names (pt_Containers s))"

lemma getPodStats_end:
  assumes "run_state (do {
           r \<leftarrow> getProperties E portoid pod_counters;
           case r of
             Err e \<Rightarrow> ret (Ok None)
           | Panic s \<Rightarrow> ret (Panic s)
           | Ok props \<Rightarrow>
               step_or id (ret (convertFromPortoLabels (mget_str props ''labels''))) (\<lambda>(labels, annotations).
               ret (Ok (Some
                 \<lparr>pt_Id = i, pt_Metadata = convertPodMetadata labels, pt_Labels = labels, pt_Annotations = annotations,
                  pt_Cpu = cpu_usage timestamp props, pt_Memory = memory_usage timestamp props,
                  pt_Interface = defaultIfName,
                  pt_RxBytes = convertValueToUint (mget_str props ''net_rx_bytes''),
                  pt_TxBytes = convertValueToUint (mget_str props ''net_bytes''),
                  pt_ProcessCount = convertValueToUint (mget_str props ''process_count''),
                  pt_Containers = stats\<rparr>)))
         }) w = (r, w')"
    and "list_all2 (child_counted E (w_trace w) parent) names stats"
  shows "case r of Ok (Some s) \<Rightarrow> pod_counted E (w_trace w') parent i portoid names s
    | Ok None \<Rightarrow> \<exists>h e. question E h portoid pod_counters (w_trace w') \<and> props_answer E h portoid pod_counters = Err e
    | Err e \<Rightarrow> False | Panic s \<Rightarrow> True"
proof -
  note question_def [simp]
  have mono: "list_all2 (child_counted E (w_trace w @ es) parent) names stats" for es
    using assms(2) by (rule list_all2_mono) (auto simp: child_counted_def elim!: container_counted_mono)
  show ?thesis
  proof (cases "props_answer E (w_trace w) portoid pod_counters")
    case (Ok props)
    show ?thesis
    proof (cases "convertFromPortoLabels (mget_str props ''labels'')")
      case la: (Ok la)
      obtain labels annotations where "la = (labels, annotations)" by force
      then show ?thesis
        using assms(1) Ok la mono
        by (auto simp: run_simps run_getProperties pod_counted_def question_def usage_counted printed_value
            intro!: exI [of _ "w_trace w"] exI [of _ props])
    qed (use assms(1) Ok in \<open>auto simp: run_simps run_getProperties convertFromPortoLabels_no_Err\<close>)
  qed (use assms(1) in \<open>auto simp: run_simps run_getProperties intro!: exI [of _ "w_trace w"]\<close>)
qed

section \<open>Properties\<close>

text \<open>
  The statistics of a container are the numbers Porto prints, exactly and for every value of 64
  bits; the current use of the processors is the total use in whole seconds, so that it is not a
  number of nanocores and only grows.
\<close>

theorem container_stats_exact:
  fixes E :: env and w :: world
  assumes "o_Get (porto E) (w_trace w) [portoid] [''labels'', ''cpu_usage'', ''memory_usage'', ''minor_faults'', ''major_faults''] = Inr items"
    and "collect_items portoid items [] = Ok props"
    and "convertFromPortoLabels (mget_str props ''labels'') = Ok (labels, annotations)"
    and "mget props ''cpu_usage'' = Some (dec c)" "c < 2 ^ 64"
    and "mget props ''memory_usage'' = Some (dec m)" "m < 2 ^ 64"
  shows "\<exists>s. fst (run_state (getContainerStats E i portoid) w) = Ok (Some s) \<and> ct_Id s = i \<and> ct_Labels s = labels
    \<and> unat (cu_UsageCoreNanoSeconds (ct_Cpu s)) = c \<and> unat (mu_UsageBytes (ct_Memory s)) = m
    \<and> unat (cu_UsageNanoCores (ct_Cpu s)) = c div 10 ^ 9"
proof -
  have u: "unat (convertValueToUint (dec n)) = n" if "n < 2 ^ 64" for n
    using that by (simp add: convertValueToUint_def parse_uint_dec unat_of_nat)
  have v: "mget_str props ''cpu_usage'' = dec c" "mget_str props ''memory_usage'' = dec m"
    using assms(4,6) by (simp_all add: mget_str_def)
  show ?thesis
    using assms(1-3) u [OF assms(5)] u [OF assms(7)]
    by (simp add: getContainerStats_def getProperties_def run_simps cpu_usage_def memory_usage_def v Let_def unat_div)
qed

text \<open>A container that used three seconds and five bytes.\<close>

definition stats_env :: env where
  "stats_env = base_env\<lparr>porto := base_porto\<lparr>o_Get := (\<lambda>h is ns. Inr [(''pod-1/app'',
     [\<lparr>Variable = ''cpu_usage'', ValError = None, ValErrorMsg = [], Val = dec 3000000007\<rparr>,
      \<lparr>Variable = ''memory_usage'', ValError = None, ValErrorMsg = [], Val = dec 5\<rparr>])])\<rparr>\<rparr>"

theorem container_stats_exact_witness:
  "\<exists>s. fst (run_state (getContainerStats stats_env ''pod-1/app'' ''pod-1/app'') base_world) = Ok (Some s)
     \<and> unat (cu_UsageCoreNanoSeconds (ct_Cpu s)) = 3000000007 \<and> unat (cu_UsageNanoCores (ct_Cpu s)) = 3"
proof -
  let ?items = "[(''pod-1/app'', [\<lparr>Variable = ''cpu_usage'', ValError = None, ValErrorMsg = [], Val = dec 3000000007\<rparr>,
      \<lparr>Variable = ''memory_usage'', ValError = None, ValErrorMsg = [], Val = dec 5\<rparr>])]"
  have "convertFromPortoLabels [] = Ok ([], [])" by (simp add: convertFromPortoLabels_def)
  from container_stats_exact [where E = stats_env and w = base_world and portoid = "''pod-1/app''" and items = ?items
      and props = "[(''cpu_usage'', dec 3000000007), (''memory_usage'', dec 5)]" and c = 3000000007 and m = 5
      and labels = "[]" and annotations = "[]" and i = "''pod-1/app''"] this
  show ?thesis by (simp add: stats_env_def mget_str_def) blast
qed

text \<open>
  C40. The statistics of a pod are what Porto prints: every counter of the pod (processors, memory, page
  faults, network, processes) has the number of its own property, for every value of 64 bits, with the
  labels and the annotations stored at the pod, and each container Porto lists under the pod has one
  record, in that order, under its name without prefix, with its own numbers, missing only where Porto
  answered with an error. The whole record is missing only where Porto failed, and there is no error.
\<close>

theorem pod_stats_exact:
  assumes "run_state (getPodStats E i portoid) w = (r, w')" "w_parent w = Some parent"
  shows "case r of
    Ok (Some s) \<Rightarrow> (\<exists>names. o_ListContainers (porto E) (w_trace w) (portoid @ ''/*'') = Inr names
      \<and> pod_counted E (w_trace w') parent i portoid names s)
  | Ok None \<Rightarrow> (\<exists>e. o_ListContainers (porto E) (w_trace w) (portoid @ ''/*'') = Inl e)
      \<or> (\<exists>h e. question E h portoid pod_counters (w_trace w') \<and> props_answer E h portoid pod_counters = Err e)
  | Err e \<Rightarrow> False
  | Panic s \<Rightarrow> True"
proof (cases "o_ListContainers (porto E) (w_trace w) (portoid @ ''/*'')")
  case (Inl e)
  then show ?thesis using assms(1) by (auto simp: getPodStats_def run_simps)
next
  case (Inr names)
  let ?w = "w\<lparr>w_trace := w_trace w @ [EvListContainers (portoid @ ''/*'') (Inr names)]\<rparr>"
  obtain r1 w1 where r1: "run_state (stats_of_children E [] names) ?w = (r1, w1)" by force
  have "w_parent ?w = Some parent" using assms(2) by simp
  note c = stats_of_children_counted [OF r1 this]
  show ?thesis
  proof (cases r1)
    case (Ok stats)
    note e = getPodStats_end [where i = i and portoid = portoid and w = w1 and r = r and w' = w' and E = E
        and parent = parent and names = names and stats = stats]
    show ?thesis
      using assms(1) Inr r1 Ok c e
      by (auto simp: getPodStats_def run_simps pod_counters_def container_counters_def split: res.splits option.splits)
  qed (use c assms(1) Inr r1 in \<open>auto simp: getPodStats_def run_simps\<close>)
qed

text \<open>A pod with one container; both used three seconds, and the pod sent and received.\<close>

definition pod_stats_env :: env where
  "pod_stats_env = base_env\<lparr>porto := base_porto\<lparr>o_ListContainers := (\<lambda>h m. Inr [''pod-1/app'']), o_Get := (\<lambda>h is ns. Inr [(hd is,
     [\<lparr>Variable = ''cpu_usage'', ValError = None, ValErrorMsg = [], Val = dec 3000000007\<rparr>,
      \<lparr>Variable = ''net_bytes'', ValError = None, ValErrorMsg = [], Val = dec 9\<rparr>])])\<rparr>\<rparr>"

theorem pod_stats_exact_witness:
  "\<exists>s c w'. run_state (getPodStats pod_stats_env ''pod-1'' ''pod-1'') base_world = (Ok (Some s), w')
     \<and> unat (cu_UsageNanoCores (pt_Cpu s)) = 3 \<and> unat (pt_TxBytes s) = 9
     \<and> pt_Containers s = [Some c] \<and> unat (cu_UsageCoreNanoSeconds (ct_Cpu c)) = 3000000007"
proof -
  let ?v = "[\<lparr>Variable = ''cpu_usage'', ValError = None, ValErrorMsg = [], Val = dec 3000000007\<rparr>,
      \<lparr>Variable = ''net_bytes'', ValError = None, ValErrorMsg = [], Val = dec 9\<rparr>]"
  have l: "convertFromPortoLabels [] = Ok ([], [])" by (simp add: convertFromPortoLabels_def)
  have a: "props_answer pod_stats_env h i ns = Ok [(''cpu_usage'', dec 3000000007), (''net_bytes'', dec 9)]" for h i ns
    by (simp add: props_answer_def pod_stats_env_def)
  have n: "o_ListContainers (porto pod_stats_env) h m = Inr [''pod-1/app'']" for h m by (simp add: pod_stats_env_def)
  have "\<exists>s c w'. run_state (getPodStats pod_stats_env ''pod-1'' ''pod-1'') base_world = (Ok (Some s), w') \<and> pt_Containers s = [Some c]"
    by (simp add: getPodStats_def getContainerStats_def run_simps run_getProperties a n l mget_str_def removePortoPrefix_def
        getParentCnt_def remove_prefix_def base_world_def)
  then obtain s c w' where r: "run_state (getPodStats pod_stats_env ''pod-1'' ''pod-1'') base_world = (Ok (Some s), w')"
    "pt_Containers s = [Some c]" by blast
  have "w_parent base_world = Some []" by (simp add: base_world_def)
  from pod_stats_exact [OF r(1) this] r(2) have "usage_counted [(''cpu_usage'', dec 3000000007), (''net_bytes'', dec 9)] (pt_Cpu s) (pt_Memory s)"
    "printed [(''cpu_usage'', dec 3000000007), (''net_bytes'', dec 9)] ''net_bytes'' (pt_TxBytes s)"
    "usage_counted [(''cpu_usage'', dec 3000000007), (''net_bytes'', dec 9)] (ct_Cpu c) (ct_Memory c)"
    by (auto simp: pod_counted_def child_counted_def container_counted_def a n)
  then have "unat (cu_UsageCoreNanoSeconds (pt_Cpu s)) = 3000000007" "unat (pt_TxBytes s) = 9"
    "unat (cu_UsageCoreNanoSeconds (ct_Cpu c)) = 3000000007" "unat (cu_UsageNanoCores (pt_Cpu s)) = unat (cu_UsageCoreNanoSeconds (pt_Cpu s)) div 10 ^ 9"
    by (simp_all add: usage_counted_def printed_def)
  with r show ?thesis by simp
qed

end
