(* ===== verification/Kept.thy ===== *)
theory Kept
  imports Stats
begin

text \<open>
  What the handlers keep: a relation between the state before a step and the state after it is kept
  by a handler when the calls it makes and what it does to the globals keep it. The handlers come in
  four layers, by the calls they may make: those that only ask, those that leave containers alone,
  those that may start, stop and destroy them, and those that create them. Each is an interface: whatever relation the
  calls of a layer keep is kept by every handler of it.
\<close>

section \<open>Programs that keep a relation\<close>

text \<open>
  A relation between the state before a step and the state after it, which calls keep and steps in
  a row keep as well; what it asks of the globals is up to the relation.
\<close>

definition keeps :: "(world \<Rightarrow> world \<Rightarrow> bool) \<Rightarrow> 'a prog \<Rightarrow> bool" where
  "keeps R m \<longleftrightarrow> (\<forall>w. R w (snd (run_state m w)))"

lemma keepsI: "(\<And>w. R w (snd (run_state m w))) \<Longrightarrow> keeps R m"
  by (simp add: keeps_def)

lemma keepsD: "keeps R m \<Longrightarrow> run_state m w = (v, w') \<Longrightarrow> R w w'"
  unfolding keeps_def by (metis snd_conv)

lemma keeps_mod_world: "(\<And>w. R w (f w)) \<Longrightarrow> keeps R (mod_world f)"
  by (simp add: keeps_def run_mod_world)

lemma keeps_cases:
  "keeps R a \<Longrightarrow> keeps R b \<Longrightarrow> keeps R (if c then a else b)"
  "(\<And>e. keeps R (f e)) \<Longrightarrow> (\<And>v. keeps R (g v)) \<Longrightarrow> keeps R (case s of Inl e \<Rightarrow> f e | Inr v \<Rightarrow> g v)"
  "keeps R a \<Longrightarrow> (\<And>v. keeps R (h v)) \<Longrightarrow> keeps R (case x of None \<Rightarrow> a | Some v \<Rightarrow> h v)"
  "(\<And>v. keeps R (j v)) \<Longrightarrow> (\<And>e. keeps R (k e)) \<Longrightarrow> (\<And>t. keeps R (l t)) \<Longrightarrow> keeps R (case r of Ok v \<Rightarrow> j v | Err e \<Rightarrow> k e | Panic t \<Rightarrow> l t)"
  "(\<And>a b. keeps R (p a b)) \<Longrightarrow> keeps R (case y of (a, b) \<Rightarrow> p a b)"
  "keeps R a \<Longrightarrow> (\<And>z zs. keeps R (q z zs)) \<Longrightarrow> keeps R (case xs of [] \<Rightarrow> a | z # zs \<Rightarrow> q z zs)"
  by (simp_all split: sum.split option.split res.split prod.split list.split)

named_theorems kept_rules \<open>steps that keep a relation\<close>

locale kept =
  fixes R :: "world \<Rightarrow> world \<Rightarrow> bool" and allowed :: "event \<Rightarrow> bool"
  assumes refl: "R w w"
    and trans: "R u v \<Longrightarrow> R v w \<Longrightarrow> R u w"
    and called: "allowed ev \<Longrightarrow> R w (w\<lparr>w_trace := w_trace w @ [ev]\<rparr>)"
begin

lemma ret: "keeps R (ret v)"
  by (simp add: keeps_def refl)

lemma bind: "keeps R m \<Longrightarrow> (\<And>v. keeps R (k v)) \<Longrightarrow> keeps R (State_Monad.bind m k)"
  unfolding keeps_def by (metis (no_types, lifting) run_state_bind trans split_beta)

lemma calls: "(\<And>r. allowed (ev r)) \<Longrightarrow> keeps R (ask f ev)"
  by (simp add: keeps_def run_ask called)

lemma looks: "keeps R (look g)" "keeps R get_world"
  by (simp_all add: keeps_def run_look run_get_world refl)

lemma call_or: "keeps R m \<Longrightarrow> (\<And>v. keeps R (k v)) \<Longrightarrow> keeps R (call_or g m k)"
  unfolding call_or_def by (intro bind keeps_cases ret)

lemma step_or: "keeps R m \<Longrightarrow> (\<And>v. keeps R (k v)) \<Longrightarrow> keeps R (step_or g m k)"
  unfolding step_or_def by (intro bind keeps_cases ret)

lemma lift_call: "keeps R m \<Longrightarrow> keeps R (lift_call m)"
  unfolding lift_call_def by (intro bind ret)

lemmas rules [kept_rules] = ret bind looks call_or step_or lift_call keeps_cases

end

lemmas porto_calls = GetProperty_def SetProperty_def Get_def GetProperties_def ListContainers_def CreateFromSpec_def
  UpdateFromSpec_def Start_def Kill_def StopTimeout_def Destroy_def Wait_def GetVersion_def CreateVolume_def
  LinkVolumeTarget_def UnlinkVolume_def ListVolumes_def DockerImageStatus_def PullDockerImage_def ListDockerImages_def
  RemoveDockerImage_def CniLoad_def CniSetup_def CniRemove_def NewNetNS_def NetNSClosed_def NetNSRemove_def MkdirAll_def
  RemoveAll_def CreateFile_def Dup_def CopyDir_def MkdirTemp_def WriteFile_def Intn_def RandRead_def Remount_def
  RunHook_def Sleep_def Dial_def HangUp_def Pipe_def OpenPty_def CloseFd_def Remove_def Listen_def Chmod_def Lstat_def Stat_def Readlink_def ReadDir_def ReadFile_def Now_def

section \<open>Handlers that only ask\<close>

text \<open>
  The calls that change nothing but the images of Porto: questions about containers, volumes and
  images, pulling and removing an image, and the connection to Porto.
\<close>

definition asking_event :: "event \<Rightarrow> bool" where
  "asking_event ev = (case ev of EvGetProperty i n r \<Rightarrow> True | EvGet is ns r \<Rightarrow> True | EvGetProperties is ns r \<Rightarrow> True
     | EvListContainers p r \<Rightarrow> True | EvGetVersion r \<Rightarrow> True | EvListVolumes p i r \<Rightarrow> True
     | EvDockerImageStatus n p r \<Rightarrow> True | EvPullDockerImage n p k a s r \<Rightarrow> True | EvListDockerImages r \<Rightarrow> True
     | EvRemoveDockerImage n p r \<Rightarrow> True | EvDial r \<Rightarrow> True | EvHangUp \<Rightarrow> True | _ \<Rightarrow> False)"

lemma asking_quiet: "asking_event ev \<Longrightarrow> quiet_event ev"
  by (simp add: asking_event_def quiet_event_def split: event.splits)

locale kept_asking = kept +
  assumes asking: "asking_event ev \<Longrightarrow> allowed ev"
    and parent: "keeps R (getParentCnt E)"
begin

declare parent [kept_rules]

lemma asking_call [kept_rules]:
  "keeps R (GetProperty E i n)" "keeps R (Get E is ns)" "keeps R (GetProperties E is ns)" "keeps R (ListContainers E p)"
  "keeps R (GetVersion E)" "keeps R (ListVolumes E p i)" "keeps R (DockerImageStatus E p i)"
  "keeps R (PullDockerImage E p i t n q)" "keeps R (ListDockerImages E)" "keeps R (RemoveDockerImage E p i)"
  "keeps R (Dial E)" "keeps R HangUp"
  "keeps R (Lstat E p)" "keeps R (Stat E p)" "keeps R (Readlink E p)" "keeps R (ReadDir E p)" "keeps R (ReadFile E p)"
  "keeps R (Now E)"
  unfolding porto_calls by (rule calls looks asking | simp add: asking_event_def)+

lemma keeps_names [kept_rules]:
  "keeps R (addPortoPrefix E i)" "keeps R (removePortoPrefix E i)"
  "keeps R (generateFullContainerName E i)" "keeps R (filterContainerIDs E is t)" "keeps R (getProperties E i ns)"
  unfolding addPortoPrefix_def removePortoPrefix_def generateFullContainerName_def filterContainerIDs_def
    getProperties_def Let_def
  by (intro kept_rules)+

lemma keeps_list_pods [kept_rules]: "keeps R (list_pods E p f items is)"
proof (induction "is" arbitrary: items)
  case (Cons i "is")
  then show ?case unfolding list_pods.simps Let_def by (intro kept_rules)
qed (simp add: ret)

lemma keeps_list_containers [kept_rules]: "keeps R (list_containers E p f props cs is)"
proof (induction "is" arbitrary: cs)
  case (Cons i "is")
  then show ?case
    unfolding list_containers.simps show_container_def getContainerImage_def by (intro kept_rules)
qed (simp add: ret)

lemma keeps_container_stats [kept_rules]: "keeps R (getContainerStats E i p)"
  unfolding getContainerStats_def by (intro kept_rules)

lemma keeps_stats_of_children [kept_rules]: "keeps R (stats_of_children E stats is)"
proof (induction "is" arbitrary: stats)
  case (Cons i "is")
  then show ?case unfolding stats_of_children.simps by (intro kept_rules)
qed (simp add: ret)

lemma keeps_pod_stats [kept_rules]: "keeps R (getPodStats E i p)"
  unfolding getPodStats_def by (intro kept_rules)

lemma keeps_list_stats: "(\<And>i p. keeps R (fill i p)) \<Longrightarrow> keeps R (list_stats E keep fill mark target stats is)"
proof (induction "is" arbitrary: stats)
  case (Cons i "is")
  then show ?case unfolding list_stats.simps by (intro kept_rules) simp_all
qed (simp add: ret)

lemma keeps_stats_handlers [kept_rules]:
  "keeps R (PodSandboxStats E i)" "keeps R (ContainerStats E i)" "keeps R (ListContainerStats E f)" "keeps R (ListPodSandboxStats E f)"
  unfolding PodSandboxStats_def ContainerStats_def ListContainerStats_def ListPodSandboxStats_def
  by (intro kept_rules keeps_list_stats)+

lemma keeps_other_handlers [kept_rules]:
  "keeps R (Version E v)" "keeps R (Status E)" "keeps R UpdateRuntimeConfig" "keeps R UpdateContainerResources"
  "keeps R ReopenContainerLog" "keeps R Attach" "keeps R (Exec get)" "keeps R (PortForward E get i)"
  "keeps R (ListImages E)" "keeps R (ImageStatus E im)" "keeps R (PullImage E im pw)" "keeps R (RemoveImage E im)"
  "keeps R (ImageFsInfo E statfs)"
  unfolding Version_def Status_def UpdateRuntimeConfig_def UpdateContainerResources_def ReopenContainerLog_def Attach_def
    Exec_def PortForward_def ListImages_def PullImage_def RemoveImage_def ImageFsInfo_def Let_def
  by (intro kept_rules | simp add: ImageStatus_def ret kept_rules split: sum.split goerr.split)+

lemma keeps_listing [kept_rules]:
  "keeps R (PodSandboxStatusOp E i)" "keeps R (ListPodSandbox E pf)" "keeps R (ListContainersOp E cf)"
  unfolding PodSandboxStatusOp_def ListPodSandbox_def ListContainersOp_def narrow_def Let_def
  by (intro kept_rules)+

end

section \<open>Handlers that leave containers alone\<close>

text \<open>
  The next layer makes quiet calls and changes the map of copies: the steps that prepare a pod or a
  container.
\<close>

locale kept_quiet = kept_asking +
  assumes quiet: "quiet_event ev \<Longrightarrow> allowed ev"
    and copied: "keeps R (mod_world (\<lambda>w. w\<lparr>w_tmpfs := mset_at k d (w_tmpfs w)\<rparr>))"
      "keeps R (mod_world (\<lambda>w. w\<lparr>w_tmpfs := AList.delete k (w_tmpfs w)\<rparr>))"
begin

lemma quiet_call [kept_rules]:
  "keeps R (SetProperty E i n v)" "keeps R (UpdateFromSpec E sp b)"
  "keeps R (Wait E is k)" "keeps R (CreateVolume E p m)"
  "keeps R (LinkVolumeTarget E p i t b c)" "keeps R (UnlinkVolume E p i)"
  "keeps R (CniLoad E opts)" "keeps R (CniSetup E i p m m2)"
  "keeps R (NewNetNS E p)" "keeps R (NetNSClosed E p)" "keeps R (MkdirAll E p)" "keeps R (RemoveAll E p)"
  "keeps R (CreateFile E p)" "keeps R (Dup E k)" "keeps R (CopyDir E p q)" "keeps R (MkdirTemp E p)"
  "keeps R (WriteFile E p q)" "keeps R (Intn E r)" "keeps R (RandRead E)" "keeps R (Remount E k p)"
  "keeps R (RunHook E p is ns k q)" "keeps R (Sleep k)" "keeps R (Pipe E)"
  "keeps R (OpenPty E)" "keeps R (CloseFd fd)" "keeps R (Remove E p)" "keeps R (Listen E p)" "keeps R (Chmod E p k)"
  unfolding porto_calls by (rule calls looks quiet | simp add: quiet_event_def)+

lemma keeps_createID [kept_rules]: "keeps R (createID E n)"
  unfolding createID_def by (intro kept_rules)

lemma keeps_retry: "(\<And>s. keeps R (fn s)) \<Longrightarrow> keeps R (retry fn d n s)"
proof (induction n arbitrary: s)
  case (Suc n)
  then show ?case unfolding retry.simps by (intro kept_rules) simp_all
qed (simp add: ret)

lemma keeps_resources [kept_rules]: "keeps R (prepareResources E tags spec c)"
  unfolding prepareResources_def setPropertyByNameInPorto_def Let_def by (intro kept_rules)

lemma keeps_root [kept_rules]:
  "keeps R (prepareRoot E spec vs rp im)" "keeps R (prepareContainerLogs E spec priv)"
  unfolding prepareRoot_def prepareDirs_def prepareContainerLogs_def Let_def by (intro kept_rules)+

lemma keeps_command [kept_rules]: "keeps R (prepareCommand E spec c a im b)"
  unfolding prepareCommand_def findChrootExecutable_def Let_def by (intro kept_rules)

lemma keeps_stat_all [kept_rules]: "keeps R (stat_all E i hp fs)"
  by (induction fs) (auto intro!: kept_rules)

lemma keeps_await_mount [kept_rules]: "keeps R (await_mount E i ps m)"
  unfolding await_mount_def Let_def by (intro kept_rules copied)

lemma keeps_add_mounts [kept_rules]: "keeps R (add_mounts E i wp vs ms)"
proof (induction ms arbitrary: vs)
  case (Cons m ms)
  then show ?case unfolding add_mounts.simps Let_def by (intro kept_rules keeps_retry) simp_all
qed (simp add: ret)

lemma keeps_mounts [kept_rules]: "keeps R (prepareContainerMounts E i vs ms wp)"
  unfolding prepareContainerMounts_def by (intro kept_rules)

lemma keeps_remove_suffixes [kept_rules]: "keeps R (remove_suffixes E i links sfxs)"
proof (induction sfxs)
  case (Cons s sfxs)
  then show ?case unfolding remove_suffixes.simps Let_def by (intro kept_rules copied)
qed (simp add: ret)

lemma keeps_remove_volumes [kept_rules]: "keeps R (remove_volumes E i vs)"
proof (induction vs)
  case (Cons v vs)
  then show ?case unfolding remove_volumes.simps Let_def by (intro kept_rules)
qed (simp add: ret)

lemma keeps_network [kept_rules]:
  "keeps R (preparePodNetwork E plugin spec cfg)" "keeps R (prepareSandboxConfig E p)"
  unfolding preparePodNetwork_def pod_netns_path_def prepareSandboxConfig_def Let_def
  by (intro kept_rules)+

lemma keeps_cdi [kept_rules]:
  "keeps R (resolveCDIDevices E yaml req dirs)" "keeps R (cdiMountTarget E root p)" "keeps R (runCDIHook E h st)"
  unfolding resolveCDIDevices_def loadCDISpecs_def cdiMountTarget_def resolveInRoot_def runCDIHook_def Let_def
  by (intro kept_rules)+

lemma keeps_link_mounts [kept_rules]: "keeps R (link_mounts E i root linked ms)"
proof (induction ms arbitrary: linked)
  case (Cons m ms)
  then show ?case unfolding link_mounts.simps by (intro kept_rules) simp_all
qed (simp add: ret)

lemma keeps_run_stage [kept_rules]: "keeps R (run_stage E st js hs)"
proof (induction hs)
  case (Cons h hs)
  then show ?case unfolding run_stage.simps by (intro kept_rules)
qed (simp add: ret)

lemma keeps_run_stages [kept_rules]: "keeps R (run_stages E sts js hs)"
proof (induction sts)
  case (Cons st sts)
  then show ?case unfolding run_stages.simps by (intro kept_rules)
qed (simp add: ret)

end

section \<open>Handlers that start, stop and destroy\<close>

definition creates :: "event \<Rightarrow> bool" where
  "creates ev = (case ev of EvCreateFromSpec sp vs st r \<Rightarrow> True | _ \<Rightarrow> False)"

locale kept_tame = kept_quiet +
  assumes tame: "\<not> creates ev \<Longrightarrow> allowed ev"
begin

lemma tame_call [kept_rules]:
  "keeps R (Start E i)" "keeps R (Kill E i k)" "keeps R (StopTimeout E i k)" "keeps R (Destroy E i)"
  "keeps R (CniRemove E i p m m2)" "keeps R (NetNSRemove E p)"
  unfolding porto_calls by (rule calls tame | simp add: creates_def)+

lemma keeps_stopping [kept_rules]:
  "keeps R (removeNetNS E plugin i p cfg)" "keeps R (StopPodSandbox E i)" "keeps R (RemovePodSandbox E plugin i)"
  "keeps R (StopContainer E i)" "keeps R (RemoveContainer E i)" "keeps R (ContainerStatus E i)"
  unfolding removeNetNS_def StopPodSandbox_def RemovePodSandbox_def remove_pod_def remove_known_def remove_from_stop_def
    StopContainer_def RemoveContainer_def destroy_container_def removeSpecificVolumes_def ContainerStatus_def
    status_labels_def getContainerImage_def destroyDead_def Let_def
  by (intro kept_rules)+

end

section \<open>Handlers that create\<close>

locale kept_all = kept_tame +
  assumes every: "allowed ev"
begin

lemma create_call [kept_rules]: "keeps R (CreateFromSpec E sp vs b)"
  unfolding porto_calls by (rule calls) (rule every)

lemma keeps_pause_attempt: "keeps R (pause_attempt E s)"
  unfolding pause_attempt_def Let_def by (intro kept_rules)

lemma step_or_destroy [kept_rules]: "keeps R m \<Longrightarrow> (\<And>v. keeps R (k v)) \<Longrightarrow> keeps R (step_or_destroy E i g m k)"
  unfolding step_or_destroy_def by (intro kept_rules)

lemma keeps_RunPodSandbox [kept_rules]: "keeps R (RunPodSandbox E tags plugin cfg)"
  unfolding RunPodSandbox_def Let_def
  by (intro kept_rules keeps_retry keeps_pause_attempt)

lemma keeps_create_container [kept_rules]: "keeps R (CreateContainer E tags yaml unpod i cc sb)"
  unfolding CreateContainer_def place_container_def configure_container_def edit_container_def main_command_def
    child_command_def getSandboxCommand_def linkCDIMounts_def runCDIHooks_def Let_def
  by (intro kept_rules)

lemma keeps_creating [kept_rules]:
  "keeps R (StartContainer E i)" "keeps R (ExecSync E i cmd t)"
  unfolding StartContainer_def started_container_def createPrivCnt_def ExecSync_def run_exec_def exec_result_def Let_def
  by (intro kept_rules)+

end

end
