(* ===== verification/Service.thy ===== *)
theory Service
  imports Kept
begin

text \<open>
  The service as a whole (cri_api.go, serverInterceptor in server.go): a CRI request of either
  version of the protocol is given, over a connection to Porto of its own, to the handler of the
  mappers. What the handlers share are the globals of the program; the state after any number of
  requests is reachable, and what the handlers rely on holds in every reachable state.
\<close>

section \<open>Requests and answers\<close>

datatype (plugins only: code size) image_request =
    ReqListImages
  | ReqImageStatus string
  | ReqPullImage string string
  | ReqRemoveImage string
  | ReqImageFsInfo

datatype (plugins only: code size) request =
    ReqVersion string
  | ReqRunPodSandbox PodSandboxConfig
  | ReqStopPodSandbox string
  | ReqRemovePodSandbox string
  | ReqPodSandboxStatus string
  | ReqPodSandboxStats string
  | ReqListPodSandbox PodFilter
  | ReqCreateContainer string ContainerConfig PodSandboxConfig
  | ReqStartContainer string
  | ReqStopContainer string
  | ReqRemoveContainer string
  | ReqListContainers ContainerFilter
  | ReqContainerStatus string
  | ReqUpdateContainerResources
  | ReqReopenContainerLog
  | ReqExecSync string "string list" i64
  | ReqExec
  | ReqAttach
  | ReqPortForward string
  | ReqContainerStats string
  | ReqListContainerStats StatsFilter
  | ReqListPodSandboxStats StatsFilter
  | ReqUpdateRuntimeConfig
  | ReqStatus
  | ReqImages image_request

datatype (plugins only: code size) response =
    RespDone
  | RespText string
  | RespVersion VersionResponse
  | RespPodStatus PodSandboxStatus
  | RespPods "PodSandbox list"
  | RespContainers "CriContainer list"
  | RespContainerStatus ContainerStatusRec
  | RespExecSync ExecSyncResponse
  | RespContainerStats "ContainerStatsRec option list"
  | RespPodStats "PodStatsRec option list"
  | RespStatus "(string \<times> bool) list"
  | RespImages "CriImage list"
  | RespImage "CriImage option"
  | RespUsage FilesystemUsage

text \<open>
  What the handlers get from outside the source: the environment, the struct tags of the protocol,
  the parsers of CDI specs and of Kubernetes pods, whether there is a network plugin, the answer of
  the streaming server and statfs.
\<close>

record deps =
  d_env :: env
  d_tags :: struct_tags
  d_yaml :: "string \<Rightarrow> goerr + cdiSpec"
  d_unpod :: "string \<Rightarrow> applied_pod"
  d_plugin :: bool
  d_stream :: "goerr + string"
  d_statfs :: "string \<Rightarrow> goerr + Statfs"

definition answer :: "('a \<Rightarrow> response) \<Rightarrow> 'a res prog \<Rightarrow> response res prog" where
  "answer f m = step_or id m (\<lambda>v. ret (Ok (f v)))"

text \<open>The image service of the protocol, and then the runtime service.\<close>

fun v1_image_call :: "deps \<Rightarrow> image_request \<Rightarrow> response res prog" where
  "v1_image_call D ReqListImages = answer RespImages (ListImages (d_env D))"
| "v1_image_call D (ReqImageStatus i) = answer RespImage (ImageStatus (d_env D) i)"
| "v1_image_call D (ReqPullImage i password) = answer RespText (PullImage (d_env D) i password)"
| "v1_image_call D (ReqRemoveImage i) = answer (\<lambda>u. RespDone) (RemoveImage (d_env D) i)"
| "v1_image_call D ReqImageFsInfo = answer RespUsage (ImageFsInfo (d_env D) (d_statfs D))"

fun v1_call :: "deps \<Rightarrow> request \<Rightarrow> response res prog" where
  "v1_call D (ReqVersion v) = answer RespVersion (Version (d_env D) v)"
| "v1_call D (ReqRunPodSandbox cfg) = answer RespText (RunPodSandbox (d_env D) (d_tags D) (d_plugin D) cfg)"
| "v1_call D (ReqStopPodSandbox i) = answer (\<lambda>u. RespDone) (StopPodSandbox (d_env D) i)"
| "v1_call D (ReqRemovePodSandbox i) = answer (\<lambda>u. RespDone) (RemovePodSandbox (d_env D) (d_plugin D) i)"
| "v1_call D (ReqPodSandboxStatus i) = answer RespPodStatus (PodSandboxStatusOp (d_env D) i)"
| "v1_call D (ReqPodSandboxStats i) = answer (\<lambda>s. RespPodStats [s]) (PodSandboxStats (d_env D) i)"
| "v1_call D (ReqListPodSandbox f) = answer RespPods (ListPodSandbox (d_env D) f)"
| "v1_call D (ReqCreateContainer i cfg sb) =
     answer RespText (CreateContainer (d_env D) (d_tags D) (d_yaml D) (d_unpod D) i cfg sb)"
| "v1_call D (ReqStartContainer i) = answer (\<lambda>u. RespDone) (StartContainer (d_env D) i)"
| "v1_call D (ReqStopContainer i) = answer (\<lambda>u. RespDone) (StopContainer (d_env D) i)"
| "v1_call D (ReqRemoveContainer i) = answer (\<lambda>u. RespDone) (RemoveContainer (d_env D) i)"
| "v1_call D (ReqListContainers f) = answer RespContainers (ListContainersOp (d_env D) f)"
| "v1_call D (ReqContainerStatus i) = answer RespContainerStatus (ContainerStatus (d_env D) i)"
| "v1_call D ReqUpdateContainerResources = answer (\<lambda>u. RespDone) UpdateContainerResources"
| "v1_call D ReqReopenContainerLog = answer (\<lambda>u. RespDone) ReopenContainerLog"
| "v1_call D (ReqExecSync i cmd t) = answer RespExecSync (ExecSync (d_env D) i cmd t)"
| "v1_call D ReqExec = answer RespText (Exec (d_stream D))"
| "v1_call D ReqAttach = answer (\<lambda>u. RespDone) Attach"
| "v1_call D (ReqPortForward i) = answer RespText (PortForward (d_env D) (d_stream D) i)"
| "v1_call D (ReqContainerStats i) = answer (\<lambda>s. RespContainerStats [s]) (ContainerStats (d_env D) i)"
| "v1_call D (ReqListContainerStats f) = answer RespContainerStats (ListContainerStats (d_env D) f)"
| "v1_call D (ReqListPodSandboxStats f) = answer RespPodStats (ListPodSandboxStats (d_env D) f)"
| "v1_call D ReqUpdateRuntimeConfig = answer (\<lambda>u. RespDone) UpdateRuntimeConfig"
| "v1_call D ReqStatus = answer RespStatus (Status (d_env D))"
| "v1_call D (ReqImages req) = v1_image_call D req"

text \<open>The older protocol casts its messages to those of v1 and calls the same handlers.\<close>

definition v1alpha2_image_call :: "deps \<Rightarrow> image_request \<Rightarrow> response res prog" where
  "v1alpha2_image_call D req = v1_image_call D req"

definition v1alpha2_call :: "deps \<Rightarrow> request \<Rightarrow> response res prog" where
  "v1alpha2_call D req = (case req of ReqImages r \<Rightarrow> v1alpha2_image_call D r | _ \<Rightarrow> v1_call D req)"

lemma v1alpha2_call_eq: "v1alpha2_call D req = v1_call D req"
  by (cases req) (simp_all add: v1alpha2_call_def v1alpha2_image_call_def)

text \<open>\<open>portoClientContext\<close>, and the interceptor, which connects to Porto for each request.\<close>

definition portoClientContext :: "env \<Rightarrow> unit res prog" where
  "portoClientContext E = call_or (FmtV ''connect to porto'') (Dial E) (\<lambda>u. ret (Ok ()))"

definition serverInterceptor :: "env \<Rightarrow> response res prog \<Rightarrow> response res prog" where
  "serverInterceptor E handler = step_or (FmtV ''serverInterceptor'') (portoClientContext E) (\<lambda>u. handler)"

section \<open>What every step keeps\<close>

text \<open>
  From one state to a later one: the history only grows, the parent container once read stays, it
  has no slash, the registries are those of the start, and the map of copies stays a map.
\<close>

definition steady_rel :: "world \<Rightarrow> world \<Rightarrow> bool" where
  "steady_rel w w' \<longleftrightarrow> (\<exists>es. w_trace w' = w_trace w @ es) \<and> (w_parent w \<noteq> None \<longrightarrow> w_parent w' = w_parent w)
     \<and> (parent_ok w \<longrightarrow> parent_ok w') \<and> w_registries w' = w_registries w
     \<and> (wf_map (w_tmpfs w) \<longrightarrow> wf_map (w_tmpfs w'))"

abbreviation steady :: "'a prog \<Rightarrow> bool" where
  "steady \<equiv> keeps steady_rel"

lemma steady_rel_refl [simp]: "steady_rel w w"
  by (simp add: steady_rel_def)

lemma steady_rel_trans: "steady_rel u v \<Longrightarrow> steady_rel v w \<Longrightarrow> steady_rel u w"
  by (auto simp: steady_rel_def)

lemma steady_getParentCnt: "steady (getParentCnt E)"
proof (rule keepsI)
  fix w
  show "steady_rel w (snd (run_state (getParentCnt E) w))"
    using parent_of_absolute_slash_free
    by (cases "w_parent w") (auto simp: getParentCnt_def run_simps Let_def steady_rel_def parent_ok_def)
qed

interpretation st: kept_all steady_rel "\<lambda>ev. True"
proof
  show "steady_rel u v \<Longrightarrow> steady_rel v w \<Longrightarrow> steady_rel u w" for u v w by (rule steady_rel_trans)
  show "steady_rel w (w\<lparr>w_trace := w_trace w @ [ev]\<rparr>)" for w ev by (simp add: steady_rel_def parent_ok_def)
  show "steady (mod_world (\<lambda>w. w\<lparr>w_tmpfs := mset_at k d (w_tmpfs w)\<rparr>))"
    "steady (mod_world (\<lambda>w. w\<lparr>w_tmpfs := AList.delete k (w_tmpfs w)\<rparr>))" for k d
    by (auto intro!: keeps_mod_world simp: steady_rel_def parent_ok_def distinct_delete)
qed (simp_all add: steady_getParentCnt)

text \<open>The calls of the two services, and in which layer a request is.\<close>

fun leaves_containers :: "request \<Rightarrow> bool" where
  "leaves_containers (ReqRunPodSandbox cfg) = False"
| "leaves_containers (ReqStopPodSandbox i) = False"
| "leaves_containers (ReqRemovePodSandbox i) = False"
| "leaves_containers (ReqCreateContainer i cfg sb) = False"
| "leaves_containers (ReqStartContainer i) = False"
| "leaves_containers (ReqStopContainer i) = False"
| "leaves_containers (ReqRemoveContainer i) = False"
| "leaves_containers (ReqContainerStatus i) = False"
| "leaves_containers (ReqExecSync i cmd t) = False"
| "leaves_containers _ = True"

fun may_create :: "request \<Rightarrow> bool" where
  "may_create (ReqRunPodSandbox cfg) = True"
| "may_create (ReqCreateContainer i cfg sb) = True"
| "may_create (ReqStartContainer i) = True"
| "may_create (ReqExecSync i cmd t) = True"
| "may_create _ = False"

context kept_asking
begin

lemma keeps_answer [kept_rules]: "keeps R m \<Longrightarrow> keeps R (answer f m)"
  unfolding answer_def by (intro kept_rules)

lemma keeps_image_call [kept_rules]: "keeps R (v1_image_call D req)"
  by (cases req) (simp_all only: v1_image_call.simps kept_rules)

lemma keeps_leaving: "leaves_containers req \<Longrightarrow> keeps R (v1_call D req)"
  by (cases req) (simp_all only: v1_call.simps leaves_containers.simps kept_rules)

end

context kept_tame
begin

lemma keeps_not_creating: "\<not> may_create req \<Longrightarrow> keeps R (v1_call D req)"
  by (cases req) (simp_all only: v1_call.simps may_create.simps simp_thms kept_rules)

end

context kept_all
begin

lemma keeps_call [kept_rules]: "keeps R (v1_call D req)"
  by (cases req) (simp_all only: v1_call.simps kept_rules)

end

section \<open>Reachable states\<close>

text \<open>The states after requests of either version, each over any environment.\<close>

inductive later :: "world \<Rightarrow> world \<Rightarrow> bool" for w where
  later_refl: "later w w"
| later_v1: "later w w1 \<Longrightarrow> run_state (serverInterceptor E (v1_call D req)) w1 = (v, w2) \<Longrightarrow> later w w2"
| later_v1alpha2: "later w w1 \<Longrightarrow> run_state (serverInterceptor E (v1alpha2_call D req)) w1 = (v, w2) \<Longrightarrow> later w w2"

definition initial :: "world \<Rightarrow> bool" where
  "initial w \<longleftrightarrow> w_parent w = None \<and> w_tmpfs w = []"

lemma steady_served: "steady (serverInterceptor E (v1_call D req))" "steady (serverInterceptor E (v1alpha2_call D req))"
  unfolding serverInterceptor_def portoClientContext_def v1alpha2_call_eq by (intro kept_rules)+

lemma later_steady: "later w w' \<Longrightarrow> steady_rel w w'"
proof (induction rule: later.induct)
  case (later_v1 w1 dial D req v w2)
  show ?case by (rule steady_rel_trans [OF later_v1.IH keepsD [OF steady_served(1) later_v1.hyps(2)]])
next
  case (later_v1alpha2 w1 dial D req v w2)
  show ?case by (rule steady_rel_trans [OF later_v1alpha2.IH keepsD [OF steady_served(2) later_v1alpha2.hyps(2)]])
qed simp_all

section \<open>Properties\<close>

text \<open>
  The globals of the program keep their shape through any requests of either protocol version,
  whatever they are and whatever the outside answers: from the start of the program on the history
  of calls only grows, the known registries never change, the parent container has no slash in its
  name, and the map of copied volumes has one entry for a mount.
\<close>

theorem globals_invariant:
  assumes "initial w0" "later w0 w"
  shows "(\<exists>es. w_trace w = w_trace w0 @ es) \<and> w_registries w = w_registries w0 \<and> parent_ok w \<and> wf_map (w_tmpfs w)"
  using later_steady [OF assms(2)] assms(1) by (simp add: steady_rel_def initial_def parent_ok_def)

text \<open>A request for the version and one that reads the parent.\<close>

definition demo_deps :: deps where
  "demo_deps = \<lparr>d_env = base_env\<lparr>porto := base_porto\<lparr>o_GetProperty := (\<lambda>h i n. Inr ''/porton/box'')\<rparr>\<rparr>, d_tags = (\<lambda>f. None),
     d_yaml = (\<lambda>s. Inl (OsError s)), d_unpod = (\<lambda>s. \<lparr>ap_Containers = [], ap_Volumes = []\<rparr>), d_plugin = True,
     d_stream = Inr ''url'', d_statfs = (\<lambda>p. Inl (OsError p))\<rparr>"

definition fresh_world :: world where
  "fresh_world = \<lparr>w_trace = [], w_parent = None, w_tmpfs = [], w_registries = default_registries\<rparr>"

lemma fresh_later:
  "later fresh_world (snd (run_state (serverInterceptor base_env (v1_call demo_deps (ReqStopPodSandbox ''pod/x''))) fresh_world))"
  by (rule later_v1 [OF later_refl]) (rule prod.collapse [symmetric])

lemma fresh_parent:
  "w_parent (snd (run_state (serverInterceptor base_env (v1_call demo_deps (ReqStopPodSandbox ''pod/x''))) fresh_world)) = Some ''box''"
proof -
  have "after_last (CHR ''/'') ''/porton/box'' = Some ''box''" by code_simp
  moreover have "\<not> isPod ''pod/x'' ''box''" by code_simp
  ultimately show ?thesis
    by (simp add: serverInterceptor_def portoClientContext_def answer_def StopPodSandbox_def getParentCnt_def demo_deps_def fresh_world_def
        base_env_def base_porto_def base_os_def run_simps Let_def)
qed

theorem globals_invariant_witness:
  "\<exists>w. later fresh_world w \<and> w_parent w = Some ''box'' \<and> parent_ok w \<and> w_registries w = default_registries"
proof -
  have "initial fresh_world" by (simp add: initial_def fresh_world_def)
  from globals_invariant [OF this fresh_later] fresh_later fresh_parent show ?thesis
    by (auto simp: fresh_world_def)
qed

text \<open>
  C26. An identifier stays the same through the life of the program: a name given to Porto in one
  request is turned back into the identifier it came from in any later one, whatever requests came
  between, because the parent container is read once.
\<close>

theorem identifiers_stay_valid:
  assumes "initial w0" "later w0 w" "run_state (addPortoPrefix E i) w = (name, w1)" "later w1 w2"
  shows "run_state (removePortoPrefix E' name) w2 = (Ok i, w2)"
proof -
  have "parent_ok w" using later_steady [OF assms(2)] assms(1) by (simp add: steady_rel_def initial_def parent_ok_def)
  obtain p w' where g: "run_state (getParentCnt E) w = (p, w')" by force
  from getParentCnt_run [OF \<open>parent_ok w\<close> g] have p: "slash_free p" "w_parent w' = Some p" by simp_all
  have n: "name = add_prefix p i" "w1 = w'" using assms(3) g by (simp_all add: addPortoPrefix_def)
  have "w_parent w2 = Some p" using later_steady [OF assms(4)] p n by (simp add: steady_rel_def)
  then show ?thesis using pid.rem_add [OF p(1)] n by (simp add: removePortoPrefix_def)
qed

theorem identifiers_stay_valid_witness:
  "\<exists>w2. later fresh_world w2 \<and> run_state (removePortoPrefix base_env ''box/pod-1'') w2 = (Ok ''pod-1'', w2)"
proof -
  let ?w = "snd (run_state (serverInterceptor base_env (v1_call demo_deps (ReqStopPodSandbox ''pod/x''))) fresh_world)"
  have i: "initial fresh_world" by (simp add: initial_def fresh_world_def)
  have "add_prefix ''box'' ''pod-1'' = ''box/pod-1''" by code_simp
  then have "run_state (addPortoPrefix base_env ''pod-1'') ?w = (''box/pod-1'', ?w)"
    using fresh_parent by (simp add: addPortoPrefix_def)
  from identifiers_stay_valid [OF i fresh_later this later_refl] fresh_later show ?thesis by blast
qed

end
