(* ===== verification/Streaming.thy ===== *)
theory Streaming
  imports Service
begin

text \<open>
  The streaming runtime (streaming.go): Exec runs a command below a container with its standard
  streams on pipes or a terminal, and the network namespace of a pod is found for PortForward
  (portforward.go). A file descriptor is a number; the two ends of a pipe are the reading and the
  writing one, those of a terminal the master and the slave.
\<close>

section \<open>The standard streams of Exec\<close>

fun close_all :: "int list \<Rightarrow> unit prog" where
  "close_all [] = ret ()"
| "close_all (fd # fds) = do { u \<leftarrow> CloseFd fd; close_all fds }"

definition dev_fd :: "int \<Rightarrow> string" where
  "dev_fd fd = ''/dev/fd/'' @ itoa fd"

text \<open>
  One stream: on a terminal, or over a fresh pipe. The state is the descriptors whose close was
  deferred, the latest first, each with whether it is the container's end of a pipe, which is the
  reading end if the container \<open>reads\<close> the stream. The result is the reading and the writing end.
  A failure returns at once, so that what was deferred is closed.
\<close>

type_synonym deferred = "(int \<times> bool) list"

definition stream_ends :: "env \<Rightarrow> bool \<Rightarrow> (int \<times> int) option \<Rightarrow> deferred \<Rightarrow> ((int \<times> int) \<times> deferred) res prog" where
  "stream_ends E reads terminal deferred = (case terminal of
     Some ends \<Rightarrow> ret (Ok (ends, deferred))
   | None \<Rightarrow> do {
       p \<leftarrow> Pipe E;
       case p of
         Inl e \<Rightarrow> do { u \<leftarrow> close_all (map fst deferred); ret (Err e) }
       | Inr (r, wr) \<Rightarrow> ret (Ok ((r, wr), (wr, \<not> reads) # (r, reads) # deferred))
     })"

record streams =
  st_Stdin :: "(int \<times> int) option"
  st_Stdout :: "(int \<times> int) option"
  st_Stderr :: "(int \<times> int) option"

text \<open>
  The terminal first, then the three streams that are asked for; a terminal always takes the
  standard error. On a terminal the container reads the slave and the shim writes the master.
\<close>

definition optional_ends :: "env \<Rightarrow> bool \<Rightarrow> bool \<Rightarrow> (int \<times> int) option \<Rightarrow> deferred \<Rightarrow> ((int \<times> int) option \<times> deferred) res prog" where
  "optional_ends E wanted reads terminal deferred =
     (if wanted then step_or id (stream_ends E reads terminal deferred) (\<lambda>(ends, deferred). ret (Ok (Some ends, deferred)))
      else ret (Ok (None, deferred)))"

definition open_terminal :: "env \<Rightarrow> bool \<Rightarrow> ((int \<times> int) option \<times> deferred) res prog" where
  "open_terminal E terminal =
     (if terminal then call_or id (OpenPty E) (\<lambda>(tty, pty). ret (Ok (Some (tty, pty), [(pty, False), (tty, False)]))) else ret (Ok (None, [])))"

definition open_streams :: "env \<Rightarrow> bool \<Rightarrow> bool \<Rightarrow> bool \<Rightarrow> bool \<Rightarrow> (streams \<times> deferred) res prog" where
  "open_streams E terminal stdin stdout stderr =
     step_or id (open_terminal E terminal) (\<lambda>(tp, d0).
     step_or id (optional_ends E stdin True (map_option (\<lambda>(tty, pty). (pty, tty)) tp) d0) (\<lambda>(i, d1).
     step_or id (optional_ends E stdout False tp d1) (\<lambda>(out, d2).
     step_or id (optional_ends E (terminal \<or> stderr) False tp d2) (\<lambda>(err, d3).
     ret (Ok (\<lparr>st_Stdin = i, st_Stdout = out, st_Stderr = err\<rparr>, d3))))))"

definition stream_spec :: "TContainerSpec \<Rightarrow> streams \<Rightarrow> TContainerSpec" where
  "stream_spec spec s =
     spec\<lparr>StdinPath := (case st_Stdin s of Some (r, wr) \<Rightarrow> Some (dev_fd r) | None \<Rightarrow> StdinPath spec),
          StdoutPath := (case st_Stdout s of Some (r, wr) \<Rightarrow> Some (dev_fd wr) | None \<Rightarrow> StdoutPath spec),
          StderrPath := (case st_Stderr s of Some (r, wr) \<Rightarrow> Some (dev_fd wr) | None \<Rightarrow> StderrPath spec)\<rparr>"

text \<open>The container's ends of pipes, closed in the shim once the container has them.\<close>

definition container_ends :: "bool \<Rightarrow> streams \<Rightarrow> int list" where
  "container_ends terminal s =
     (if terminal then []
      else (case st_Stdin s of Some (r, wr) \<Rightarrow> [r] | None \<Rightarrow> []) @ (case st_Stdout s of Some (r, wr) \<Rightarrow> [wr] | None \<Rightarrow> [])
           @ (case st_Stderr s of Some (r, wr) \<Rightarrow> [wr] | None \<Rightarrow> []))"

section \<open>Exec\<close>

text \<open>
  A wait that fails is only logged: the result is nil whatever the command did. The goroutines that
  copy the streams are not modelled; a deferred close of a file that is closed already does nothing.
\<close>

definition exec_attached :: "env \<Rightarrow> TContainerSpec \<Rightarrow> bool \<Rightarrow> streams \<Rightarrow> deferred \<Rightarrow> unit res prog" where
  "exec_attached E spec terminal s deferred = do {
     c \<leftarrow> CreateFromSpec E (stream_spec spec s) [] True;
     case c of
       Inl e \<Rightarrow> do { u \<leftarrow> close_all (map fst deferred); ret (Err (FmtV ''Exec'' e)) }
     | Inr x \<Rightarrow> do {
         u \<leftarrow> close_all (container_ends terminal s);
         r \<leftarrow> Wait E [Name spec] (-1);
         d \<leftarrow> Destroy E (Name spec);
         v \<leftarrow> close_all (map fst (filter (Not \<circ> snd) deferred));
         ret (Ok ())
       }
   }"

definition streaming_spec :: "env \<Rightarrow> string \<Rightarrow> string \<Rightarrow> string list \<Rightarrow> TContainerSpec res prog" where
  "streaming_spec E i portoContainerID cmd =
     call_or (WrapW ''failed to get labels'') (GetProperty E portoContainerID ''labels'') (\<lambda>portoLabels.
     step_or id (ret (convertFromPortoLabels portoLabels)) (\<lambda>(labels, annotations).
     let spec = (new_spec i)\<lparr>Weak := Some True\<rparr>;
         spec = (if mget labels ''priv'' = Some ''true'' then spec\<lparr>Capabilities := Some modCaps\<rparr> else spec) in
     call_or (WrapW ''failed to get parent container env prop'') (GetProperty E portoContainerID ''env'') (\<lambda>env.
     step_or (FmtV ''Exec'') (prepareCommand E (prepareExecEnv spec env) cmd [] [] True) (\<lambda>spec.
     ret (Ok (spec\<lparr>Isolate := Some False\<rparr>))))))"

definition streaming_Exec :: "env \<Rightarrow> string \<Rightarrow> string list \<Rightarrow> bool \<Rightarrow> bool \<Rightarrow> bool \<Rightarrow> bool \<Rightarrow> unit res prog" where
  "streaming_Exec E containerID cmd stdin stdout stderr terminal =
     step_or (FmtV ''Exec'') (portoClientContext E) (\<lambda>u. do {
       portoContainerID \<leftarrow> addPortoPrefix E containerID;
       name \<leftarrow> createID E ''exec'';
       let i = path_Join [portoContainerID, name];
       step_or id (streaming_spec E i portoContainerID cmd) (\<lambda>spec.
       step_or id (open_streams E terminal stdin stdout stderr) (\<lambda>(s, deferred).
       exec_attached E spec terminal s deferred))
     })"

section \<open>The namespace of a pod (portforward.go)\<close>

fun first_task :: "env \<Rightarrow> string list \<Rightarrow> string option prog" where
  "first_task E [] = ret None"
| "first_task E (name # names) = do {
     r \<leftarrow> GetProperty E name ''root_pid'';
     case r of
       Inl e \<Rightarrow> first_task E names
     | Inr rootPid \<Rightarrow> (case Atoi (TrimSpace rootPid) of
         (pid, err) \<Rightarrow> if err \<noteq> None \<or> pid \<le> 0 then first_task E names
                        else ret (Some (''/proc/'' @ itoa pid @ ''/ns/net'')))
   }"

definition podNetNSPath :: "env \<Rightarrow> string \<Rightarrow> string res prog" where
  "podNetNSPath E portoid =
     call_or (WrapW ''get net property'') (GetProperty E portoid ''net'') (\<lambda>netProp.
     let name = parsePropertiesNetNS netProp [''netns''] in
     if name \<noteq> [] then ret (Ok (path_Join [NetnsDir (Cfg E), name]))
     else if parsePropertiesNetNS netProp [''L3''] = [] then ret (Ok [])
     else call_or (WrapW ''list children'') (ListContainers E (portoid @ ''/***'')) (\<lambda>children. do {
       t \<leftarrow> first_task E (portoid # children);
       case t of
         Some path \<Rightarrow> ret (Ok path)
       | None \<Rightarrow> ret (Err (Errorf ''no running task found in pod'' [portoid]))
     }))"

section \<open>Descriptors and containers\<close>

fun fd_opened :: "event \<Rightarrow> int multiset" where
  "fd_opened (EvPipe (Inr (r, wr))) = {#r, wr#}"
| "fd_opened (EvOpenPty (Inr (tty, pty))) = {#tty, pty#}"
| "fd_opened _ = {#}"

fun fd_closed :: "event \<Rightarrow> int multiset" where
  "fd_closed (EvClose fd) = {#fd#}"
| "fd_closed _ = {#}"

definition opened :: "history \<Rightarrow> int multiset" where
  "opened es = (\<Sum>ev\<leftarrow>es. fd_opened ev)"

definition closed :: "history \<Rightarrow> int multiset" where
  "closed es = (\<Sum>ev\<leftarrow>es. fd_closed ev)"

lemma opened_simps [simp]:
  "opened [] = {#}" "opened (ev # es) = fd_opened ev + opened es" "opened (es @ fs) = opened es + opened fs"
  by (simp_all add: opened_def)

lemma closed_simps [simp]:
  "closed [] = {#}" "closed (ev # es) = fd_closed ev + closed es" "closed (es @ fs) = closed es + closed fs"
  by (simp_all add: closed_def)

text \<open>The connection to Porto is neither made nor closed.\<close>

definition same_porto :: "history \<Rightarrow> bool" where
  "same_porto es \<longleftrightarrow> list_all (\<lambda>ev. case ev of EvDial r \<Rightarrow> False | EvHangUp \<Rightarrow> False | _ \<Rightarrow> True) es"

lemma same_porto_simps [simp]:
  "same_porto []"
  "same_porto (ev # es) \<longleftrightarrow> (case ev of EvDial r \<Rightarrow> False | EvHangUp \<Rightarrow> False | _ \<Rightarrow> True) \<and> same_porto es"
  "same_porto (es @ fs) \<longleftrightarrow> same_porto es \<and> same_porto fs"
  by (simp_all add: same_porto_def)

text \<open>From descriptors \<open>d\<close> held before a step to what is held after it.\<close>

definition moved :: "history \<Rightarrow> int multiset \<Rightarrow> int multiset \<Rightarrow> bool" where
  "moved es d d' \<longleftrightarrow> quiet es \<and> same_porto es \<and> opened es + d = closed es + d'"

lemma carry:
  fixes a b c d e d' d'' :: "int multiset"
  assumes "a + d = b + d'" "c + d' = e + d''"
  shows "(a + c) + d = (b + e) + d''"
proof -
  have "(a + c) + d = c + (a + d)" by (simp only: ac_simps)
  also have "\<dots> = b + (c + d')" unfolding assms(1) by (simp only: ac_simps)
  also have "\<dots> = (b + e) + d''" unfolding assms(2) by (simp only: ac_simps)
  finally show ?thesis .
qed

lemma moved_append: "moved es d d' \<Longrightarrow> moved fs d' d'' \<Longrightarrow> moved (es @ fs) d d''"
  using carry [of "opened es" d "closed es" d' "opened fs" "closed fs" d''] by (simp add: moved_def)

lemma moved_Nil [simp]: "moved [] d d' \<longleftrightarrow> d = d'"
  by (simp add: moved_def)

text \<open>
  How an attached command ends that holds the descriptors \<open>d\<close>: each of them, and each opened on
  the way, is closed once, and the container, if there was one, is destroyed once; then, and only
  then, the result is success.
\<close>

definition released :: "int multiset \<Rightarrow> unit res \<Rightarrow> history \<Rightarrow> bool" where
  "released d v es \<longleftrightarrow> same_porto es \<and> opened es + d = closed es \<and>
     (quiet es \<and> \<not> is_Ok v
      \<or> (\<exists>a spec e b. es = a @ EvCreateFromSpec spec [] True (Inl e) # b \<and> quiet a \<and> quiet b \<and> \<not> is_Ok v)
      \<or> (\<exists>a spec b x c. es = a @ EvCreateFromSpec spec [] True (Inr ()) # b @ EvDestroy (Name spec) x # c
           \<and> quiet a \<and> quiet b \<and> quiet c \<and> v = Ok ()))"

lemma released_front:
  assumes m: "moved fs d d'" and r: "released d' v es"
  shows "released d v (fs @ es)"
proof -
  have q: "quiet fs" and "same_porto (fs @ es)" "opened (fs @ es) + d = closed (fs @ es)"
    using m r carry [of "opened fs" d "closed fs" d' "opened es" "closed es" "{#}"] by (simp_all add: moved_def released_def)
  moreover have "quiet (fs @ es) \<and> \<not> is_Ok v
      \<or> (\<exists>a spec e b. fs @ es = a @ EvCreateFromSpec spec [] True (Inl e) # b \<and> quiet a \<and> quiet b \<and> \<not> is_Ok v)
      \<or> (\<exists>a spec b x c. fs @ es = a @ EvCreateFromSpec spec [] True (Inr ()) # b @ EvDestroy (Name spec) x # c
           \<and> quiet a \<and> quiet b \<and> quiet c \<and> v = Ok ())"
    using r unfolding released_def
  proof (elim conjE disjE exE)
    fix a spec e b assume "es = a @ EvCreateFromSpec spec [] True (Inl e) # b" "quiet a" "quiet b" "\<not> is_Ok v"
    with q have "fs @ es = (fs @ a) @ EvCreateFromSpec spec [] True (Inl e) # b \<and> quiet (fs @ a) \<and> quiet b \<and> \<not> is_Ok v" by simp
    then show ?thesis by blast
  next
    fix a spec b x c
    assume "es = a @ EvCreateFromSpec spec [] True (Inr ()) # b @ EvDestroy (Name spec) x # c" "quiet a" "quiet b" "quiet c" "v = Ok ()"
    with q have "fs @ es = (fs @ a) @ EvCreateFromSpec spec [] True (Inr ()) # b @ EvDestroy (Name spec) x # c
      \<and> quiet (fs @ a) \<and> quiet b \<and> quiet c \<and> v = Ok ()" by simp
    then show ?thesis by blast
  qed (use q in simp)
  ultimately show ?thesis by (simp add: released_def)
qed

lemma released_failed [simp]: "\<not> is_Ok v \<Longrightarrow> quiet es \<Longrightarrow> released d v es \<longleftrightarrow> same_porto es \<and> opened es + d = closed es"
  by (auto simp: released_def)

lemma emits_close_all: "emits (close_all fds) (\<lambda>u es. moved es (mset fds) {#})"
proof (induction fds)
  case (Cons fd fds)
  then show ?case
    unfolding close_all.simps CloseFd_def
    by (auto intro!: emit_rules elim!: emits_mono simp: moved_def)
qed simp

text \<open>Opening the streams.\<close>

abbreviation held :: "deferred \<Rightarrow> int multiset" where
  "held d \<equiv> image_mset fst (mset d)"

abbreviation given :: "deferred \<Rightarrow> int multiset" where
  "given d \<equiv> image_mset fst (filter_mset snd (mset d))"

definition streamed :: "deferred \<Rightarrow> ('a \<Rightarrow> deferred \<Rightarrow> bool) \<Rightarrow> ('a \<times> deferred) res \<Rightarrow> history \<Rightarrow> bool" where
  "streamed d S r es = (case r of Ok (x, d') \<Rightarrow> moved es (held d) (held d') \<and> S x d' | Err e \<Rightarrow> moved es (held d) {#} | Panic s \<Rightarrow> False)"

lemma streamed_simps [simp]:
  "streamed d S (Ok (x, d')) es \<longleftrightarrow> moved es (held d) (held d') \<and> S x d'"
  "streamed d S (Err e) es \<longleftrightarrow> moved es (held d) {#}"
  "\<not> streamed d S (Panic s) es"
  by (simp_all add: streamed_def)

definition ends_given :: "bool \<Rightarrow> bool \<Rightarrow> (int \<times> int) option \<Rightarrow> int multiset" where
  "ends_given terminal reads ends =
     (if terminal then {#} else case ends of None \<Rightarrow> {#} | Some (r, wr) \<Rightarrow> {#if reads then r else wr#})"

lemma emits_stream_ends:
  "emits (stream_ends E reads terminal d)
     (streamed d (\<lambda>ends d'. given d' = given d + ends_given (terminal \<noteq> None) reads (Some ends)))"
proof (cases terminal)
  case None
  then show ?thesis
    unfolding stream_ends_def Pipe_def
    by (auto intro!: emit_rules emits_bind [OF emits_close_all] simp: moved_def ends_given_def split: sum.split)
qed (simp add: stream_ends_def ends_given_def)

lemma emits_streamed:
  assumes "emits m (streamed d S)" "\<And>x d'. S x d' \<Longrightarrow> emits (k (x, d')) (streamed d' T)"
  shows "emits (step_or id m k) (streamed d T)"
proof (rule emits_step_or [OF assms(1)])
  fix v es assume v: "streamed d S (Ok v) es"
  obtain x d' where xd: "v = (x, d')" by force
  with v have m: "moved es (held d) (held d')" "S x d'" by simp_all
  show "emits (k v) (\<lambda>u fs. streamed d T u (es @ fs))"
    unfolding xd
    by (rule emits_mono [OF assms(2) [OF m(2)]]) (auto simp: streamed_def intro: moved_append [OF m(1)] split: res.splits)
qed simp_all

lemma emits_optional_ends:
  assumes "(tty \<noteq> None) = terminal"
  shows "emits (optional_ends E wanted reads tty d)
     (streamed d (\<lambda>ends d'. given d' = given d + ends_given terminal reads ends))"
  unfolding optional_ends_def assms [symmetric]
  by (auto intro!: emits_streamed [OF emits_stream_ends] simp: ends_given_def)

lemma emits_open_terminal:
  "emits (open_terminal E terminal) (streamed [] (\<lambda>tp d. given d = {#} \<and> (tp \<noteq> None \<longleftrightarrow> terminal)))"
  unfolding open_terminal_def OpenPty_def by (auto intro!: emit_rules simp: moved_def)

lemma emits_open_streams:
  "emits (open_streams E terminal stdin stdout stderr) (streamed [] (\<lambda>s d. given d = mset (container_ends terminal s)))"
proof -
  have ends: "mset (container_ends terminal s) = ends_given terminal True (st_Stdin s)
      + ends_given terminal False (st_Stdout s) + ends_given terminal False (st_Stderr s)" for s
    by (simp add: container_ends_def ends_given_def split: option.split)
  have tty: "(map_option f tp \<noteq> None) = terminal" if "(tp \<noteq> None) = terminal" for f :: "int \<times> int \<Rightarrow> int \<times> int" and tp
    using that by auto
  show ?thesis
    unfolding open_streams_def
  proof (rule emits_streamed [OF emits_open_terminal], elim conjE, unfold prod.case)
    fix tp :: "(int \<times> int) option" and d0 assume d0: "given d0 = {#}" and tp: "(tp \<noteq> None) = terminal"
    show "emits (step_or id (optional_ends E stdin True (map_option (\<lambda>(tty, pty). (pty, tty)) tp) d0) (\<lambda>(i, d1).
        step_or id (optional_ends E stdout False tp d1) (\<lambda>(out, d2).
        step_or id (optional_ends E (terminal \<or> stderr) False tp d2) (\<lambda>(err, d3).
        ret (Ok (\<lparr>st_Stdin = i, st_Stdout = out, st_Stderr = err\<rparr>, d3))))))
      (streamed d0 (\<lambda>s d. given d = mset (container_ends terminal s)))"
    proof (rule emits_streamed [OF emits_optional_ends [OF tty [OF tp]]], unfold prod.case)
      fix i d1 assume d1: "given d1 = given d0 + ends_given terminal True i"
      show "emits (step_or id (optional_ends E stdout False tp d1) (\<lambda>(out, d2).
          step_or id (optional_ends E (terminal \<or> stderr) False tp d2) (\<lambda>(err, d3).
          ret (Ok (\<lparr>st_Stdin = i, st_Stdout = out, st_Stderr = err\<rparr>, d3)))))
        (streamed d1 (\<lambda>s d. given d = mset (container_ends terminal s)))"
      proof (rule emits_streamed [OF emits_optional_ends [OF tp]], unfold prod.case)
        fix out d2 assume d2: "given d2 = given d1 + ends_given terminal False out"
        show "emits (step_or id (optional_ends E (terminal \<or> stderr) False tp d2) (\<lambda>(err, d3).
            ret (Ok (\<lparr>st_Stdin = i, st_Stdout = out, st_Stderr = err\<rparr>, d3))))
          (streamed d2 (\<lambda>s d. given d = mset (container_ends terminal s)))"
          by (rule emits_streamed [OF emits_optional_ends [OF tp]]) (simp add: ends d0 d1 d2)
      qed
    qed
  qed
qed

section \<open>The command itself\<close>

lemma released_exec_attached:
  assumes given: "given d = mset (container_ends terminal s)"
  shows "emits (exec_attached E spec terminal s d) (released (held d))"
proof -
  let ?spec = "stream_spec spec s"
  have name: "Name ?spec = Name spec" by (simp add: stream_spec_def)
  let ?rest = "map fst (filter (Not \<circ> snd) d)"
  have parts: "held d = mset (container_ends terminal s) + mset ?rest"
  proof -
    have "held d = image_mset fst (filter_mset snd (mset d) + filter_mset (\<lambda>x. \<not> snd x) (mset d))"
      by (rule arg_cong [OF multiset_partition])
    then show ?thesis by (simp only: image_mset_union given mset_map mset_filter comp_def)
  qed
  have success: "released (held d) (Ok ()) (EvCreateFromSpec ?spec [] True (Inr u)
      # es @ EvWait ids t y # EvDestroy (Name spec) x # fs)"
    if "moved es (mset (container_ends terminal s)) {#}" "moved fs (mset ?rest) {#}" for es fs u y x ids t
  proof -
    have "EvCreateFromSpec ?spec [] True (Inr u) # es @ EvWait ids t y # EvDestroy (Name spec) x # fs
      = [] @ EvCreateFromSpec ?spec [] True (Inr ()) # (es @ [EvWait ids t y]) @ EvDestroy (Name ?spec) x # fs
      \<and> quiet [] \<and> quiet (es @ [EvWait ids t y]) \<and> quiet fs \<and> Ok () = Ok ()"
      using that by (simp add: moved_def name)
    moreover have "opened es + opened fs + held d = closed es + closed fs"
      unfolding parts using carry [of "opened es" "mset (container_ends terminal s)" "closed es" "{#}" "opened fs + mset ?rest" "closed fs" "{#}"] that
      by (simp add: moved_def ac_simps)
    moreover have "same_porto (es @ fs)" using that by (simp add: moved_def)
    ultimately show ?thesis
      unfolding released_def by (intro conjI) (simp, simp, blast)
  qed
  have refused: "released (held d) (Err e) (EvCreateFromSpec ?spec [] True (Inl e2) # fs)"
    if "moved fs (held d) {#}" for e e2 fs
  proof -
    have "EvCreateFromSpec ?spec [] True (Inl e2) # fs = [] @ EvCreateFromSpec ?spec [] True (Inl e2) # fs
      \<and> quiet [] \<and> quiet fs \<and> \<not> is_Ok (Err e :: unit res)"
      using that by (simp add: moved_def)
    then show ?thesis using that unfolding released_def moved_def by (intro conjI) (simp, simp, blast)
  qed
  show ?thesis
    unfolding exec_attached_def CreateFromSpec_def Wait_def Destroy_def
  proof (rule emits_bind_ask)
    fix c :: "goerr + unit"
    show "emits (case c of
          Inl e \<Rightarrow> do { u \<leftarrow> close_all (map fst d); ret (Err (FmtV ''Exec'' e)) }
        | Inr x \<Rightarrow> do {
            u \<leftarrow> close_all (container_ends terminal s);
            r \<leftarrow> ask (\<lambda>h. o_Wait (porto E) h [Name spec] (- 1)) (EvWait [Name spec] (- 1));
            x \<leftarrow> ask (\<lambda>h. o_Destroy (porto E) h (Name spec)) (EvDestroy (Name spec));
            v \<leftarrow> close_all ?rest;
            ret (Ok ()) })
      (\<lambda>v es. released (held d) v (EvCreateFromSpec ?spec [] True c # es))"
    proof (cases c)
      case (Inl e)
      have "emits (do { u \<leftarrow> close_all (map fst d); ret (Err (FmtV ''Exec'' e)) })
        (\<lambda>v es. released (held d) v (EvCreateFromSpec ?spec [] True (Inl e) # es))"
        by (rule emits_bind [OF emits_close_all]) (simp add: refused)
      then show ?thesis by (simp add: Inl)
    next
      case (Inr u)
      have "emits (do {
            u \<leftarrow> close_all (container_ends terminal s);
            r \<leftarrow> ask (\<lambda>h. o_Wait (porto E) h [Name spec] (- 1)) (EvWait [Name spec] (- 1));
            x \<leftarrow> ask (\<lambda>h. o_Destroy (porto E) h (Name spec)) (EvDestroy (Name spec));
            v \<leftarrow> close_all ?rest;
            ret (Ok ()) })
        (\<lambda>v es. released (held d) v (EvCreateFromSpec ?spec [] True (Inr u) # es))"
        by (rule emits_bind [OF emits_close_all], intro emits_bind_ask, rule emits_bind [OF emits_close_all])
          (simp add: success)
      then show ?thesis by (simp add: Inr)
    qed
  qed
qed

text \<open>Steps that touch neither a descriptor nor a container.\<close>

lemma released_step:
  assumes "emits m (\<lambda>r es. moved es {#} {#})" "\<And>v. emits (k v) (released {#})"
  shows "emits (step_or g m k) (released {#})"
  by (rule emits_step_or [OF assms(1)])
    (auto simp: moved_def intro!: emits_mono [OF assms(2)] intro: released_front [of _ _ "{#}"])

lemma released_bind:
  assumes "emits m (\<lambda>r es. moved es {#} {#})" "\<And>v. emits (k v) (released {#})"
  shows "emits (State_Monad.bind m k) (released {#})"
  by (rule emits_bind [OF assms(1)], rule emits_mono [OF assms(2)], rule released_front)

lemma moved_prefix: "emits (addPortoPrefix E i) (\<lambda>v es. moved es {#} {#})"
  by (rule emits_mono [OF emits_addPortoPrefix]) (auto simp: moved_def)

lemma moved_createID: "emits (createID E n) (\<lambda>v es. moved es {#} {#})"
  unfolding createID_def Intn_def by (auto intro!: emit_rules simp: moved_def)

lemma moved_streaming_spec: "emits (streaming_spec E i c cmd) (\<lambda>r es. moved es {#} {#})"
  unfolding streaming_spec_def GetProperty_def Let_def
  by (auto intro!: emit_rules emits_step_or_silent emits_prepareCommand simp: moved_def)

lemma dialled_porto:
  "emits (portoClientContext E) (\<lambda>r es. case r of Ok u \<Rightarrow> es = [EvDial (Inr ())] | Err e \<Rightarrow> \<exists>e. es = [EvDial (Inl e)] | Panic s \<Rightarrow> False)"
  unfolding portoClientContext_def Dial_def by (rule emits_call_or_ask) simp_all

text \<open>
  How a whole attached command ends: Porto is dialled first; all the rest happens over that connection,
  which is not closed and not made again.
\<close>

definition attached_end :: "unit res \<Rightarrow> history \<Rightarrow> bool" where
  "attached_end v es \<longleftrightarrow> (case es of
     EvDial (Inl e) # fs \<Rightarrow> fs = [] \<and> \<not> is_Ok v
   | EvDial (Inr u) # fs \<Rightarrow> released {#} v fs
   | _ \<Rightarrow> False)"

lemma attached_end_streaming_Exec: "emits (streaming_Exec E cid cmd stdin stdout stderr terminal) attached_end"
proof -
  have opened: "emits (step_or id (open_streams E terminal stdin stdout stderr) (\<lambda>(s, d). exec_attached E spec terminal s d))
      (released {#})" for spec
  proof (rule emits_step_or [OF emits_open_streams])
    fix v es assume v: "streamed [] (\<lambda>s d. given d = mset (container_ends terminal s)) (Ok v) es"
    obtain s d where sd: "v = (s, d)" by force
    with v have "moved es {#} (held d)" "given d = mset (container_ends terminal s)" by simp_all
    then show "emits (case v of (s, d) \<Rightarrow> exec_attached E spec terminal s d) (\<lambda>u fs. released {#} u (es @ fs))"
      unfolding sd prod.case by (intro emits_mono [OF released_exec_attached] released_front)
  qed (auto simp: moved_def)
  show ?thesis
    unfolding streaming_Exec_def Let_def
  proof (rule emits_step_or [OF dialled_porto])
    fix u :: unit and es assume "case Ok u of Ok u \<Rightarrow> es = [EvDial (Inr ())] | Err e \<Rightarrow> \<exists>e. es = [EvDial (Inl e)] | Panic s \<Rightarrow> False"
    then have es: "es = [EvDial (Inr ())]" by simp
    show "emits (do {
       portoContainerID \<leftarrow> addPortoPrefix E cid;
       name \<leftarrow> createID E ''exec'';
       step_or id (streaming_spec E (path_Join [portoContainerID, name]) portoContainerID cmd) (\<lambda>spec.
       step_or id (open_streams E terminal stdin stdout stderr) (\<lambda>(s, deferred).
       exec_attached E spec terminal s deferred)) }) (\<lambda>v fs. attached_end v (es @ fs))"
      unfolding es attached_end_def append_Cons append_Nil list.case event.case sum.case
      by (intro released_step released_bind moved_prefix moved_createID moved_streaming_spec opened)
  qed (auto simp: attached_end_def)
qed

section \<open>Properties\<close>

text \<open>
  C9. An attached command leaves one thing behind, whatever fails: the connection to Porto, which it
  dials first and which nothing closes. Every descriptor opened for its streams is closed exactly as
  often as it was opened, and a container that was created is destroyed. Once the container was created the result is success, whatever the command or the
  waiting for it did: its exit code and the error of the wait never reach the caller.
\<close>

theorem attached_command_released:
  "\<exists>es. w_trace (snd (run_state (streaming_Exec E cid cmd stdin stdout stderr terminal) w)) = w_trace w @ es
     \<and> attached_end (fst (run_state (streaming_Exec E cid cmd stdin stdout stderr terminal) w)) es"
  using attached_end_streaming_Exec unfolding emits_def by blast

text \<open>The number of the first running task, with the names Porto lists in order.\<close>

definition task_pid :: "goerr + string \<Rightarrow> int option" where
  "task_pid r = (case r of Inl e \<Rightarrow> None | Inr s \<Rightarrow> (case Atoi (TrimSpace s) of
     (pid, err) \<Rightarrow> if err = None \<and> 0 < pid then Some pid else None))"

lemma first_task_find:
  assumes "\<And>h n. o_GetProperty (porto E) h n ''root_pid'' = f n"
  shows "fst (run_state (first_task E names) w)
    = (case List.find (\<lambda>n. task_pid (f n) \<noteq> None) names of None \<Rightarrow> None
       | Some n \<Rightarrow> Some (''/proc/'' @ itoa (the (task_pid (f n))) @ ''/ns/net''))"
proof (induction names arbitrary: w)
  case (Cons name names)
  then show ?case
    by (cases "Atoi (TrimSpace (projr (f name)))")
      (auto simp: run_simps assms task_pid_def split: sum.split)
qed simp

text \<open>
  A connection is forwarded into the right network namespace: that of the name in the property
  of the pod; for the namespace of an L3 network, which has no name, that of the first task found
  in the pod itself or else in its containers in the order of Porto; none, the namespace of the
  host, for a pod without one; and a pod without a running task is an error.
\<close>

theorem pod_namespace_exact:
  assumes net: "\<And>h. o_GetProperty (porto E) h portoid ''net'' = Inr netProp"
    and children: "\<And>h. o_ListContainers (porto E) h (portoid @ ''/***'') = Inr children"
    and pids: "\<And>h n. o_GetProperty (porto E) h n ''root_pid'' = f n"
  shows "fst (run_state (podNetNSPath E portoid) w) =
    (let name = parsePropertiesNetNS netProp [''netns''] in
     if name \<noteq> [] then Ok (path_Join [NetnsDir (Cfg E), name])
     else if parsePropertiesNetNS netProp [''L3''] = [] then Ok []
     else case List.find (\<lambda>n. task_pid (f n) \<noteq> None) (portoid # children) of
        None \<Rightarrow> Err (Errorf ''no running task found in pod'' [portoid])
      | Some n \<Rightarrow> Ok (''/proc/'' @ itoa (the (task_pid (f n))) @ ''/ns/net''))"
proof -
  have "fst (run_state (do { t \<leftarrow> first_task E (portoid # children);
        case t of Some path \<Rightarrow> ret (Ok path) | None \<Rightarrow> ret (Err (Errorf ''no running task found in pod'' [portoid])) }) w1)
      = (case List.find (\<lambda>n. task_pid (f n) \<noteq> None) (portoid # children) of
          None \<Rightarrow> Err (Errorf ''no running task found in pod'' [portoid])
        | Some n \<Rightarrow> Ok (''/proc/'' @ itoa (the (task_pid (f n))) @ ''/ns/net''))" for w1
    using first_task_find [where w = w1 and names = "portoid # children", OF pids]
    by (cases "run_state (first_task E (portoid # children)) w1")
      (simp del: first_task.simps List.find.simps split: option.splits)
  then show ?thesis
    unfolding podNetNSPath_def
    by (simp add: run_call_or GetProperty_def ListContainers_def run_ask net children Let_def
        del: first_task.simps List.find.simps)
qed

text \<open>A pod without a task of its own, whose container runs the process 42.\<close>

definition l3_env :: env where
  "l3_env = base_env\<lparr>porto := base_porto\<lparr>o_ListContainers := (\<lambda>h m. Inr [''pod-1/app'']),
     o_GetProperty := (\<lambda>h i n. if n = ''net'' then Inr ''L3 veth'' else if i = ''pod-1/app'' then Inr ''42'' else Inl no_container)\<rparr>\<rparr>"

theorem pod_namespace_exact_witness:
  "fst (run_state (podNetNSPath l3_env ''pod-1'') base_world) = Ok ''/proc/42/ns/net''"
proof -
  have "Fields (Join '' '' [''L3'', ''veth'']) = [''L3'', ''veth'']"
    by (rule Fields_words) (simp add: plain_word_def plain_char_def)
  then have p: "parsePropertiesNetNS ''L3 veth'' [''netns''] = []" "parsePropertiesNetNS ''L3 veth'' [''L3''] \<noteq> []"
    by (simp_all add: parsePropertiesNetNS_def)
  have "TrimSpace ''42'' = ''42''" by (rule TrimSpace_plain) (simp add: plain_char_def)
  moreover have d: "dec 42 = ''42''" by (simp add: dec.simps [of 42] dec.simps [of 4] digit_char_def char_of_def bit_0)
  moreover have "Atoi (dec 42) = (42, None)" by (simp add: parse_int_dec)
  ultimately have n: "task_pid (Inr ''42'') = Some 42" "itoa 42 = ''42''" by (simp_all add: task_pid_def itoa_def)
  have "fst (run_state (podNetNSPath l3_env ''pod-1'') base_world) = (let name = parsePropertiesNetNS ''L3 veth'' [''netns''] in
     if name \<noteq> [] then Ok (path_Join [NetnsDir (Cfg l3_env), name])
     else if parsePropertiesNetNS ''L3 veth'' [''L3''] = [] then Ok []
     else case List.find (\<lambda>n. task_pid (if n = ''pod-1/app'' then Inr ''42'' else Inl no_container) \<noteq> None) [''pod-1'', ''pod-1/app''] of
        None \<Rightarrow> Err (Errorf ''no running task found in pod'' [''pod-1''])
      | Some n \<Rightarrow> Ok (''/proc/'' @ itoa (the (task_pid (if n = ''pod-1/app'' then Inr ''42'' else Inl no_container))) @ ''/ns/net''))"
    by (rule pod_namespace_exact) (simp_all add: l3_env_def)
  then show ?thesis using n p by (simp add: task_pid_def [of "Inl no_container"])
qed

end
