(* ===== verification/Machines.thy ===== *)
theory Machines
  imports Main
begin

text \<open>
  Machines: a step relation, the state it starts in and an invariant. The goroutines of the program
  that run beside each other are machines, each rule one step of one of them, so that the relation
  has every interleaving.
\<close>

locale machine =
  fixes step :: "'s \<Rightarrow> 's \<Rightarrow> bool" and start :: 's and inv :: "'s \<Rightarrow> bool"
  assumes inv_start: "inv start"
    and inv_step: "step s s' \<Longrightarrow> inv s \<Longrightarrow> inv s'"
begin

lemma holds: "step\<^sup>*\<^sup>* start s \<Longrightarrow> inv s"
  by (induction rule: rtranclp_induct) (auto intro: inv_start inv_step)

lemma holds_counted: "(step ^^ n) start s \<Longrightarrow> inv s"
  by (rule holds) (rule relpowp_imp_rtranclp)

end

text \<open>A machine that runs by itself for a while only: every step of its own uses up something.\<close>

locale bounded_machine = machine step start inv
  for step :: "'s \<Rightarrow> 's \<Rightarrow> bool" and start :: 's and inv :: "'s \<Rightarrow> bool" +
  fixes own :: "'s \<Rightarrow> 's \<Rightarrow> bool" and left :: "'s \<Rightarrow> nat"
  assumes own_step: "own s s' \<Longrightarrow> step s s'"
    and left_own: "own s s' \<Longrightarrow> inv s \<Longrightarrow> left s' < left s"
begin

lemma own_run: "(own ^^ n) s s' \<Longrightarrow> inv s \<Longrightarrow> n + left s' \<le> left s \<and> inv s'"
proof (induction n arbitrary: s')
  case (Suc n)
  then obtain t where t: "(own ^^ n) s t" "own t s'" by auto
  with Suc have "n + left t \<le> left s" "inv t" by blast+
  with left_own [OF t(2)] inv_step [OF own_step [OF t(2)]] show ?case by simp
qed simp

end

end
