(* ===== verification/Portforward.thy ===== *)
theory Portforward
  imports Streaming Machines
begin

text \<open>
  Forwarding a port (portforward.go, PortForward in streaming.go): a thread enters the network
  namespace of the pod to connect and leaves it again; then two goroutines copy between the client
  and the pod while the handler waits for the first reason to return. The first is a program over
  the state of the thread and the answers of the kernel, the second a step relation.
\<close>

section \<open>Threads, namespaces and connections\<close>

text \<open>
  The state of the thread the work runs on: its network namespace, whether it is locked to the
  goroutine, the descriptors of namespaces opened, each with the namespace it is of, and the open
  connections. A connection keeps the namespace it was made in.
\<close>

record conn =
  cn_ns :: string
  cn_addr :: string

record os_thread =
  th_ns :: string
  th_locked :: bool
  th_fds :: "(int \<times> string) list"
  th_conns :: "conn list"

text \<open>The kernel: whether a call succeeds, the number of a descriptor, the namespace of a path.\<close>

record kernel =
  k_open :: "os_thread \<Rightarrow> string \<Rightarrow> goerr + int"
  k_netns :: "string \<Rightarrow> string"
  k_setns :: "os_thread \<Rightarrow> int \<Rightarrow> goerr + unit"
  k_dial :: "os_thread \<Rightarrow> string \<Rightarrow> goerr + unit"

type_synonym 'a on_thread = "(os_thread, 'a) io"

definition self_netns :: string where
  "self_netns = ''/proc/thread-self/ns/net''"

definition path_ns :: "kernel \<Rightarrow> os_thread \<Rightarrow> string \<Rightarrow> string" where
  "path_ns K t path = (if path = self_netns then th_ns t else k_netns K path)"

definition OpenNs :: "kernel \<Rightarrow> string \<Rightarrow> (goerr + int) on_thread" where
  "OpenNs K path = State (\<lambda>t. case k_open K t path of
     Inl e \<Rightarrow> (Inl e, t) | Inr fd \<Rightarrow> (Inr fd, t\<lparr>th_fds := (fd, path_ns K t path) # th_fds t\<rparr>))"

definition CloseNs :: "int \<Rightarrow> unit on_thread" where
  "CloseNs fd = State (\<lambda>t. ((), t\<lparr>th_fds := AList.delete fd (th_fds t)\<rparr>))"

definition Setns :: "kernel \<Rightarrow> int \<Rightarrow> (goerr + unit) on_thread" where
  "Setns K fd = State (\<lambda>t. case map_of (th_fds t) fd of
     None \<Rightarrow> (Inl (OsError ''bad file descriptor''), t)
   | Some ns \<Rightarrow> (case k_setns K t fd of Inl e \<Rightarrow> (Inl e, t) | Inr u \<Rightarrow> (Inr u, t\<lparr>th_ns := ns\<rparr>)))"

definition DialTCP :: "kernel \<Rightarrow> string \<Rightarrow> (goerr + conn) on_thread" where
  "DialTCP K addr = State (\<lambda>t. case k_dial K t addr of
     Inl e \<Rightarrow> (Inl e, t)
   | Inr u \<Rightarrow> (let c = \<lparr>cn_ns = th_ns t, cn_addr = addr\<rparr> in (Inr c, t\<lparr>th_conns := c # th_conns t\<rparr>)))"

definition CloseConn :: "conn \<Rightarrow> unit on_thread" where
  "CloseConn c = State (\<lambda>t. ((), t\<lparr>th_conns := remove1 c (th_conns t)\<rparr>))"

definition set_locked :: "bool \<Rightarrow> unit on_thread" where
  "set_locked b = State (\<lambda>t. ((), t\<lparr>th_locked := b\<rparr>))"

section \<open>Connecting inside a namespace\<close>

definition JoinHostPort :: "string \<Rightarrow> string \<Rightarrow> string" where
  "JoinHostPort host port =
     (if CHR '':'' \<in> set host then ''['' @ host @ '']:'' @ port else host @ '':'' @ port)"

fun dial_hosts :: "kernel \<Rightarrow> int \<Rightarrow> goerr list \<Rightarrow> string list \<Rightarrow> (goerr + conn) on_thread" where
  "dial_hosts K port errs [] = ret (Inl (Joined errs))"
| "dial_hosts K port errs (host # hosts) = do {
     r \<leftarrow> DialTCP K (JoinHostPort host (itoa port));
     case r of
       Inr c \<Rightarrow> ret (Inr c)
     | Inl e \<Rightarrow> dial_hosts K port (errs @ [e]) hosts
   }"

definition dial :: "kernel \<Rightarrow> int \<Rightarrow> (goerr + conn) on_thread" where
  "dial K port = dial_hosts K port [] [''127.0.0.1'', ''::1'']"

text \<open>
  The results are the connection or the error, and whether the thread is back in its namespace. The
  deferred closes run on every return after the descriptor was opened.
\<close>

definition dial_between :: "kernel \<Rightarrow> string \<Rightarrow> int \<Rightarrow> int \<Rightarrow> int \<Rightarrow> ((goerr + conn) \<times> bool) on_thread" where
  "dial_between K nsPath origFd targetFd port = do {
     s \<leftarrow> Setns K targetFd;
     case s of
       Inl e \<Rightarrow> ret (Inl (WrapW ''setns'' e), True)
     | Inr u \<Rightarrow> do {
         conn \<leftarrow> dial K port;
         b \<leftarrow> Setns K origFd;
         case b of
           Inl e \<Rightarrow> do {
             x \<leftarrow> (case conn of Inr c \<Rightarrow> CloseConn c | Inl de \<Rightarrow> ret ());
             ret (Inl (WrapW ''restore netns'' e), False)
           }
         | Inr v \<Rightarrow> (case conn of
             Inl de \<Rightarrow> ret (Inl (WrapW ''dial port'' de), True)
           | Inr c \<Rightarrow> ret (Inr c, True))
       }
   }"

definition dialFromNetNS :: "kernel \<Rightarrow> string \<Rightarrow> int \<Rightarrow> ((goerr + conn) \<times> bool) on_thread" where
  "dialFromNetNS K nsPath port = do {
     orig \<leftarrow> OpenNs K self_netns;
     case orig of
       Inl e \<Rightarrow> ret (Inl (WrapW ''open current netns'' e), True)
     | Inr origFd \<Rightarrow> do {
         target \<leftarrow> OpenNs K nsPath;
         r \<leftarrow> (case target of
           Inl e \<Rightarrow> ret (Inl (WrapW ''open'' e), True)
         | Inr targetFd \<Rightarrow> do {
             r \<leftarrow> dial_between K nsPath origFd targetFd port;
             u \<leftarrow> CloseNs targetFd;
             ret r
           });
         u \<leftarrow> CloseNs origFd;
         ret r
       }
   }"

definition dialInNetNS :: "kernel \<Rightarrow> string \<Rightarrow> int \<Rightarrow> (goerr + conn) on_thread" where
  "dialInNetNS K nsPath port =
     (if nsPath = [] then dial K port
      else do {
        x \<leftarrow> set_locked True;
        r \<leftarrow> dialFromNetNS K nsPath port;
        case r of (conn, restored) \<Rightarrow> do {
          y \<leftarrow> (if restored then set_locked False else ret ());
          ret conn
        }
      })"

section \<open>What connecting leaves behind\<close>

lemma run_dial_hosts:
  "run_state (dial_hosts K port errs hosts) t = (r, t')
   \<Longrightarrow> (case r of Inl e \<Rightarrow> t' = t | Inr c \<Rightarrow> t' = t\<lparr>th_conns := c # th_conns t\<rparr> \<and> cn_ns c = th_ns t)"
proof (induction hosts arbitrary: errs)
  case (Cons host hosts)
  then show ?case
    by (cases "k_dial K t (JoinHostPort host (itoa port))") (auto simp: DialTCP_def Let_def)
qed auto

text \<open>The outcome of connecting from a thread \<open>t\<close> into the namespace \<open>ns\<close>.\<close>

definition connected :: "os_thread \<Rightarrow> string \<Rightarrow> goerr + conn \<Rightarrow> os_thread \<Rightarrow> bool" where
  "connected t ns r t' \<longleftrightarrow> th_fds t' = th_fds t
     \<and> (case r of Inl e \<Rightarrow> th_conns t' = th_conns t
        | Inr c \<Rightarrow> th_conns t' = c # th_conns t \<and> cn_ns c = ns)"

lemma run_dial: "run_state (dial K port) t = (r, t') \<Longrightarrow> connected t (th_ns t) r t' \<and> th_ns t' = th_ns t \<and> th_locked t' = th_locked t"
  unfolding dial_def by (drule run_dial_hosts) (auto simp: connected_def split: sum.splits)

lemma run_dial_between:
  assumes run: "run_state (dial_between K nsPath origFd targetFd port) t = ((r, restored), t')"
    and fds: "map_of (th_fds t) origFd = Some (th_ns t)" "map_of (th_fds t) targetFd = Some ns"
  shows "connected t ns r t' \<and> th_locked t' = th_locked t \<and> (restored \<longrightarrow> th_ns t' = th_ns t) \<and> (\<not> restored \<longrightarrow> isl r)"
proof (cases "k_setns K t targetFd")
  case (Inl e)
  with run fds show ?thesis by (auto simp: dial_between_def Setns_def connected_def)
next
  case (Inr u)
  let ?t1 = "t\<lparr>th_ns := ns\<rparr>"
  obtain rd t2 where d: "run_state (dial K port) ?t1 = (rd, t2)" by force
  from run_dial [OF d] have t2: "connected ?t1 ns rd t2" "th_ns t2 = ns" "th_locked t2 = th_locked t" by simp_all
  then have o2: "map_of (th_fds t2) origFd = Some (th_ns t)" using fds by (simp add: connected_def)
  show ?thesis
  proof (cases "k_setns K t2 origFd")
    case (Inl e)
    with run Inr d o2 fds t2 show ?thesis
      by (cases rd) (auto simp: dial_between_def Setns_def CloseConn_def connected_def)
  next
    case (Inr v)
    with run \<open>k_setns K t targetFd = Inr u\<close> d o2 fds t2 show ?thesis
      by (cases rd) (auto simp: dial_between_def Setns_def connected_def)
  qed
qed

definition fresh_fds :: "kernel \<Rightarrow> bool" where
  "fresh_fds K \<longleftrightarrow> (\<forall>t path fd. k_open K t path = Inr fd \<longrightarrow> fd \<notin> fst ` set (th_fds t))"

lemma run_dialFromNetNS:
  assumes run: "run_state (dialFromNetNS K nsPath port) t = ((r, restored), t')" and fresh: "fresh_fds K"
  shows "connected t (path_ns K t nsPath) r t' \<and> th_locked t' = th_locked t
    \<and> (restored \<longrightarrow> th_ns t' = th_ns t) \<and> (\<not> restored \<longrightarrow> isl r)"
proof (cases "k_open K t self_netns")
  case (Inl e)
  with run show ?thesis by (auto simp: dialFromNetNS_def OpenNs_def connected_def)
next
  case (Inr origFd)
  let ?t1 = "t\<lparr>th_fds := (origFd, th_ns t) # th_fds t\<rparr>"
  have o: "origFd \<notin> fst ` set (th_fds t)" using fresh Inr by (auto simp: fresh_fds_def)
  have open1: "run_state (OpenNs K self_netns) t = (Inr origFd, ?t1)"
    using Inr by (simp add: OpenNs_def path_ns_def)
  show ?thesis
  proof (cases "k_open K ?t1 nsPath")
    case (Inl e)
    with run open1 o show ?thesis
      by (auto simp: dialFromNetNS_def OpenNs_def [of K nsPath] CloseNs_def connected_def)
  next
    case (Inr targetFd)
    let ?ns = "path_ns K t nsPath"
    let ?t2 = "t\<lparr>th_fds := (targetFd, ?ns) # (origFd, th_ns t) # th_fds t\<rparr>"
    have g: "targetFd \<noteq> origFd" "targetFd \<notin> fst ` set (th_fds t)"
      using fresh [unfolded fresh_fds_def, rule_format, OF Inr] by auto
    have open2: "run_state (OpenNs K nsPath) ?t1 = (Inr targetFd, ?t2)"
      using Inr by (simp add: OpenNs_def path_ns_def)
    obtain rb t3 where b: "run_state (dial_between K nsPath origFd targetFd port) ?t2 = (rb, t3)" by (rule prod.exhaust)
    obtain rc rs where rb: "rb = (rc, rs)" by force
    have b3: "connected ?t2 ?ns rc t3 \<and> th_locked t3 = th_locked ?t2 \<and> (rs \<longrightarrow> th_ns t3 = th_ns ?t2) \<and> (\<not> rs \<longrightarrow> isl rc)"
      by (rule run_dial_between [OF b [unfolded rb]]) (use g in auto)
    have f: "AList.delete origFd (AList.delete targetFd (th_fds ?t2)) = th_fds t"
      using o g by (simp add: delete_id)
    have "r = rc" "restored = rs" "t' = t3\<lparr>th_fds := AList.delete origFd (AList.delete targetFd (th_fds t3))\<rparr>"
      using run unfolding dialFromNetNS_def CloseNs_def by (simp_all add: open1 open2 b rb)
    moreover have "th_fds t3 = th_fds ?t2" using b3 by (simp add: connected_def)
    ultimately show ?thesis using b3 f by (cases rc) (simp_all add: connected_def)
  qed
qed

lemma dialled:
  assumes "fresh_fds K" "\<not> th_locked t" "run_state (dialInNetNS K nsPath port) t = (r, t')"
  shows "connected t (if nsPath = [] then th_ns t else path_ns K t nsPath) r t'
    \<and> (\<not> th_locked t' \<longrightarrow> th_ns t' = th_ns t) \<and> (th_locked t' \<longrightarrow> isl r)"
proof (cases "nsPath = []")
  case True
  with assms(2,3) run_dial [of K port t r t'] show ?thesis by (simp add: dialInNetNS_def)
next
  case False
  let ?t1 = "t\<lparr>th_locked := True\<rparr>"
  obtain rc rs t2 where d: "run_state (dialFromNetNS K nsPath port) ?t1 = ((rc, rs), t2)" by (metis prod.exhaust)
  from run_dialFromNetNS [OF d assms(1)] have
    "connected ?t1 (path_ns K ?t1 nsPath) rc t2" "th_locked t2" "rs \<longrightarrow> th_ns t2 = th_ns t" "\<not> rs \<longrightarrow> isl rc" by auto
  moreover have "path_ns K ?t1 nsPath = path_ns K t nsPath" by (simp add: path_ns_def)
  ultimately show ?thesis
    using False assms(3) d by (auto simp: dialInNetNS_def set_locked_def connected_def split: if_splits sum.splits)
qed

text \<open>
  A kernel that gives unused numbers, and one that refuses to let the thread back: with the first
  the second address answers, with the other the thread stays locked and the connection is closed.
\<close>

definition small_kernel :: "bool \<Rightarrow> kernel" where
  "small_kernel back = \<lparr>k_open = (\<lambda>t path. Inr (int (Suc (\<Sum>f\<leftarrow>th_fds t. nat (fst f))))),
     k_netns = (\<lambda>path. ''pod''), k_setns = (\<lambda>t fd. if back \<or> th_ns t = ''host'' then Inr () else Inl (OsError ''EPERM'')),
     k_dial = (\<lambda>t addr. if addr = ''[::1]:8'' then Inr () else Inl (OsError ''refused''))\<rparr>"

definition host_thread :: os_thread where
  "host_thread = \<lparr>th_ns = ''host'', th_locked = False, th_fds = [], th_conns = []\<rparr>"

lemma fresh_small_kernel: "fresh_fds (small_kernel back)"
  unfolding fresh_fds_def
proof (intro allI impI)
  fix t :: os_thread and path fd
  assume "k_open (small_kernel back) t path = Inr fd"
  then have "fd = int (Suc (\<Sum>f\<leftarrow>th_fds t. nat (fst f)))" by (simp add: small_kernel_def)
  then show "fd \<notin> fst ` set (th_fds t)" by (simp only: unused_key not_False_eq_True)
qed

lemma itoa_8: "itoa 8 = ''8''"
  by (simp add: itoa_def dec.simps [of 8] digit_char_def char_of_def bit_0)

lemma small_kernel_runs:
  "\<exists>c t'. run_state (dialInNetNS (small_kernel True) ''/ns'' 8) host_thread = (Inr c, t') \<and> \<not> th_locked t'"
  "\<exists>e t'. run_state (dialInNetNS (small_kernel False) ''/ns'' 8) host_thread = (Inl e, t') \<and> th_locked t'"
  by (simp_all add: dialInNetNS_def dialFromNetNS_def dial_between_def dial_def OpenNs_def CloseNs_def Setns_def DialTCP_def
      CloseConn_def set_locked_def path_ns_def small_kernel_def host_thread_def self_netns_def JoinHostPort_def itoa_8 Let_def)

section \<open>Copying in both directions\<close>

text \<open>
  \<open>copyPortForward\<close>: a goroutine for each direction copies until its source ends or fails and then
  puts the result into its channel; the one from the client closes the writing half of the
  connection before. The handler waits for the first of three: the pod's side is done, the client's
  side is done, the context is cancelled. A state holds what the client and the pod have not yet
  got through, how many bytes of it are let through at the moment (they have arrived, and the other
  side takes them), whether the sides have closed, what has arrived, where the goroutines are, and
  what was returned. A side that is open with nothing let through blocks the goroutine that copies.
\<close>

datatype half = Copying | Sent "goerr option" | Received

record pump =
  p_client :: string
  p_pod :: string
  p_client_flow :: nat
  p_pod_flow :: nat
  p_client_closed :: bool
  p_pod_closed :: bool
  p_to_pod :: string
  p_to_client :: string
  p_in :: half
  p_out :: half
  p_half_closed :: bool
  p_ctx :: "goerr option"
  p_result :: "goerr option option"

definition pump_start :: "string \<Rightarrow> string \<Rightarrow> pump" where
  "pump_start client pod = \<lparr>p_client = client, p_pod = pod, p_client_flow = 0, p_pod_flow = 0, p_client_closed = False,
     p_pod_closed = False, p_to_pod = [], p_to_client = [], p_in = Copying, p_out = Copying, p_half_closed = False,
     p_ctx = None, p_result = None\<rparr>"

text \<open>The steps of the two goroutines and of the handler.\<close>

inductive pump_own :: "pump \<Rightarrow> pump \<Rightarrow> bool" where
  CopyIn: "p_in s = Copying \<Longrightarrow> p_client s = c # cs \<Longrightarrow> p_client_flow s = Suc n
    \<Longrightarrow> pump_own s (s\<lparr>p_client := cs, p_client_flow := n, p_to_pod := p_to_pod s @ [c]\<rparr>)"
| EndIn: "p_in s = Copying \<Longrightarrow> p_client s = [] \<Longrightarrow> p_client_closed s
    \<Longrightarrow> pump_own s (s\<lparr>p_in := Sent None, p_half_closed := True\<rparr>)"
| CopyOut: "p_out s = Copying \<Longrightarrow> p_pod s = c # cs \<Longrightarrow> p_pod_flow s = Suc n
    \<Longrightarrow> pump_own s (s\<lparr>p_pod := cs, p_pod_flow := n, p_to_client := p_to_client s @ [c]\<rparr>)"
| EndOut: "p_out s = Copying \<Longrightarrow> p_pod s = [] \<Longrightarrow> p_pod_closed s \<Longrightarrow> pump_own s (s\<lparr>p_out := Sent None\<rparr>)"
| SelectOut: "p_result s = None \<Longrightarrow> p_out s = Sent r \<Longrightarrow> pump_own s (s\<lparr>p_out := Received, p_result := Some r\<rparr>)"
| SelectIn: "p_result s = None \<Longrightarrow> p_in s = Sent None \<Longrightarrow> pump_own s (s\<lparr>p_in := Received\<rparr>)"
| SelectInErr: "p_result s = None \<Longrightarrow> p_in s = Sent (Some e)
    \<Longrightarrow> pump_own s (s\<lparr>p_in := Received, p_result := Some (Some (WrapW ''copy from client'' e))\<rparr>)"
| SelectCtx: "p_result s = None \<Longrightarrow> p_ctx s = Some e \<Longrightarrow> pump_own s (s\<lparr>p_result := Some (Some e)\<rparr>)"

text \<open>What happens to them: bytes get through, a side closes, copying fails, the context is done.\<close>

inductive pump_env :: "pump \<Rightarrow> pump \<Rightarrow> bool" where
  LetIn: "pump_env s (s\<lparr>p_client_flow := p_client_flow s + n\<rparr>)"
| LetOut: "pump_env s (s\<lparr>p_pod_flow := p_pod_flow s + n\<rparr>)"
| CloseIn: "pump_env s (s\<lparr>p_client_closed := True\<rparr>)"
| CloseOut: "pump_env s (s\<lparr>p_pod_closed := True\<rparr>)"
| FailIn: "p_in s = Copying \<Longrightarrow> pump_env s (s\<lparr>p_in := Sent (Some e), p_half_closed := True\<rparr>)"
| FailOut: "p_out s = Copying \<Longrightarrow> pump_env s (s\<lparr>p_out := Sent (Some e)\<rparr>)"
| Cancel: "p_ctx s = None \<Longrightarrow> pump_env s (s\<lparr>p_ctx := Some e\<rparr>)"

definition pump_step :: "pump \<Rightarrow> pump \<Rightarrow> bool" where
  "pump_step s s' \<longleftrightarrow> pump_own s s' \<or> pump_env s s'"

lemma program_step: "pump_own s s' \<Longrightarrow> pump_step s s'"
  and env_step: "pump_env s s' \<Longrightarrow> pump_step s s'"
  by (simp_all add: pump_step_def)

inductive_cases pump_ownE: "pump_own s s'"
inductive_cases pump_envE: "pump_env s s'"

abbreviation pump_run :: "string \<Rightarrow> string \<Rightarrow> pump \<Rightarrow> bool" where
  "pump_run client pod s \<equiv> pump_step\<^sup>*\<^sup>* (pump_start client pod) s"

text \<open>What holds in every state that can be reached.\<close>

definition pump_inv :: "string \<Rightarrow> string \<Rightarrow> pump \<Rightarrow> bool" where
  "pump_inv client pod s \<longleftrightarrow> p_to_pod s @ p_client s = client \<and> p_to_client s @ p_pod s = pod
     \<and> (p_half_closed s \<longleftrightarrow> p_in s \<noteq> Copying) \<and> (p_out s = Sent None \<longrightarrow> p_pod s = [])
     \<and> (p_in s = Sent None \<longrightarrow> p_client s = [])
     \<and> (p_out s = Received \<longrightarrow> p_result s \<noteq> None)
     \<and> (p_result s = Some None \<longrightarrow> p_pod s = [])
     \<and> (p_in s = Received \<longrightarrow> p_client s = [] \<or> (\<exists>e. p_result s = Some (Some e)))"

text \<open>How much the program can still do by itself.\<close>

definition half_left :: "half \<Rightarrow> nat" where
  "half_left h = (case h of Copying \<Rightarrow> 2 | Sent r \<Rightarrow> 1 | Received \<Rightarrow> 0)"

definition pump_left :: "pump \<Rightarrow> nat" where
  "pump_left s = length (p_client s) + length (p_pod s) + half_left (p_in s) + half_left (p_out s)
     + (if p_result s = None then 1 else 0)"

interpretation pm: bounded_machine pump_step "pump_start client pod" "pump_inv client pod" pump_own pump_left for client pod
proof
  show "pump_inv client pod (pump_start client pod)" by (simp add: pump_inv_def pump_start_def)
  show "pump_step s s' \<Longrightarrow> pump_inv client pod s \<Longrightarrow> pump_inv client pod s'" for s s'
    unfolding pump_step_def by (elim disjE pump_ownE pump_envE) (auto simp: pump_inv_def)
  show "pump_own s s' \<Longrightarrow> pump_step s s'" for s s' by (simp add: pump_step_def)
  show "pump_own s s' \<Longrightarrow> pump_inv client pod s \<Longrightarrow> pump_left s' < pump_left s" for s s'
    by (erule pump_ownE) (auto simp: pump_left_def half_left_def)
qed

text \<open>The state in which the program can only wait: for the pod, and for the client if it has not ended.\<close>

definition stalled :: "string \<Rightarrow> nat \<Rightarrow> bool \<Rightarrow> bool" where
  "stalled rest flow eof \<longleftrightarrow> (if rest = [] then \<not> eof else flow = 0)"

definition pump_waits :: "pump \<Rightarrow> bool" where
  "pump_waits s \<longleftrightarrow> p_ctx s = None \<and> p_out s = Copying \<and> stalled (p_pod s) (p_pod_flow s) (p_pod_closed s)
     \<and> (p_in s = Received \<or> p_in s = Copying \<and> stalled (p_client s) (p_client_flow s) (p_client_closed s))"

lemma not_stalled: "\<not> stalled rest flow eof \<longleftrightarrow> rest = [] \<and> eof \<or> (\<exists>c cs n. rest = c # cs \<and> flow = Suc n)"
  by (cases rest; cases flow) (auto simp: stalled_def)

lemma pump_progress:
  assumes inv: "pump_inv client pod s" and r: "p_result s = None"
  shows "(\<exists>s'. pump_own s s') \<longleftrightarrow> \<not> pump_waits s"
proof
  show "\<exists>s'. pump_own s s' \<Longrightarrow> \<not> pump_waits s"
    using r by (auto simp: pump_waits_def stalled_def elim!: pump_ownE)
next
  assume "\<not> pump_waits s"
  then consider (ctx) e where "p_ctx s = Some e" | (out) x where "p_out s = Sent x" | (sent) x where "p_in s = Sent x"
    | (pod) "p_out s = Copying" "\<not> stalled (p_pod s) (p_pod_flow s) (p_pod_closed s)"
    | (client) "p_in s = Copying" "\<not> stalled (p_client s) (p_client_flow s) (p_client_closed s)"
    using inv r by (cases "p_ctx s"; cases "p_out s"; cases "p_in s") (auto simp: pump_waits_def pump_inv_def)
  then show "\<exists>s'. pump_own s s'"
  proof cases
    case ctx then show ?thesis using SelectCtx [OF r] by blast
  next
    case out then show ?thesis using SelectOut [OF r] by blast
  next
    case sent then show ?thesis using SelectIn [OF r] SelectInErr [OF r] by (cases x) blast+
  next
    case pod then show ?thesis using EndOut [OF pod(1)] CopyOut [OF pod(1)] unfolding not_stalled by blast
  next
    case client then show ?thesis using EndIn [OF client(1)] CopyIn [OF client(1)] unfolding not_stalled by blast
  qed
qed

text \<open>
  Nothing more has to happen outside for the handler to return: the context is done, copying has ended,
  or the pod has closed and the client takes the rest.
\<close>

definition pump_released :: "pump \<Rightarrow> bool" where
  "pump_released s \<longleftrightarrow> p_ctx s \<noteq> None \<or> p_out s \<noteq> Copying \<or> p_pod_closed s \<and> length (p_pod s) \<le> p_pod_flow s"

lemma released_own: "(pump_own ^^ n) s s' \<Longrightarrow> pump_released s \<Longrightarrow> pump_released s'"
proof (induction n arbitrary: s')
  case (Suc n)
  then obtain t where "(pump_own ^^ n) s t" "pump_own t s'" by auto
  with Suc show ?case by (fastforce simp: pump_released_def elim: pump_ownE)
qed simp

lemma released_not_waiting: "pump_released s \<Longrightarrow> \<not> pump_waits s"
  by (auto simp: pump_released_def pump_waits_def stalled_def split: if_splits)

section \<open>The handler\<close>

text \<open>
  From the path of the namespace on: connect, copy until \<open>copy\<close>, what \<open>copyPortForward\<close> returns for
  the connection, and close the connection. The connection to Porto is closed before.
\<close>

definition forward :: "kernel \<Rightarrow> int \<Rightarrow> (conn \<Rightarrow> goerr option) \<Rightarrow> string \<Rightarrow> unit res on_thread" where
  "forward K port copy nsPath = do {
     r \<leftarrow> dialInNetNS K nsPath port;
     case r of
       Inl e \<Rightarrow> ret (Err (WrapW ''PortForward'' e))
     | Inr c \<Rightarrow> do {
         x \<leftarrow> CloseConn c;
         ret (case copy c of None \<Rightarrow> Ok () | Some e \<Rightarrow> Err e)
       }
   }"

definition streaming_PortForward :: "env \<Rightarrow> kernel \<Rightarrow> string \<Rightarrow> int \<Rightarrow> (conn \<Rightarrow> goerr option)
    \<Rightarrow> os_thread \<Rightarrow> (unit res \<times> os_thread) res prog" where
  "streaming_PortForward E K podSandboxID port copy t =
     step_or (FmtV ''PortForward'') (portoClientContext E) (\<lambda>u. do {
       portoid \<leftarrow> addPortoPrefix E podSandboxID;
       nsPath \<leftarrow> podNetNSPath E portoid;
       x \<leftarrow> HangUp;
       step_or (WrapW ''PortForward'') (ret nsPath) (\<lambda>path. ret (Ok (run_state (forward K port copy path) t)))
     })"

lemma forward_leaves:
  assumes "fresh_fds K" "\<not> th_locked t" "run_state (forward K port copy nsPath) t = (r, t')"
  shows "th_fds t' = th_fds t \<and> th_conns t' = th_conns t \<and> (\<not> th_locked t' \<longrightarrow> th_ns t' = th_ns t)"
proof -
  obtain d t1 where d: "run_state (dialInNetNS K nsPath port) t = (d, t1)" by force
  have "connected t (if nsPath = [] then th_ns t else path_ns K t nsPath) d t1 \<and> (\<not> th_locked t1 \<longrightarrow> th_ns t1 = th_ns t)"
    using dialled [OF assms(1,2) d] by blast
  with d assms(3) show ?thesis
    by (cases d) (auto simp: forward_def CloseConn_def connected_def)
qed

definition no_hangup :: "history \<Rightarrow> bool" where
  "no_hangup es \<longleftrightarrow> EvHangUp \<notin> set es"

text \<open>The calls to Porto: a connection, if there is one, is closed by the last of them.\<close>

definition hangs_up :: "history \<Rightarrow> bool" where
  "hangs_up es \<longleftrightarrow> (\<exists>r b. es = EvDial r # b \<and> (case r of Inl e \<Rightarrow> b = [] | Inr u \<Rightarrow> \<exists>c. b = c @ [EvHangUp] \<and> no_hangup c))"

lemma no_hangup_simps [simp]:
  "no_hangup []" "no_hangup (ev # es) \<longleftrightarrow> ev \<noteq> EvHangUp \<and> no_hangup es" "no_hangup (es @ fs) \<longleftrightarrow> no_hangup es \<and> no_hangup fs"
  by (auto simp: no_hangup_def)

lemma no_hangup_first_task: "emits (first_task E names) (\<lambda>r es. no_hangup es)"
  by (induction names) (auto simp: GetProperty_def intro!: emit_rules elim: emits_mono split: sum.split prod.split)

lemma no_hangup_podNetNSPath: "emits (podNetNSPath E i) (\<lambda>r es. no_hangup es)"
  unfolding podNetNSPath_def GetProperty_def ListContainers_def Let_def
  by (auto simp del: first_task.simps intro!: emit_rules emits_bind [OF no_hangup_first_task] split: option.split)

lemma hangs_up_forward: "emits (streaming_PortForward E K i port copy t) (\<lambda>v es. hangs_up es)"
proof -
  have tail: "emits (do { p \<leftarrow> addPortoPrefix E i; nsPath \<leftarrow> podNetNSPath E p; x \<leftarrow> HangUp;
      step_or (WrapW ''PortForward'') (ret nsPath) (\<lambda>path. ret (Ok (run_state (forward K port copy path) t))) })
    (\<lambda>v es. \<exists>c. es = c @ [EvHangUp] \<and> no_hangup c)"
  proof (rule emits_bind [OF emits_addPortoPrefix], rule emits_bind [OF no_hangup_podNetNSPath])
    fix p es v fs
    assume "es = [] \<or> (\<exists>r. es = [EvGetProperty (ParentContainer (Cfg E)) ''absolute_name'' r])" "no_hangup fs"
    then show "emits (do { x \<leftarrow> HangUp; step_or (WrapW ''PortForward'') (ret v) (\<lambda>path. ret (Ok (run_state (forward K port copy path) t))) })
      (\<lambda>u gs. \<exists>c. es @ fs @ gs = c @ [EvHangUp] \<and> no_hangup c)"
      unfolding HangUp_def
    proof (intro emits_bind_ask)
      assume "es = [] \<or> (\<exists>r. es = [EvGetProperty (ParentContainer (Cfg E)) ''absolute_name'' r])" "no_hangup fs"
      then have "\<exists>c. es @ fs @ [EvHangUp] = c @ [EvHangUp] \<and> no_hangup c"
        by (intro exI [of _ "es @ fs"]) auto
      then show "emits (step_or (WrapW ''PortForward'') (ret v) (\<lambda>path. ret (Ok (run_state (forward K port copy path) t))))
          (\<lambda>u gs. \<exists>c. es @ fs @ EvHangUp # gs = c @ [EvHangUp] \<and> no_hangup c)"
        by (cases v) (simp_all add: emits_def run_step_or)
    qed
  qed
  show ?thesis
    unfolding streaming_PortForward_def
  proof (rule emits_step_or [OF dialled_porto], unfold res.case)
    fix v :: unit and es
    assume es: "es = [EvDial (Inr ())]"
    show "emits (do { p \<leftarrow> addPortoPrefix E i; nsPath \<leftarrow> podNetNSPath E p; x \<leftarrow> HangUp;
        step_or (WrapW ''PortForward'') (ret nsPath) (\<lambda>path. ret (Ok (run_state (forward K port copy path) t))) })
      (\<lambda>u fs. hangs_up (es @ fs))"
      by (rule emits_mono [OF tail]) (simp add: hangs_up_def es)
  qed (auto simp: hangs_up_def)
qed

section \<open>Properties\<close>

text \<open>
  C8. Connecting into the network namespace of a pod leaves nothing behind: every descriptor opened
  is closed; a connection, when there is one, is the only new one and lives in the namespace asked
  for, and without one none stays open; and the thread goes back to the Go runtime, unlocked, only
  in the namespace it started in, so that no other goroutine runs in the namespace of the pod.
\<close>


theorem dial_in_namespace:
  assumes "fresh_fds K" "\<not> th_locked t" "run_state (dialInNetNS K nsPath port) t = (r, t')"
  shows "connected t (if nsPath = [] then th_ns t else path_ns K t nsPath) r t'
    \<and> (\<not> th_locked t' \<longrightarrow> th_ns t' = th_ns t) \<and> (th_locked t' \<longrightarrow> isl r)"
  by (rule dialled [OF assms])

theorem dial_in_namespace_witness:
  "(\<exists>c t'. run_state (dialInNetNS (small_kernel True) ''/ns'' 8) host_thread = (Inr c, t')
      \<and> cn_ns c = ''pod'' \<and> th_ns t' = ''host'' \<and> th_fds t' = [] \<and> th_conns t' = [c])
   \<and> (\<exists>e t'. run_state (dialInNetNS (small_kernel False) ''/ns'' 8) host_thread = (Inl e, t')
      \<and> th_locked t' \<and> th_fds t' = [] \<and> th_conns t' = [])"
proof -
  obtain c t1 where r1: "run_state (dialInNetNS (small_kernel True) ''/ns'' 8) host_thread = (Inr c, t1)" "\<not> th_locked t1"
    using small_kernel_runs(1) by blast
  obtain e t2 where r2: "run_state (dialInNetNS (small_kernel False) ''/ns'' 8) host_thread = (Inl e, t2)" "th_locked t2"
    using small_kernel_runs(2) by blast
  have u: "\<not> th_locked host_thread" by (simp add: host_thread_def)
  have "path_ns (small_kernel b) host_thread ''/ns'' = ''pod''" for b
    by (simp add: path_ns_def self_netns_def small_kernel_def)
  with dial_in_namespace [OF fresh_small_kernel u r1(1)] dial_in_namespace [OF fresh_small_kernel u r2(1)] r1 r2
  show ?thesis by (simp add: connected_def host_thread_def)
qed

text \<open>
  Forwarding holds no connection to Porto while it runs: on every path the connection made for
  the request is closed exactly once, by the last call, before the port is dialled.
\<close>

theorem forward_releases_porto:
  "\<exists>es. w_trace (snd (run_state (streaming_PortForward E K i port copy t) w)) = w_trace w @ es \<and> hangs_up es"
  using hangs_up_forward unfolding emits_def by blast

text \<open>
  C6. The answer of the pod is not cut off: in every reachable state what arrived on each side is a
  beginning of what the other side sent, and a return without an error means that the client has
  got everything the pod had to say, however early the client stopped sending; its end is passed on
  to the pod by closing the writing half exactly when the copying from the client is over.
\<close>

theorem forward_not_cut_off:
  assumes "pump_run client pod s"
  shows "p_to_pod s @ p_client s = client \<and> p_to_client s @ p_pod s = pod
    \<and> (p_result s = Some None \<longrightarrow> p_to_client s = pod) \<and> (p_half_closed s \<longleftrightarrow> p_in s \<noteq> Copying)"
  using pm.holds [OF assms] by (auto simp: pump_inv_def)

text \<open>The client says nothing more, the pod answers with one byte and closes, and the handler returns.\<close>

lemma one_byte_run:
  "\<exists>s. pump_run [] ''x'' s \<and> p_result s = Some None"
proof -
  let ?s = "pump_start [] ''x''"
  let ?s1 = "?s\<lparr>p_client_closed := True\<rparr>"
  let ?s2 = "?s1\<lparr>p_in := Sent None, p_half_closed := True\<rparr>"
  let ?s3 = "?s2\<lparr>p_in := Received\<rparr>"
  let ?s4 = "?s3\<lparr>p_pod_flow := p_pod_flow ?s3 + 1\<rparr>"
  let ?s5 = "?s4\<lparr>p_pod := [], p_pod_flow := 0, p_to_client := p_to_client ?s4 @ ''x''\<rparr>"
  let ?s6 = "?s5\<lparr>p_pod_closed := True\<rparr>"
  let ?s7 = "?s6\<lparr>p_out := Sent None\<rparr>"
  let ?s8 = "?s7\<lparr>p_out := Received, p_result := Some None\<rparr>"
  have "pump_step ?s ?s1" by (rule env_step, rule CloseIn)
  moreover have "pump_step ?s1 ?s2" by (rule program_step, rule EndIn) (simp_all add: pump_start_def)
  moreover have "pump_step ?s2 ?s3" by (rule program_step, rule SelectIn) (simp_all add: pump_start_def)
  moreover have "pump_step ?s3 ?s4" by (rule env_step, rule LetOut)
  moreover have "pump_step ?s4 ?s5" by (rule program_step, rule CopyOut) (simp_all add: pump_start_def)
  moreover have "pump_step ?s5 ?s6" by (rule env_step, rule CloseOut)
  moreover have "pump_step ?s6 ?s7" by (rule program_step, rule EndOut) (simp_all add: pump_start_def)
  moreover have "pump_step ?s7 ?s8" by (rule program_step, rule SelectOut) (simp_all add: pump_start_def)
  ultimately have "pump_run [] ''x'' ?s8"
    by (meson rtranclp.rtrancl_refl rtranclp.rtrancl_into_rtrancl)
  moreover have "p_result ?s8 = Some None" by simp
  ultimately show ?thesis by blast
qed

theorem forward_not_cut_off_witness: "\<exists>s. pump_run [] ''x'' s \<and> p_result s = Some None \<and> p_to_client s = ''x''"
  using one_byte_run forward_not_cut_off by blast

text \<open>
  C7. Forwarding waits for nothing but its two sides: in every reachable state the goroutines and the
  handler can take a bounded number of steps by themselves; until the handler has returned they are
  out of steps exactly when the context is not done, the copy from the pod is blocked, and the
  client has ended or the copy from it is blocked as well; and once the context is done, copying
  from the pod has ended, or the pod has closed and the client takes what is left, every run of
  theirs ends with the return of the handler, without anything more from outside.
\<close>

theorem forward_terminates:
  assumes "pump_run client pod s"
  shows "(p_result s = None \<longrightarrow> ((\<exists>s'. pump_own s s') \<longleftrightarrow> \<not> pump_waits s))
    \<and> (\<forall>n s'. (pump_own ^^ n) s s' \<longrightarrow> n \<le> length (p_client s) + length (p_pod s) + 5
         \<and> (pump_released s \<and> (\<nexists>t. pump_own s' t) \<longrightarrow> p_result s' \<noteq> None))"
proof (intro conjI impI allI)
  note inv = pm.holds [OF assms]
  show "p_result s = None \<Longrightarrow> (\<exists>s'. pump_own s s') \<longleftrightarrow> \<not> pump_waits s" by (rule pump_progress [OF inv])
  fix n s' assume run: "(pump_own ^^ n) s s'"
  note own = pm.own_run [OF run inv]
  have "pump_left s \<le> length (p_client s) + length (p_pod s) + 5"
    by (simp add: pump_left_def half_left_def split: half.splits)
  with own show "n \<le> length (p_client s) + length (p_pod s) + 5" by simp
  show "p_result s' \<noteq> None" if "pump_released s \<and> (\<nexists>t. pump_own s' t)"
    using that released_not_waiting [OF released_own [OF run]] pump_progress own by blast
qed

theorem forward_terminates_witness:
  "(\<nexists>s'. pump_own (pump_start [] ''x'') s') \<and> pump_waits (pump_start [] ''x'')
   \<and> (\<exists>s'. pump_own ((pump_start [] ''x'')\<lparr>p_ctx := Some (OsError ''canceled'')\<rparr>) s')"
proof -
  let ?s = "(pump_start [] ''x'')\<lparr>p_ctx := Some (OsError ''canceled'')\<rparr>"
  have "pump_step (pump_start [] ''x'') ?s" unfolding pump_step_def by (rule disjI2, rule Cancel) (simp add: pump_start_def)
  then have "pump_run [] ''x'' ?s" by blast
  from forward_terminates [OF this] forward_terminates [of "[]" "''x''" "pump_start [] ''x''"]
  show ?thesis by (auto simp: pump_start_def pump_waits_def stalled_def)
qed

text \<open>
  The whole forwarding leaves the process as it was: no descriptor and no connection stays open
  after a success, an error of connecting or one of copying, and a thread that could not go back
  to its namespace is never given back.
\<close>

theorem forward_leaves_nothing:
  assumes "fresh_fds K" "\<not> th_locked t"
    "fst (run_state (streaming_PortForward E K i port copy t) w) = Ok (r, t')"
  shows "th_fds t' = th_fds t \<and> th_conns t' = th_conns t \<and> (\<not> th_locked t' \<longrightarrow> th_ns t' = th_ns t)"
proof -
  obtain path where "run_state (forward K port copy path) t = (r, t')"
    using assms(3) by (auto simp: streaming_PortForward_def run_step_or split: prod.splits res.splits)
  from forward_leaves [OF assms(1,2) this] show ?thesis .
qed

text \<open>A pod with a namespace of its own, and a kernel that does not let the thread back.\<close>

definition netns_env :: env where
  "netns_env = base_env\<lparr>porto := base_porto\<lparr>o_GetProperty := (\<lambda>h i n. Inr ''netns cni-1'')\<rparr>\<rparr>"

lemma netns_env_run:
  "\<exists>r t'. fst (run_state (streaming_PortForward netns_env (small_kernel False) ''pod-1'' 8 (\<lambda>c. None) host_thread) base_world) = Ok (r, t')"
proof -
  have "Fields (Join '' '' [''netns'', ''cni-1'']) = [''netns'', ''cni-1'']"
    by (rule Fields_words) (simp add: plain_word_def plain_char_def)
  then have "parsePropertiesNetNS ''netns cni-1'' [''netns''] = ''cni-1''"
    by (simp add: parsePropertiesNetNS_def)
  then show ?thesis
    by (cases "run_state (forward (small_kernel False) 8 (\<lambda>c. None) (path_Join [NetnsDir (Cfg netns_env), ''cni-1''])) host_thread")
      (simp add: streaming_PortForward_def portoClientContext_def podNetNSPath_def addPortoPrefix_def getParentCnt_def
        netns_env_def base_defs run_simps Let_def)
qed

theorem forward_leaves_nothing_witness:
  "\<exists>r t'. fst (run_state (streaming_PortForward netns_env (small_kernel False) ''pod-1'' 8 (\<lambda>c. None) host_thread) base_world) = Ok (r, t')
     \<and> th_fds t' = [] \<and> th_conns t' = []"
proof -
  obtain r t' where r: "fst (run_state (streaming_PortForward netns_env (small_kernel False) ''pod-1'' 8 (\<lambda>c. None) host_thread)
      base_world) = Ok (r, t')" using netns_env_run by blast
  have "\<not> th_locked host_thread" by (simp add: host_thread_def)
  from forward_leaves_nothing [OF fresh_small_kernel this r] r show ?thesis by (simp add: host_thread_def)
qed

end
