(* ===== verification/Interceptor.thy ===== *)
theory Interceptor
  imports Service
begin

text \<open>
  The interceptor of the requests with its context and its log (server.go, the log functions of
  logger.go): what the dynamic values of the context are, which lines are written for a request, and
  that the model of Service, which has neither, is what remains without them.
\<close>

section \<open>Contexts\<close>

text \<open>
  A context is a chain of values, the latest first. The getters assert the type of a value and
  panic when it is another or none.
\<close>

datatype ctx_value = RequestId string | PortoClient

type_synonym go_context = "(string \<times> ctx_value) list"

definition WithValue :: "go_context \<Rightarrow> string \<Rightarrow> ctx_value \<Rightarrow> go_context" where
  "WithValue ctx k v = (k, v) # ctx"

definition getPortoClient :: "go_context \<Rightarrow> unit res" where
  "getPortoClient ctx = (case map_of ctx ''portoClient'' of Some PortoClient \<Rightarrow> Ok () | _ \<Rightarrow> Panic ''interface conversion'')"

definition getRequestID :: "go_context \<Rightarrow> string res" where
  "getRequestID ctx = (case map_of ctx ''requestId'' of Some (RequestId i) \<Rightarrow> Ok i | _ \<Rightarrow> Panic ''interface conversion'')"

definition hex08 :: "nat \<Rightarrow> string" where
  "hex08 n = (let s = hex n in replicate (8 - length s) (CHR ''0'') @ s)"

text \<open>The context \<open>portoClientContext\<close> returns once it is connected; \<open>r\<close> is the random number.\<close>

definition connected_context :: "nat \<Rightarrow> go_context \<Rightarrow> go_context" where
  "connected_context r ctx = WithValue (WithValue ctx ''requestId'' (RequestId (hex08 r))) ''portoClient'' PortoClient"

definition well_typed :: "go_context \<Rightarrow> bool" where
  "well_typed ctx \<longleftrightarrow> getPortoClient ctx = Ok () \<and> (\<exists>i. getRequestID ctx = Ok i \<and> length i = 8 \<and> CHR ''%'' \<notin> set i)"

section \<open>Log lines\<close>

datatype level = Debug | Info | Warn

datatype (plugins only: code size) log_arg = ArgText string | ArgRequest request | ArgResponse "response option" | ArgError goerr | ArgInt int
  | ArgRegistry RegistryInfo

record log_line =
  ll_level :: level
  ll_template :: string
  ll_args :: "log_arg list"

text \<open>The request id is put before the template, not among the arguments.\<close>

definition log_message :: "level \<Rightarrow> go_context \<Rightarrow> string \<Rightarrow> log_arg list \<Rightarrow> log_line res" where
  "log_message lvl ctx template args =
     bind_res (getRequestID ctx) (\<lambda>i. Ok \<lparr>ll_level = lvl, ll_template = (''['' @ i @ ''] '') @ template, ll_args = args\<rparr>)"

definition DebugLog :: "go_context \<Rightarrow> string \<Rightarrow> log_arg list \<Rightarrow> log_line res" where
  "DebugLog = log_message Debug"

definition InfoLog :: "go_context \<Rightarrow> string \<Rightarrow> log_arg list \<Rightarrow> log_line res" where
  "InfoLog = log_message Info"

definition WarnLog :: "go_context \<Rightarrow> string \<Rightarrow> log_arg list \<Rightarrow> log_line res" where
  "WarnLog = log_message Warn"

section \<open>The interceptor\<close>

datatype protocol = V1 | V1alpha2

record message =
  m_protocol :: protocol
  m_request :: request
  m_username :: string

text \<open>
  The methods are named as in cri_api.go; the full name of gRPC has the package of the protocol and
  the service before it.
\<close>

fun image_method :: "image_request \<Rightarrow> string" where
  "image_method ReqListImages = ''ListImages''"
| "image_method (ReqImageStatus i) = ''ImageStatus''"
| "image_method (ReqPullImage i p) = ''PullImage''"
| "image_method (ReqRemoveImage i) = ''RemoveImage''"
| "image_method ReqImageFsInfo = ''ImageFsInfo''"

fun service_method :: "request \<Rightarrow> string" where
  "service_method (ReqVersion v) = ''RuntimeService/Version''"
| "service_method (ReqRunPodSandbox cfg) = ''RuntimeService/RunPodSandbox''"
| "service_method (ReqStopPodSandbox i) = ''RuntimeService/StopPodSandbox''"
| "service_method (ReqRemovePodSandbox i) = ''RuntimeService/RemovePodSandbox''"
| "service_method (ReqPodSandboxStatus i) = ''RuntimeService/PodSandboxStatus''"
| "service_method (ReqPodSandboxStats i) = ''RuntimeService/PodSandboxStats''"
| "service_method (ReqListPodSandbox f) = ''RuntimeService/ListPodSandbox''"
| "service_method (ReqCreateContainer i cfg sb) = ''RuntimeService/CreateContainer''"
| "service_method (ReqStartContainer i) = ''RuntimeService/StartContainer''"
| "service_method (ReqStopContainer i) = ''RuntimeService/StopContainer''"
| "service_method (ReqRemoveContainer i) = ''RuntimeService/RemoveContainer''"
| "service_method (ReqListContainers f) = ''RuntimeService/ListContainers''"
| "service_method (ReqContainerStatus i) = ''RuntimeService/ContainerStatus''"
| "service_method ReqUpdateContainerResources = ''RuntimeService/UpdateContainerResources''"
| "service_method ReqReopenContainerLog = ''RuntimeService/ReopenContainerLog''"
| "service_method (ReqExecSync i cmd t) = ''RuntimeService/ExecSync''"
| "service_method ReqExec = ''RuntimeService/Exec''"
| "service_method ReqAttach = ''RuntimeService/Attach''"
| "service_method (ReqPortForward i) = ''RuntimeService/PortForward''"
| "service_method (ReqContainerStats i) = ''RuntimeService/ContainerStats''"
| "service_method (ReqListContainerStats f) = ''RuntimeService/ListContainerStats''"
| "service_method (ReqListPodSandboxStats f) = ''RuntimeService/ListPodSandboxStats''"
| "service_method ReqUpdateRuntimeConfig = ''RuntimeService/UpdateRuntimeConfig''"
| "service_method ReqStatus = ''RuntimeService/Status''"
| "service_method (ReqImages req) = ''ImageService/'' @ image_method req"

fun package :: "protocol \<Rightarrow> string" where
  "package V1 = ''/runtime.v1.''"
| "package V1alpha2 = ''/runtime.v1alpha2.''"

definition FullMethod :: "message \<Rightarrow> string" where
  "FullMethod m = package (m_protocol m) @ service_method (m_request m)"

text \<open>The assertion that a request is a \<open>PullImageRequest\<close> of the protocol.\<close>

definition pull_names :: "protocol \<Rightarrow> message \<Rightarrow> (string \<times> string) res" where
  "pull_names v m = (case m_request m of
     ReqImages (ReqPullImage img password) \<Rightarrow> if m_protocol m = v then Ok (img, m_username m) else Panic ''interface conversion''
   | _ \<Rightarrow> Panic ''interface conversion'')"

definition request_log :: "go_context \<Rightarrow> message \<Rightarrow> log_line list res" where
  "request_log ctx m =
     bind_res (InfoLog ctx ''%s'' [ArgText (FullMethod m)]) (\<lambda>l1.
     if \<not> Contains (FullMethod m) ''PullImage'' then
       bind_res (DebugLog ctx ''%s'' [ArgRequest (m_request m)]) (\<lambda>l2. Ok [l1, l2])
     else
       bind_res (pull_names (if Contains (FullMethod m) ''v1alpha2'' then V1alpha2 else V1) m) (\<lambda>(img, user).
       bind_res (DebugLog ctx ''%s %s'' [ArgText img, ArgText user]) (\<lambda>l2. Ok [l1, l2])))"

text \<open>\<open>h\<close> is the answer of the handler, \<open>None\<close> beside an error, and \<open>ms\<close> the time it took.\<close>

definition response_log :: "go_context \<Rightarrow> message \<Rightarrow> response option \<Rightarrow> goerr option \<Rightarrow> int \<Rightarrow> log_line list res" where
  "response_log ctx m h err ms =
     bind_res (DebugLog ctx ''%+v'' [ArgResponse h]) (\<lambda>l1.
     bind_res (case err of None \<Rightarrow> Ok [] | Some e \<Rightarrow> bind_res (WarnLog ctx ''%v'' [ArgError e]) (\<lambda>l. Ok [l])) (\<lambda>l2.
     bind_res (InfoLog ctx ''%s time: %d ms'' [ArgText (FullMethod m), ArgInt ms]) (\<lambda>l3. Ok (l1 # l2 @ [l3]))))"

text \<open>The answer with the lines written for it; a panic goes through after the lines before it.\<close>

definition intercepted :: "env \<Rightarrow> nat \<Rightarrow> int \<Rightarrow> go_context \<Rightarrow> message \<Rightarrow> (go_context \<Rightarrow> response res prog) \<Rightarrow> (response res \<times> log_line list) prog" where
  "intercepted E r ms ctx m handler = do {
     c \<leftarrow> portoClientContext E;
     case c of
       Err e \<Rightarrow> ret (Err (FmtV ''serverInterceptor'' e), [])
     | Panic s \<Rightarrow> ret (Panic s, [])
     | Ok u \<Rightarrow>
         let ctx = connected_context r ctx in
         (case request_log ctx m of
            Err e \<Rightarrow> ret (Err e, [])
          | Panic s \<Rightarrow> ret (Panic s, [])
          | Ok lines \<Rightarrow> do {
              h \<leftarrow> handler ctx;
              ret (case h of
                     Panic s \<Rightarrow> (Panic s, lines)
                   | Ok v \<Rightarrow> (case response_log ctx m (Some v) None ms of
                       Ok rest \<Rightarrow> (Ok v, lines @ rest) | Err e \<Rightarrow> (Err e, lines) | Panic s \<Rightarrow> (Panic s, lines))
                   | Err e \<Rightarrow> (case response_log ctx m None (Some e) ms of
                       Ok rest \<Rightarrow> (Err e, lines @ rest) | Err e \<Rightarrow> (Err e, lines) | Panic s \<Rightarrow> (Panic s, lines)))
            })
   }"

section \<open>What the lines are\<close>

lemma length_hex08: "n < 2 ^ 32 \<Longrightarrow> length (hex08 n) = 8"
  using length_hex [of n 7] by (simp add: hex08_def Let_def)

lemma hex_char_no_percent: "d < 16 \<Longrightarrow> hex_char d \<noteq> CHR ''%''"
proof -
  assume "d < 16"
  then have "d \<in> set [0..<16]" by simp
  moreover have "list_all (\<lambda>d. hex_char d \<noteq> CHR ''%'') [0..<16]" by code_simp
  ultimately show ?thesis by (simp add: list_all_iff)
qed

lemma hex_no_percent: "CHR ''%'' \<notin> set (hex n)"
proof (induction n rule: hex.induct)
  case (1 n)
  then show ?case
    by (subst hex.simps) (use hex_char_no_percent [of n] hex_char_no_percent [of "n mod 16"] in \<open>auto dest: sym\<close>)
qed

lemma connected_getters [simp]:
  "getRequestID (connected_context r ctx) = Ok (hex08 r)" "getPortoClient (connected_context r ctx) = Ok ()"
  by (simp_all add: getRequestID_def getPortoClient_def connected_context_def WithValue_def)

lemma connected_typed: "r < 2 ^ 32 \<Longrightarrow> well_typed (connected_context r ctx)"
  using hex_no_percent [of r] by (auto simp: well_typed_def length_hex08) (auto simp: hex08_def Let_def)

text \<open>The names of the methods say which requests pull an image, and the package says the version.\<close>

lemma names_pull:
  "Contains (FullMethod m) ''PullImage'' \<longleftrightarrow> (\<exists>img password. m_request m = ReqImages (ReqPullImage img password))"
  unfolding FullMethod_def
  by (cases "m_protocol m"; cases "m_request m" rule: service_method.cases; simp)
     (rename_tac req, case_tac req; simp)+

lemma names_version: "Contains (FullMethod m) ''v1alpha2'' \<longleftrightarrow> m_protocol m = V1alpha2"
  unfolding FullMethod_def
  by (cases "m_protocol m"; cases "m_request m" rule: service_method.cases; simp)
     (rename_tac req, case_tac req; simp)+

lemma log_message_connected [simp]:
  "log_message lvl (connected_context r ctx) template args =
     Ok \<lparr>ll_level = lvl, ll_template = (''['' @ hex08 r @ ''] '') @ template, ll_args = args\<rparr>"
  by (simp add: log_message_def)

lemmas log_functions = DebugLog_def InfoLog_def WarnLog_def

text \<open>The lines before the handler are two, and of a request to pull they hold two names.\<close>

lemma request_log_pull:
  "m_request m = ReqImages (ReqPullImage img password) \<Longrightarrow>
   request_log (connected_context r ctx) m =
     Ok [\<lparr>ll_level = Info, ll_template = (''['' @ hex08 r @ ''] '') @ ''%s'', ll_args = [ArgText (FullMethod m)]\<rparr>,
         \<lparr>ll_level = Debug, ll_template = (''['' @ hex08 r @ ''] '') @ ''%s %s'', ll_args = [ArgText img, ArgText (m_username m)]\<rparr>]"
  by (cases "m_protocol m") (simp_all add: request_log_def log_functions names_pull names_version pull_names_def)

lemma request_log_other:
  "(\<And>img password. m_request m \<noteq> ReqImages (ReqPullImage img password)) \<Longrightarrow>
   request_log (connected_context r ctx) m =
     Ok [\<lparr>ll_level = Info, ll_template = (''['' @ hex08 r @ ''] '') @ ''%s'', ll_args = [ArgText (FullMethod m)]\<rparr>,
         \<lparr>ll_level = Debug, ll_template = (''['' @ hex08 r @ ''] '') @ ''%s'', ll_args = [ArgRequest (m_request m)]\<rparr>]"
  by (simp add: request_log_def log_functions names_pull)

definition of_request :: "nat \<Rightarrow> log_line \<Rightarrow> bool" where
  "of_request r l \<longleftrightarrow> prefix (''['' @ hex08 r @ ''] '') (ll_template l)"

lemma of_request_made [simp]:
  "of_request r \<lparr>ll_level = lvl, ll_template = (''['' @ hex08 r @ ''] '') @ t, ll_args = args\<rparr>"
  "of_request r \<lparr>ll_level = lvl, ll_template = CHR ''['' # hex08 r @ CHR '']'' # CHR '' '' # t, ll_args = args\<rparr>"
  unfolding of_request_def by simp_all

lemma request_log_ok: "\<exists>lines. request_log (connected_context r ctx) m = Ok lines \<and> (\<forall>l \<in> set lines. of_request r l)"
proof (cases "\<exists>img password. m_request m = ReqImages (ReqPullImage img password)")
  case True
  then show ?thesis by (auto simp: request_log_pull)
next
  case False
  then show ?thesis by (auto simp: request_log_other)
qed

lemma response_log_ok:
  "\<exists>lines. response_log (connected_context r ctx) m h err ms = Ok lines \<and> (\<forall>l \<in> set lines. of_request r l)"
  by (cases err) (auto simp: response_log_def log_functions)

text \<open>Without its lines, an intercepted request is one the model of the service answers.\<close>

lemma intercepted_erased:
  assumes "run_state (intercepted E r ms ctx m handler) w = ((v, lines), w')"
  shows "run_state (serverInterceptor E (handler (connected_context r ctx))) w = (v, w') \<and> (\<forall>l \<in> set lines. of_request r l)"
proof -
  let ?c = "connected_context r ctx"
  obtain before where b: "request_log ?c m = Ok before" "\<forall>l \<in> set before. of_request r l"
    using request_log_ok by blast
  show ?thesis
  proof (cases "run_state (portoClientContext E) w")
    case (Pair d w1)
    show ?thesis
    proof (cases d)
      case (Ok u)
      obtain h w2 where h: "run_state (handler ?c) w1 = (h, w2)" by fastforce
      obtain l1 where l1: "response_log ?c m (case h of Ok v \<Rightarrow> Some v | _ \<Rightarrow> None) (case h of Err e \<Rightarrow> Some e | _ \<Rightarrow> None) ms = Ok l1"
        "\<forall>l \<in> set l1. of_request r l" using response_log_ok by blast
      show ?thesis using assms b h l1 Pair Ok
        by (cases h) (auto simp: intercepted_def serverInterceptor_def run_simps Let_def)
    qed (use assms Pair in \<open>auto simp: intercepted_def serverInterceptor_def run_simps\<close>)
  qed
qed

section \<open>Properties\<close>

text \<open>
  C12. The interceptor never panics of its own: the context it gives to the handler holds a request
  id of eight characters, none of them one that formats, and the client of Porto, for every random
  number; its assertions on the type of a request hold for every method of either version. What it
  answers and does is what the handler answers and does with that context, behind the connection, so
  the model of the service without a log is this one with the lines left out; and every line written
  begins with the id of the request.
\<close>

theorem interceptor_transparent:
  assumes "r < 2 ^ 32" "run_state (intercepted E r ms ctx m handler) w = ((v, lines), w')"
  shows "well_typed (connected_context r ctx)
    \<and> run_state (serverInterceptor E (handler (connected_context r ctx))) w = (v, w')
    \<and> (\<forall>l \<in> set lines. of_request r l)"
  using connected_typed [OF assms(1)] intercepted_erased [OF assms(2)] by blast

theorem interceptor_transparent_witness:
  "well_typed (connected_context 239 []) \<and> getRequestID (connected_context 239 []) = Ok ''000000ef''"
proof -
  let ?m = "\<lparr>m_protocol = V1, m_request = ReqImages ReqListImages, m_username = ''me''\<rparr>"
  obtain q w' where q: "run_state (intercepted base_env 239 0 [] ?m (\<lambda>c. ret (Ok RespDone))) fresh_world = (q, w')"
    by (rule prod.exhaust)
  obtain v lines where "q = (v, lines)" by (rule prod.exhaust)
  with q have *: "run_state (intercepted base_env 239 0 [] ?m (\<lambda>c. ret (Ok RespDone))) fresh_world = ((v, lines), w')"
    by (simp only:)
  have "239 < (2 :: nat) ^ 32" by simp
  from interceptor_transparent [OF this *] have "well_typed (connected_context 239 [])" by (rule conjunct1)
  moreover have "hex08 239 = ''000000ef''" by code_simp
  ultimately show ?thesis by simp
qed

text \<open>
  C23. The password of a request to pull an image does not get into the log through the interceptor: of
  two requests for the same image, by the same user and in the same version of the protocol, that
  are answered alike, every line is the same, whatever the passwords are, whatever the handlers do
  with them, and also where they end in an error or a panic. What Porto and the handler put into
  their answer or error is logged as it is.
\<close>

theorem password_not_logged:
  assumes "m_request m = ReqImages (ReqPullImage img p)"
    and run: "run_state (intercepted E r ms ctx m handler) w = ((v, lines), w1)"
    and run': "run_state (intercepted E r ms ctx (m\<lparr>m_request := ReqImages (ReqPullImage img p')\<rparr>) handler') w = ((v, lines'), w2)"
  shows "lines = lines'"
proof -
  let ?c = "connected_context r ctx" and ?m' = "m\<lparr>m_request := ReqImages (ReqPullImage img p')\<rparr>"
  have name: "FullMethod ?m' = FullMethod m" and user: "m_username ?m' = m_username m"
    and request: "m_request ?m' = ReqImages (ReqPullImage img p')"
    using assms(1) by (simp_all add: FullMethod_def)
  have q: "request_log ?c ?m' = request_log ?c m"
    by (simp only: request_log_pull [OF assms(1)] request_log_pull [OF request] name user)
  have a: "response_log ?c ?m' = response_log ?c m" by (simp add: fun_eq_iff response_log_def name)
  obtain before where b: "request_log ?c m = Ok before" using request_log_ok by blast
  obtain d w0 where d: "run_state (portoClientContext E) w = (d, w0)" by force
  obtain h u1 where h: "run_state (handler ?c) w0 = (h, u1)" by force
  obtain h' u2 where h': "run_state (handler' ?c) w0 = (h', u2)" by force
  define f where "f x e = (case response_log ?c m x e ms of Ok l \<Rightarrow> l | _ \<Rightarrow> [])" for x e
  have f: "response_log ?c m x e ms = Ok (f x e)" for x e
    using response_log_ok [of r ctx m x e ms] by (auto simp: f_def)
  show ?thesis
    using run run' d h h' by (cases d; cases h; cases h') (auto simp: intercepted_def run_simps Let_def q a b f)
qed

text \<open>
  The handler of the program, given two passwords: it sends them to Porto, so that the histories
  differ, and answers the same.
\<close>

theorem password_not_logged_witness:
  "\<exists>m m' a lines lines' w1 w2. m_request m = ReqImages (ReqPullImage ''img'' ''secret'') \<and> m_request m' = ReqImages (ReqPullImage ''img'' ''other'')
     \<and> run_state (intercepted base_env 1 0 [] m (\<lambda>c. v1_call demo_deps (m_request m))) fresh_world = ((Ok a, lines), w1)
     \<and> run_state (intercepted base_env 1 0 [] m' (\<lambda>c. v1_call demo_deps (m_request m'))) fresh_world = ((Ok a, lines'), w2)
     \<and> w_trace w1 \<noteq> w_trace w2 \<and> lines = lines'"
proof -
  let ?m = "\<lparr>m_protocol = V1, m_request = ReqImages (ReqPullImage ''img'' ''secret''), m_username = ''me''\<rparr>"
  let ?m' = "?m\<lparr>m_request := ReqImages (ReqPullImage ''img'' ''other'')\<rparr>"
  let ?c = "fresh_world\<lparr>w_trace := [EvDial (Inr ())]\<rparr>"
  have d: "run_state (portoClientContext base_env) fresh_world = (Ok (), ?c)"
    by (simp add: portoClientContext_def run_simps base_defs fresh_world_def)
  have reg: "GetImageRegistry default_registries ''img'' = \<lparr>Host = defaultDockerRegistry, AuthToken = [], AuthPath = [], AuthService = []\<rparr>"
    by (simp add: GetImageRegistry_def registry_host_def default_registries_def defaultDockerRegistry_def)
  have h: "run_state (v1_call demo_deps (ReqImages (ReqPullImage ''img'' p))) ?c = (Ok (RespText ''sha256:1''),
      ?c\<lparr>w_trace := [EvDial (Inr ()), EvPullDockerImage ''img'' (Place base_config) p [] [] (Inr base_image)]\<rparr>)" if "p \<noteq> []" for p
    using that reg by (simp add: answer_def PullImage_def run_simps demo_deps_def fresh_world_def base_defs Let_def)
  have i: "\<exists>lines w1. run_state (intercepted base_env 1 0 [] m (\<lambda>c. v1_call demo_deps (m_request m))) fresh_world = ((Ok (RespText ''sha256:1''), lines), w1)
      \<and> w_trace w1 = [EvDial (Inr ()), EvPullDockerImage ''img'' (Place base_config) p [] [] (Inr base_image)]"
    if "m_request m = ReqImages (ReqPullImage ''img'' p)" "p \<noteq> []" for m p
  proof -
    obtain before where b: "request_log (connected_context 1 []) m = Ok before" using request_log_ok by blast
    obtain after where a: "response_log (connected_context 1 []) m (Some (RespText ''sha256:1'')) None 0 = Ok after"
      using response_log_ok by blast
    show ?thesis using b a d h [OF that(2)] that by (simp add: intercepted_def run_simps Let_def)
  qed
  have m: "m_request ?m = ReqImages (ReqPullImage ''img'' ''secret'')" "m_request ?m' = ReqImages (ReqPullImage ''img'' ''other'')" by simp_all
  obtain lines w1 where 1: "run_state (intercepted base_env 1 0 [] ?m (\<lambda>c. v1_call demo_deps (m_request ?m))) fresh_world = ((Ok (RespText ''sha256:1''), lines), w1)"
    "w_trace w1 = [EvDial (Inr ()), EvPullDockerImage ''img'' (Place base_config) ''secret'' [] [] (Inr base_image)]"
    using i [OF m(1)] by auto
  obtain lines' w2 where 2: "run_state (intercepted base_env 1 0 [] ?m' (\<lambda>c. v1_call demo_deps (m_request ?m'))) fresh_world = ((Ok (RespText ''sha256:1''), lines'), w2)"
    "w_trace w2 = [EvDial (Inr ()), EvPullDockerImage ''img'' (Place base_config) ''other'' [] [] (Inr base_image)]"
    using i [OF m(2)] by auto
  have "w_trace w1 \<noteq> w_trace w2" by (simp add: 1(2) 2(2))
  with password_not_logged [OF m(1) 1(1) 2(1)] 1(1) 2(1) m show ?thesis by blast
qed

end
