(* ===== verification/Server.thy ===== *)
theory Server
  imports Interceptor
begin

text \<open>
  The start of the program (main.go, config.go, server.go, logger.go, streaming.go): the
  configuration, the logger, the registries, the mappers and the socket, in the order of main, as a
  program over the calls to the file system.
\<close>

section \<open>Configuration\<close>

text \<open>
  \<open>yaml.Unmarshal\<close> of a library reads a text over the configuration so far: its answer is the
  parameter \<open>yaml\<close>. The result of \<open>InitConfig\<close> is the configuration of the program.
\<close>

type_synonym yaml_parser = "string \<Rightarrow> PortoshimConfig \<Rightarrow> goerr + PortoshimConfig"

definition defaultConfig :: string where
  "defaultConfig = CHR 0x0A # Join [CHR 0x0A]
    [''Portoshim:'',
     ''    ConfigPath: /etc/portoshim.yaml'',
     ''    Socket:     /run/portoshim.sock'',
     ''    LogsDir:    /var/log/portoshim'',
     ''    VolumesDir: /place/portoshim_volumes'',
     ''Porto:'',
     ''    RuntimeName: porto'',
     ''    Socket:      /run/portod.socket'',
     ''    SocketTimeout: 5m'',
     ''    ImagesDir:   /place/porto_docker'',
     ''CNI:'',
     ''    ConfDir:  /etc/cni/net.d'',
     ''    BinDir:   /opt/cni/bin'',
     ''    NetnsDir: /var/run/netns'',
     ''    NetType:  \"netns\"'',
     ''StreamingServer:'',
     ''    Address: \"[::]\"'',
     ''    Port:    7255'',
     ''Images:'',
     ''    PauseImage: registry.k8s.io/pause:3.7'',
     ''CDI:'',
     ''    SpecDirs:'',
     ''        - /etc/cdi'',
     ''        - /var/run/cdi'',
     []]"

definition zero_config :: PortoshimConfig where
  "zero_config = \<lparr>ConfigPath = [], Socket = [], LogsDir = [], VolumesDir = [], RuntimeName = [], PortoSocket = [],
     SocketTimeout = 0, ImagesDir = [], ParentContainer = [], ConfDir = [], BinDir = [], NetnsDir = [], NetType = [],
     StreamAddress = [], StreamPort = 0, PauseImage = [], Registries = [], Place = [], SpecDirs = []\<rparr>"

text \<open>The configuration with the path to read from, or no path when there is nothing to read.\<close>

definition config_path :: "env \<Rightarrow> string \<Rightarrow> PortoshimConfig \<Rightarrow> (PortoshimConfig \<times> bool) res prog" where
  "config_path E configPath cfg = do {
     s \<leftarrow> Stat E configPath;
     case s of
       Inr x \<Rightarrow> ret (Ok (cfg\<lparr>ConfigPath := configPath\<rparr>, True))
     | Inl e \<Rightarrow>
         if \<not> is_OsNotExist e then ret (Err e)
         else if ConfigPath cfg = configPath then ret (Ok (cfg, False))
         else do {
           s2 \<leftarrow> Stat E (ConfigPath cfg);
           case s2 of
             Inr x \<Rightarrow> ret (Ok (cfg, True))
           | Inl e2 \<Rightarrow> if is_OsNotExist e2 then ret (Ok (cfg, False)) else ret (Err e2)
         }
   }"

definition InitConfig :: "env \<Rightarrow> yaml_parser \<Rightarrow> string \<Rightarrow> PortoshimConfig res prog" where
  "InitConfig E yaml configPath =
     call_or (FmtV ''InitConfig'') (ret (yaml defaultConfig zero_config)) (\<lambda>cfg.
     step_or id (config_path E configPath cfg) (\<lambda>(cfg, present).
     if \<not> present then ret (Ok cfg)
     else call_or (FmtV ''InitConfig'') (ReadFile E (ConfigPath cfg)) (\<lambda>data.
          call_or (FmtV ''InitConfig'') (ret (yaml data cfg)) (\<lambda>cfg. ret (Ok cfg)))))"

section \<open>The socket and the server\<close>

text \<open>
  \<open>zap.S().Fatalf\<close> ends the process. A line written outside the interceptor has no id of a request;
  where the start goes on, the functions below return the lines they wrote.
\<close>

definition zap_line :: "level \<Rightarrow> string \<Rightarrow> log_arg list \<Rightarrow> log_line" where
  "zap_line lvl template args = \<lparr>ll_level = lvl, ll_template = template, ll_args = args\<rparr>"

definition fatal :: "string \<Rightarrow> 'a res prog" where
  "fatal message = ret (Panic message)"

definition unlinkStaleSocket :: "env \<Rightarrow> string \<Rightarrow> log_line list res prog" where
  "unlinkStaleSocket E socketPath = do {
     ss \<leftarrow> Stat E socketPath;
     case ss of
       Inr info \<Rightarrow>
         if ModeSocket info then
           call_or (FmtV ''failed to remove socket'') (Remove E socketPath)
             (\<lambda>u. ret (Ok [zap_line Info ''unlinked staled socket'' []]))
         else ret (Err (Errorf ''some file already exists and is not a socket'' [socketPath]))
     | Inl e \<Rightarrow> if is_OsNotExist e then ret (Ok []) else ret (Err (FmtV ''failed to stat socket path'' e))
   }"

text \<open>
  The streaming server is made by a library from its configuration; the library's constants are
  parameters. \<open>NewStreamingRuntime\<close> has no state and no error.
\<close>

record StreamingConfig =
  Addr :: string
  StreamIdleTimeout :: int
  StreamCreationTimeout :: int
  SupportedRemoteCommandProtocols :: "string list"
  SupportedPortForwardProtocols :: "string list"

record streaming_lib =
  DefaultStreamCreationTimeout :: int
  SupportedStreamingProtocols :: "string list"
  SupportedProtocols :: "string list"
  NewServer :: "StreamingConfig \<Rightarrow> goerr + unit"

definition newStreamingConfig :: "streaming_lib \<Rightarrow> string \<Rightarrow> StreamingConfig" where
  "newStreamingConfig L addr =
     \<lparr>Addr = addr, StreamIdleTimeout = 15 * 60 * 1000000000,
      StreamCreationTimeout = DefaultStreamCreationTimeout L,
      SupportedRemoteCommandProtocols = SupportedStreamingProtocols L,
      SupportedPortForwardProtocols = SupportedProtocols L\<rparr>"

definition NewStreamingServer :: "streaming_lib \<Rightarrow> string \<Rightarrow> goerr + unit" where
  "NewStreamingServer L addr = NewServer L (newStreamingConfig L addr)"

text \<open>The number of networks the plugins must find, and the answers of the libraries.\<close>

definition networkAttachCount :: nat where
  "networkAttachCount = 2"

definition NewPortoshimRuntimeMapper :: "env \<Rightarrow> (nat \<Rightarrow> goerr + unit) \<Rightarrow> streaming_lib \<Rightarrow> unit res prog" where
  "NewPortoshimRuntimeMapper E cni_New L =
     (let netCount = (if ParentContainer (Cfg E) = [] \<or> NetType (Cfg E) = ''netns'' then networkAttachCount else 1) in
      call_or (FmtV ''failed to initialize cni'') (ret (cni_New netCount)) (\<lambda>u.
      call_or (FmtV ''failed to create streaming server'')
        (ret (NewStreamingServer L (StreamAddress (Cfg E) @ '':'' @ itoa (StreamPort (Cfg E))))) (\<lambda>u. ret (Ok ()))))"

definition NewPortoshimServer :: "env \<Rightarrow> unit res prog \<Rightarrow> string \<Rightarrow> log_line list res prog" where
  "NewPortoshimServer E mapper socketPath =
     step_or id mapper (\<lambda>m. do {
       d \<leftarrow> MkdirAll E (VolumesDir (Cfg E));
       case d of
         Inl e \<Rightarrow> fatal ''cannot create volumes dir''
       | Inr u \<Rightarrow> do {
           s \<leftarrow> unlinkStaleSocket E socketPath;
           case s of
             Err e \<Rightarrow> fatal ''failed to unlink staled socket''
           | Panic t \<Rightarrow> ret (Panic t)
           | Ok unlinked \<Rightarrow> do {
               l \<leftarrow> Listen E socketPath;
               case l of
                 Inl e \<Rightarrow> fatal ''listen error''
               | Inr u \<Rightarrow> call_or (FmtV ''chmod error'') (Chmod E socketPath 432) (\<lambda>u.
                   ret (Ok (zap_line Info ''starting of portoshim initialization'' [] # unlinked
                     @ [zap_line Info ''portoshim is initialized'' []])))
             }
         }
     })"

section \<open>The logger\<close>

text \<open>
  The logger of zap: the lowest level it writes and where its lines go. \<open>open_sink\<close> is the answer of
  \<open>newSink\<close> (Logger has its file), \<open>terminal\<close> whether the standard output is one, \<open>marshal\<close> the text
  of a configuration. Of \<open>InitLogger\<close> remain the logger, now the global one, and its first line: when
  there is none, a message goes to the standard error, and the start goes on.
\<close>

datatype log_output = LogFile string | Stdout

record zap_logger =
  zl_level :: level
  zl_outputs :: "log_output list"

definition newZapLogger :: "(string \<Rightarrow> goerr + unit) \<Rightarrow> bool \<Rightarrow> string \<Rightarrow> bool \<Rightarrow> goerr + zap_logger" where
  "newZapLogger open_sink terminal logPath debug = (case open_sink logPath of
     Inl e \<Rightarrow> Inl e
   | Inr u \<Rightarrow> Inr \<lparr>zl_level = (if debug then Debug else Info), zl_outputs = LogFile logPath # (if terminal then [Stdout] else [])\<rparr>)"

definition CreateZapLogger :: "env \<Rightarrow> (string \<Rightarrow> goerr + unit) \<Rightarrow> bool \<Rightarrow> bool \<Rightarrow> zap_logger res prog" where
  "CreateZapLogger E open_sink terminal debug =
     call_or (FmtV ''cannot create logger'')
       (ret (newZapLogger open_sink terminal (path_Join [LogsDir (Cfg E), ''portoshim.log'']) debug)) (\<lambda>l. ret (Ok l))"

definition LogConfig :: "(PortoshimConfig \<Rightarrow> goerr + string) \<Rightarrow> PortoshimConfig \<Rightarrow> log_line res" where
  "LogConfig marshal cfg = (case marshal cfg of
     Inl e \<Rightarrow> Err (FmtV ''LogConfig'' e)
   | Inr c \<Rightarrow> Ok (zap_line Info (''portoshim config'' @ CHR 0x0A # ''%s'' @ [CHR 0x0A]) [ArgText c]))"

definition InitLogger ::
  "env \<Rightarrow> (string \<Rightarrow> goerr + unit) \<Rightarrow> (PortoshimConfig \<Rightarrow> goerr + string) \<Rightarrow> bool \<Rightarrow> bool \<Rightarrow> (zap_logger \<times> log_line list) res prog" where
  "InitLogger E open_sink marshal terminal debug =
     call_or (FmtV ''cannot create logs dir'') (MkdirAll E (LogsDir (Cfg E))) (\<lambda>u.
     step_or (FmtV ''cannot create logger'') (CreateZapLogger E open_sink terminal debug) (\<lambda>l.
     ret (Ok (l, case LogConfig marshal (Cfg E) of Ok line \<Rightarrow> [line] | _ \<Rightarrow> []))))"

text \<open>What a logger writes of the lines it is given.\<close>

fun severity :: "level \<Rightarrow> int" where
  "severity Debug = - 1"
| "severity Info = 0"
| "severity Warn = 1"

definition written_by :: "zap_logger \<Rightarrow> log_line list \<Rightarrow> log_line list" where
  "written_by lg lines = filter (\<lambda>l. severity (zl_level lg) \<le> severity (ll_level l)) lines"

section \<open>main\<close>

text \<open>
  The start up to serving (Serving has what follows). An error of the first two steps ends the
  program with a message, one of the others is fatal. \<open>mapper\<close> stands for the network plugins and the
  streaming server, \<open>flags\<close> for the command line: the path of the configuration and the debug flag.
  The result has the lines of the start: the configuration, the registries added, the server.
\<close>

definition registry_lines :: "PortoshimConfig \<Rightarrow> log_line list" where
  "registry_lines cfg = map (\<lambda>info. zap_line Info ''add registry from config %+v'' [ArgRegistry info]) (Registries cfg)"

definition or_fatal :: "string \<Rightarrow> 'a res prog \<Rightarrow> ('a \<Rightarrow> 'b res prog) \<Rightarrow> 'b res prog" where
  "or_fatal message m k = do {
     r \<leftarrow> m;
     case r of Ok v \<Rightarrow> k v | Err e \<Rightarrow> fatal message | Panic s \<Rightarrow> ret (Panic s)
   }"

definition portoshim_main ::
  "env \<Rightarrow> yaml_parser \<Rightarrow> (string \<Rightarrow> goerr + unit) \<Rightarrow> (PortoshimConfig \<Rightarrow> goerr + string) \<Rightarrow> bool \<Rightarrow> (env \<Rightarrow> unit res prog)
   \<Rightarrow> string \<times> bool \<Rightarrow> (PortoshimConfig \<times> zap_logger \<times> log_line list) res prog" where
  "portoshim_main E yaml open_sink marshal terminal mapper flags =
     (case flags of (configPath, debug) \<Rightarrow>
     step_or id (InitConfig E yaml configPath) (\<lambda>cfg.
     let E = E\<lparr>Cfg := cfg\<rparr> in
     step_or id (InitLogger E open_sink marshal terminal debug) (\<lambda>(logger, lines).
     or_fatal ''cannot init known registries'' (InitKnownRegistries E) (\<lambda>u.
     or_fatal ''server init error'' (NewPortoshimServer E (mapper E) (Socket cfg)) (\<lambda>served.
     ret (Ok (cfg, logger, lines @ registry_lines cfg @ served)))))))"

section \<open>What is written without the debug flag\<close>

definition quiet_lines :: "nat \<Rightarrow> message \<Rightarrow> response res \<Rightarrow> int \<Rightarrow> log_line list" where
  "quiet_lines r m v ms =
     (let line = \<lambda>lvl t args. \<lparr>ll_level = lvl, ll_template = (''['' @ hex08 r @ ''] '') @ t, ll_args = args\<rparr> in
      line Info ''%s'' [ArgText (FullMethod m)]
      # (case v of Err e \<Rightarrow> [line Warn ''%v'' [ArgError e]] | _ \<Rightarrow> [])
      @ [line Info ''%s time: %d ms'' [ArgText (FullMethod m), ArgInt ms]])"

lemma request_log_quiet:
  assumes "zl_level lg = Info" "request_log (connected_context r ctx) m = Ok lines"
  shows "written_by lg lines = [\<lparr>ll_level = Info, ll_template = (''['' @ hex08 r @ ''] '') @ ''%s'', ll_args = [ArgText (FullMethod m)]\<rparr>]"
proof (cases "\<exists>img password. m_request m = ReqImages (ReqPullImage img password)")
  case True
  then show ?thesis using assms by (auto simp: request_log_pull written_by_def)
next
  case False
  then show ?thesis using assms by (auto simp: request_log_other written_by_def)
qed

text \<open>
  Without the debug flag, a request that came to its handler leaves its name, its error if it has
  one, and its time; nothing that was in the request or in the answer.
\<close>

lemma quiet_log:
  assumes "zl_level lg = Info" "run_state (intercepted E r ms ctx m handler) w = ((v, lines), w')"
    and "lines \<noteq> []" "\<And>s. v \<noteq> Panic s"
  shows "written_by lg lines = quiet_lines r m v ms"
proof -
  let ?c = "connected_context r ctx"
  obtain before where b: "request_log ?c m = Ok before" using request_log_ok by blast
  note q = request_log_quiet [OF assms(1) b]
  show ?thesis
  proof (cases "run_state (portoClientContext E) w")
    case (Pair d w1)
    show ?thesis
    proof (cases d)
      case (Ok u)
      obtain h w2 where h: "run_state (handler ?c) w1 = (h, w2)" by fastforce
      show ?thesis using assms q b h Pair Ok
        by (cases h) (auto simp: intercepted_def run_simps Let_def response_log_def log_functions written_by_def quiet_lines_def)
    qed (use assms Pair in \<open>auto simp: intercepted_def run_simps\<close>)
  qed
qed

section \<open>What the start keeps\<close>

lemma steady_config [kept_rules]: "steady (config_path E p cfg)"
  unfolding config_path_def by (intro kept_rules)

lemma steady_InitConfig [kept_rules]: "steady (InitConfig E yaml p)"
  unfolding InitConfig_def by (intro kept_rules)

lemma steady_start [kept_rules]:
  "steady (unlinkStaleSocket E p)" "steady (InitLogger E sink marshal t d)" "steady (NewPortoshimRuntimeMapper E c s)"
  unfolding unlinkStaleSocket_def InitLogger_def CreateZapLogger_def NewPortoshimRuntimeMapper_def Let_def by (intro kept_rules)+

lemma steady_NewPortoshimServer: "steady m \<Longrightarrow> steady (NewPortoshimServer E m p)"
  unfolding NewPortoshimServer_def fatal_def by (intro kept_rules)

lemma mapper_silent: "snd (run_state (NewPortoshimRuntimeMapper E c s) w) = w"
  by (simp add: NewPortoshimRuntimeMapper_def run_call_or Let_def split: sum.split)

text \<open>What a step other than reading the registries does to the globals: nothing at the start.\<close>

definition untouched_rel :: "world \<Rightarrow> world \<Rightarrow> bool" where
  "untouched_rel w w' \<longleftrightarrow> w_parent w' = w_parent w \<and> w_tmpfs w' = w_tmpfs w \<and> w_registries w' = w_registries w"

interpretation ut: kept untouched_rel "\<lambda>ev. True"
  by unfold_locales (simp_all add: untouched_rel_def)

lemma untouched_start:
  "keeps untouched_rel (InitConfig E yaml p)" "keeps untouched_rel (InitLogger E sink marshal t d)"
  "keeps untouched_rel (NewPortoshimServer E (NewPortoshimRuntimeMapper E c s) p)"
  unfolding InitConfig_def config_path_def InitLogger_def CreateZapLogger_def NewPortoshimServer_def NewPortoshimRuntimeMapper_def
    unlinkStaleSocket_def fatal_def Let_def MkdirAll_def Remove_def Listen_def Chmod_def Stat_def ReadFile_def
  by (intro ut.rules ut.calls TrueI)+

section \<open>Properties\<close>

text \<open>
  C36. The server opens its socket only where none of its own is left: what it removes is a socket at
  this very path, never a file of another kind, and a start that succeeds has made the directory of
  the volumes, removed a stale socket if there was one, listened and then set the mode of the
  socket to 0660, in this order.
\<close>

theorem server_start:
  fixes E :: env and w :: world
  shows "let m = NewPortoshimServer E (NewPortoshimRuntimeMapper E cni_New L) path in
     \<exists>es. w_trace (snd (run_state m w)) = w_trace w @ es
     \<and> (\<forall>p x. EvRemove p x \<in> set es \<longrightarrow> p = path \<and> (\<exists>info. ModeSocket info
           \<and> o_Stat (os E) (w_trace w @ [EvMkdirAll (VolumesDir (Cfg E)) (Inr ())]) path = Inr info))
     \<and> (is_Ok (fst (run_state m w)) \<longrightarrow> (\<exists>stale. es = EvMkdirAll (VolumesDir (Cfg E)) (Inr ()) # stale
           @ [EvListen path (Inr ()), EvChmod path 432 (Inr ())] \<and> (stale = [] \<or> stale = [EvRemove path (Inr ())])))"
proof -
  let ?h = "w_trace w @ [EvMkdirAll (VolumesDir (Cfg E)) (Inr ())]"
  obtain r where m: "run_state (NewPortoshimRuntimeMapper E cni_New L) w = (r, w)"
    using mapper_silent by (metis prod.collapse)
  show ?thesis
  proof (cases "r = Ok () \<and> o_MkdirAll (os E) (w_trace w) (VolumesDir (Cfg E)) = Inr ()")
    case False
    then show ?thesis
      by (cases r; cases "o_MkdirAll (os E) (w_trace w) (VolumesDir (Cfg E))")
        (auto simp: NewPortoshimServer_def m fatal_def run_step_or MkdirAll_def run_ask)
  next
    case True
    let ?s = "o_Stat (os E) ?h path"
    show ?thesis
    proof (cases "\<exists>info. ?s = Inr info \<and> ModeSocket info")
      case sock: True
      then show ?thesis
        by (auto simp: True NewPortoshimServer_def m unlinkStaleSocket_def fatal_def run_simps Let_def split: sum.split)
    next
      case False
      then show ?thesis
        by (auto simp: True NewPortoshimServer_def m unlinkStaleSocket_def fatal_def run_simps Let_def split: sum.split)
    qed
  qed
qed

definition demo_streaming :: streaming_lib where
  "demo_streaming = \<lparr>DefaultStreamCreationTimeout = 30000000000, SupportedStreamingProtocols = [''v4.channel.k8s.io''],
     SupportedProtocols = [''portforward.k8s.io''], NewServer = (\<lambda>c. Inr ())\<rparr>"

text \<open>A stale socket where the server is to listen.\<close>

definition socket_env :: env where
  "socket_env = base_env\<lparr>os := base_os\<lparr>o_Stat := (\<lambda>h p. if p = ''/run/portoshim.sock''
     then Inr \<lparr>ModeSymlink = False, ModeExec = False, ModeDir = False, ModeSocket = True\<rparr> else Inl (OsNotExist p))\<rparr>\<rparr>"

theorem server_start_witness:
  "\<exists>es. w_trace (snd (run_state (NewPortoshimServer socket_env (NewPortoshimRuntimeMapper socket_env (\<lambda>n. Inr ()) demo_streaming)
       ''/run/portoshim.sock'') base_world)) = es \<and> EvRemove ''/run/portoshim.sock'' (Inr ()) \<in> set es
     \<and> length es = 4"
proof -
  let ?m = "NewPortoshimServer socket_env (NewPortoshimRuntimeMapper socket_env (\<lambda>n. Inr ()) demo_streaming) ''/run/portoshim.sock''"
  have ok: "is_Ok (fst (run_state ?m base_world))"
    by (simp add: NewPortoshimServer_def NewPortoshimRuntimeMapper_def NewStreamingServer_def demo_streaming_def unlinkStaleSocket_def socket_env_def run_simps base_defs Let_def)
  have rem: "EvRemove ''/run/portoshim.sock'' (Inr ()) \<in> set (w_trace (snd (run_state ?m base_world)))"
    by (simp add: NewPortoshimServer_def NewPortoshimRuntimeMapper_def NewStreamingServer_def demo_streaming_def unlinkStaleSocket_def socket_env_def run_simps base_defs Let_def)
  from server_start [of socket_env "\<lambda>n. Inr ()" demo_streaming "''/run/portoshim.sock''" base_world] ok rem
  show ?thesis by (auto simp: Let_def base_world_def)
qed

text \<open>A start that succeeds has gone through its four parts, and the logger has the level asked for.\<close>

lemma portoshim_main_steps:
  assumes "run_state (portoshim_main E yaml sink marshal terminal (\<lambda>E. NewPortoshimRuntimeMapper E c n) (configPath, debug)) w
      = (Ok (cfg, logger, start), w0)"
  obtains u1 lines u2 u3 served where "run_state (InitConfig E yaml configPath) w = (Ok cfg, u1)"
    "run_state (InitLogger (E\<lparr>Cfg := cfg\<rparr>) sink marshal terminal debug) u1 = (Ok (logger, lines), u2)"
    "run_state (InitKnownRegistries (E\<lparr>Cfg := cfg\<rparr>)) u2 = (Ok (), u3)"
    "run_state (NewPortoshimServer (E\<lparr>Cfg := cfg\<rparr>) (NewPortoshimRuntimeMapper (E\<lparr>Cfg := cfg\<rparr>) c n) (Socket cfg)) u3 = (Ok served, w0)"
    "start = lines @ registry_lines cfg @ served"
proof -
  let ?E = "E\<lparr>Cfg := cfg\<rparr>"
  let ?server = "\<lambda>lg lines. or_fatal ''server init error'' (NewPortoshimServer ?E (NewPortoshimRuntimeMapper ?E c n) (Socket cfg))
       (\<lambda>served. ret (Ok (cfg, lg, lines @ registry_lines cfg @ served)))"
  obtain u1 where c: "run_state (InitConfig E yaml configPath) w = (Ok cfg, u1)"
    and r1: "run_state (step_or id (InitLogger ?E sink marshal terminal debug) (\<lambda>(logger, lines).
       or_fatal ''cannot init known registries'' (InitKnownRegistries ?E) (\<lambda>u. ?server logger lines))) u1 = (Ok (cfg, logger, start), w0)"
    using assms by (auto simp: portoshim_main_def run_step_or or_fatal_def fatal_def Let_def split: prod.splits res.splits)
  obtain u2 lg lines where l: "run_state (InitLogger ?E sink marshal terminal debug) u1 = (Ok (lg, lines), u2)"
    and r2: "run_state (or_fatal ''cannot init known registries'' (InitKnownRegistries ?E) (\<lambda>u. ?server lg lines)) u2 = (Ok (cfg, logger, start), w0)"
    using r1 by (auto simp: run_step_or split: prod.splits res.splits)
  obtain u3 where k: "run_state (InitKnownRegistries ?E) u2 = (Ok (), u3)"
    and r3: "run_state (?server lg lines) u3 = (Ok (cfg, logger, start), w0)"
    using r2 by (auto simp: or_fatal_def [of "''cannot init known registries''"] fatal_def split: prod.splits res.splits)
  obtain served where "run_state (NewPortoshimServer ?E (NewPortoshimRuntimeMapper ?E c n) (Socket cfg)) u3 = (Ok served, w0)"
    and "lg = logger" "start = lines @ registry_lines cfg @ served"
    using r3 by (auto simp: or_fatal_def fatal_def split: prod.splits res.splits)
  with c l k that show ?thesis by blast
qed

lemma unlinkStaleSocket_lines:
  "run_state (unlinkStaleSocket E p) w = (Ok unlinked, w') \<Longrightarrow> unlinked = [] \<or> unlinked = [zap_line Info ''unlinked staled socket'' []]"
  by (auto simp: unlinkStaleSocket_def run_simps split: sum.splits if_splits)

definition server_lines :: "log_line list \<Rightarrow> bool" where
  "server_lines served \<longleftrightarrow> (\<exists>unlinked. (unlinked = [] \<or> unlinked = [zap_line Info ''unlinked staled socket'' []])
     \<and> served = zap_line Info ''starting of portoshim initialization'' [] # unlinked @ [zap_line Info ''portoshim is initialized'' []])"

lemma NewPortoshimServer_lines:
  assumes run: "run_state (NewPortoshimServer E m p) w = (Ok served, w')"
  shows "server_lines served"
proof -
  obtain v w1 where m: "run_state m w = (Ok v, w1)"
    using run by (cases "run_state m w"; cases "fst (run_state m w)") (simp_all add: NewPortoshimServer_def run_step_or)
  obtain u where d: "o_MkdirAll (os E) (w_trace w1) (VolumesDir (Cfg E)) = Inr u"
    using run m by (cases "o_MkdirAll (os E) (w_trace w1) (VolumesDir (Cfg E))")
      (simp_all add: NewPortoshimServer_def run_step_or MkdirAll_def run_ask fatal_def)
  let ?w = "w1\<lparr>w_trace := w_trace w1 @ [EvMkdirAll (VolumesDir (Cfg E)) (Inr u)]\<rparr>"
  obtain x w2 where s: "run_state (unlinkStaleSocket E p) ?w = (x, w2)" by (rule prod.exhaust)
  then obtain unlinked where x: "x = Ok unlinked"
    using run m d by (cases x) (simp_all add: NewPortoshimServer_def run_step_or MkdirAll_def run_ask fatal_def)
  obtain y where l: "o_Listen (os E) (w_trace w2) p = Inr y"
    using run m d s x by (cases "o_Listen (os E) (w_trace w2) p")
      (simp_all add: NewPortoshimServer_def run_step_or MkdirAll_def Listen_def run_ask fatal_def)
  have "served = zap_line Info ''starting of portoshim initialization'' [] # unlinked @ [zap_line Info ''portoshim is initialized'' []]"
    using run m d s x l
    by (simp add: NewPortoshimServer_def run_step_or MkdirAll_def Listen_def Chmod_def run_ask run_call_or split: sum.splits)
  with unlinkStaleSocket_lines [OF s [unfolded x]] show ?thesis unfolding server_lines_def by blast
qed

text \<open>The lines of a start: the configuration if it can be printed, then the registries, then the server.\<close>

definition starting_lines :: "(PortoshimConfig \<Rightarrow> goerr + string) \<Rightarrow> PortoshimConfig \<Rightarrow> log_line list \<Rightarrow> bool" where
  "starting_lines marshal cfg start \<longleftrightarrow> (\<exists>served. server_lines served
     \<and> start = (case LogConfig marshal cfg of Ok line \<Rightarrow> [line] | _ \<Rightarrow> []) @ registry_lines cfg @ served)"

lemma portoshim_main_lines:
  assumes "run_state (portoshim_main E yaml sink marshal terminal (\<lambda>E. NewPortoshimRuntimeMapper E c n) (configPath, debug)) w
      = (Ok (cfg, logger, start), w0)"
  shows "starting_lines marshal cfg start"
  using assms
proof (rule portoshim_main_steps)
  fix u1 lines u2 u3 served
  assume l: "run_state (InitLogger (E\<lparr>Cfg := cfg\<rparr>) sink marshal terminal debug) u1 = (Ok (logger, lines), u2)"
    and s: "run_state (NewPortoshimServer (E\<lparr>Cfg := cfg\<rparr>) (NewPortoshimRuntimeMapper (E\<lparr>Cfg := cfg\<rparr>) c n) (Socket cfg)) u3 = (Ok served, w0)"
    and start: "start = lines @ registry_lines cfg @ served"
  have "lines = (case LogConfig marshal cfg of Ok line \<Rightarrow> [line] | _ \<Rightarrow> [])"
    using l by (auto simp: InitLogger_def run_simps split: prod.splits res.splits sum.splits)
  with NewPortoshimServer_lines [OF s] show ?thesis unfolding starting_lines_def start by blast
qed

lemma InitLogger_level:
  "run_state (InitLogger E sink marshal terminal debug) w = (Ok (lg, lines), w') \<Longrightarrow> zl_level lg = (if debug then Debug else Info)"
  by (auto simp: InitLogger_def CreateZapLogger_def newZapLogger_def run_simps split: prod.splits res.splits sum.splits)

lemma InitKnownRegistries_globals:
  "run_state (InitKnownRegistries E) w = (v, w') \<Longrightarrow> w_parent w' = w_parent w \<and> w_tmpfs w' = w_tmpfs w"
  by (auto simp: InitKnownRegistries_def run_simps Let_def)

text \<open>
  The credentials used are those of the start: when the program has started from its initial
  globals and served any number of requests, the table of registries is the built-in one extended
  and overridden by the configuration, each token given as a file replaced by the trimmed content
  of the file at the time of the start, or by none if there was no such file.
\<close>

lemma credentials_fixed_at_start:
  assumes run: "run_state (portoshim_main E yaml sink marshal terminal (\<lambda>E. NewPortoshimRuntimeMapper E c n) (configPath, debug)) w
      = (Ok (cfg, logger, start), w0)"
    and "w_registries w = default_registries" "later w0 w1"
  shows "\<exists>h. map_of (w_registries w1) = (\<lambda>host. map_option (resolved_token (o_Stat (os E) h) (o_ReadFile (os E) h))
      (map_of (add_registries (Registries cfg) default_registries) host))"
  using run
proof (rule portoshim_main_steps)
  fix u1 lines u2 u3 served
  assume c: "run_state (InitConfig E yaml configPath) w = (Ok cfg, u1)"
    and l: "run_state (InitLogger (E\<lparr>Cfg := cfg\<rparr>) sink marshal terminal debug) u1 = (Ok (logger, lines), u2)"
    and k: "run_state (InitKnownRegistries (E\<lparr>Cfg := cfg\<rparr>)) u2 = (Ok (), u3)"
    and s: "run_state (NewPortoshimServer (E\<lparr>Cfg := cfg\<rparr>) (NewPortoshimRuntimeMapper (E\<lparr>Cfg := cfg\<rparr>) c n) (Socket cfg)) u3 = (Ok served, w0)"
  have "w_registries u2 = default_registries"
    using keepsD [OF untouched_start(1) c] keepsD [OF untouched_start(2) l] assms(2) by (simp add: untouched_rel_def)
  moreover have "w_registries w1 = w_registries u3"
    using keepsD [OF untouched_start(3) s] later_steady [OF assms(3)] by (simp add: untouched_rel_def steady_rel_def)
  moreover have "wf_map default_registries" by (simp add: default_registries_def defaultDockerRegistry_def)
  ultimately show ?thesis using registries_initialised [OF k] by auto
qed

lemma started_initial:
  assumes "run_state (portoshim_main E yaml sink marshal terminal (\<lambda>E. NewPortoshimRuntimeMapper E c n) (configPath, debug)) w
      = (Ok (cfg, logger, start), w0)" "initial w"
  shows "initial w0 \<and> zl_level logger = (if debug then Debug else Info)"
  using assms(1)
proof (rule portoshim_main_steps)
  fix u1 lines u2 u3 served
  assume c: "run_state (InitConfig E yaml configPath) w = (Ok cfg, u1)"
    and l: "run_state (InitLogger (E\<lparr>Cfg := cfg\<rparr>) sink marshal terminal debug) u1 = (Ok (logger, lines), u2)"
    and k: "run_state (InitKnownRegistries (E\<lparr>Cfg := cfg\<rparr>)) u2 = (Ok (), u3)"
    and s: "run_state (NewPortoshimServer (E\<lparr>Cfg := cfg\<rparr>) (NewPortoshimRuntimeMapper (E\<lparr>Cfg := cfg\<rparr>) c n) (Socket cfg)) u3 = (Ok served, w0)"
  have "initial w0"
    using keepsD [OF untouched_start(1) c] keepsD [OF untouched_start(2) l] InitKnownRegistries_globals [OF k]
      keepsD [OF untouched_start(3) s] assms(2) by (simp add: untouched_rel_def initial_def)
  with InitLogger_level [OF l] show ?thesis by simp
qed

text \<open>A registry whose token is in a file.\<close>

definition token_config :: PortoshimConfig where
  "token_config = base_config\<lparr>Registries := [\<lparr>Host = ''my.io'', AuthToken = ''file:/token'', AuthPath = [], AuthService = []\<rparr>]\<rparr>"

definition token_logger :: zap_logger where
  "token_logger = \<lparr>zl_level = Info, zl_outputs = [LogFile (path_Join [LogsDir token_config, ''portoshim.log''])]\<rparr>"

definition token_start :: "log_line list" where
  "token_start = zap_line Info (''portoshim config'' @ CHR 0x0A # ''%s'' @ [CHR 0x0A]) [ArgText ''text''] # registry_lines token_config
     @ [zap_line Info ''starting of portoshim initialization'' [], zap_line Info ''portoshim is initialized'' []]"

definition token_env :: env where
  "token_env = base_env\<lparr>os := base_os\<lparr>
     o_Stat := (\<lambda>h p. if p = ''/token'' then Inr \<lparr>ModeSymlink = False, ModeExec = False, ModeDir = False, ModeSocket = False\<rparr>
       else Inl (OsNotExist p)),
     o_ReadFile := (\<lambda>h p. Inr ''abc'')\<rparr>\<rparr>"

lemma token_run:
  "fst (run_state (portoshim_main token_env (\<lambda>s c. Inr token_config) (\<lambda>p. Inr ()) (\<lambda>c. Inr ''text'') False
     (\<lambda>E. NewPortoshimRuntimeMapper E (\<lambda>n. Inr ()) demo_streaming) (''/etc/portoshim.yaml'', False)) fresh_world) = Ok (token_config, token_logger, token_start)"
  by (simp add: portoshim_main_def InitConfig_def config_path_def InitLogger_def CreateZapLogger_def newZapLogger_def token_logger_def token_start_def LogConfig_def or_fatal_def InitKnownRegistries_def
      NewPortoshimServer_def NewPortoshimRuntimeMapper_def NewStreamingServer_def demo_streaming_def unlinkStaleSocket_def token_env_def token_config_def fresh_world_def
      base_defs run_simps Let_def add_registries_def default_registries_def defaultDockerRegistry_def)

lemma credentials_example:
  "\<exists>w0. run_state (portoshim_main token_env (\<lambda>s c. Inr token_config) (\<lambda>p. Inr ()) (\<lambda>c. Inr ''text'') False
       (\<lambda>E. NewPortoshimRuntimeMapper E (\<lambda>n. Inr ()) demo_streaming) (''/etc/portoshim.yaml'', False)) fresh_world = (Ok (token_config, token_logger, token_start), w0)
     \<and> map_option AuthToken (map_of (w_registries w0) ''my.io'') = Some ''abc''"
proof -
  obtain w0 where r: "run_state (portoshim_main token_env (\<lambda>s c. Inr token_config) (\<lambda>p. Inr ()) (\<lambda>c. Inr ''text'') False
       (\<lambda>E. NewPortoshimRuntimeMapper E (\<lambda>n. Inr ()) demo_streaming) (''/etc/portoshim.yaml'', False)) fresh_world = (Ok (token_config, token_logger, token_start), w0)"
    using token_run by (metis prod.collapse)
  have "w_registries fresh_world = default_registries" by (simp add: fresh_world_def)
  from credentials_fixed_at_start [OF r this later_refl] obtain h where
    m: "map_of (w_registries w0) = (\<lambda>host. map_option (resolved_token (o_Stat (os token_env) h) (o_ReadFile (os token_env) h))
      (map_of (add_registries (Registries token_config) default_registries) host))" by blast
  have "TrimSpace ''abc'' = ''abc''" by (rule TrimSpace_plain) (simp add: plain_char_def)
  then show ?thesis
    using r by (simp add: m add_registries_def token_config_def default_registries_def defaultDockerRegistry_def
        resolved_token_def token_env_def)
qed

text \<open>
  A configuration file that is not there is no error: the program then starts exactly as if it
  had been given the path of its default configuration, whose file is read if it exists, so that a
  mistyped path goes unnoticed.
\<close>

theorem config_fallback:
  fixes E :: env and d :: PortoshimConfig
  assumes "yaml defaultConfig zero_config = Inr d" "o_Stat (os E) (w_trace w) p = Inl e" "is_OsNotExist e"
  shows "run_state (InitConfig E yaml p) w = run_state (InitConfig E yaml (ConfigPath d)) w"
  using assms
  by (cases "o_Stat (os E) (w_trace w) (ConfigPath d)") (auto simp: InitConfig_def config_path_def run_simps)

theorem config_fallback_witness:
  "fst (run_state (InitConfig base_env (\<lambda>s c. Inr base_config) ''/typo.yaml'') base_world) = Ok base_config"
proof -
  have "o_Stat (os base_env) (w_trace base_world) ''/typo.yaml'' = Inl (OsNotExist ''/typo.yaml'')" by (simp add: base_defs)
  from config_fallback [where yaml = "\<lambda>s c. Inr base_config", OF refl this]
  have "run_state (InitConfig base_env (\<lambda>s c. Inr base_config) ''/typo.yaml'') base_world
    = run_state (InitConfig base_env (\<lambda>s c. Inr base_config) (ConfigPath base_config)) base_world" by simp
  also have "fst \<dots> = Ok base_config" by (simp add: InitConfig_def config_path_def run_simps base_defs)
  finally show ?thesis .
qed

end
