(* ===== verification/Logger.thy ===== *)
theory Logger
  imports Prelude Machines "HOL-Library.Sublist"
begin

text \<open>
  The file of the log (logger.go): writers load the pointer to the current file and write to it,
  while a goroutine reopens the file on a signal: it opens a new one, stores the pointer and closes
  the old one. Each of these is a step of its own, so the relation has every interleaving. A file
  is a number, as each opening gives a new \<open>*os.File\<close>.
\<close>

section \<open>The states\<close>

datatype reopening = Idle | Opened nat | Closing nat

record sink =
  sk_file :: nat
  sk_open :: "nat set"
  sk_next :: nat
  sk_reopening :: reopening
  sk_said :: "string multiset"
  sk_loaded :: "(string \<times> nat) multiset"
  sk_written :: "(nat \<times> string) list"
  sk_lost :: "(nat \<times> string) list"
  sk_failed :: "(nat \<times> string \<times> string) list"
  sk_stopped :: bool

text \<open>\<open>newSink\<close>: the first opening, before the goroutine and the writers start.\<close>

definition newSink :: sink where
  "newSink = \<lparr>sk_file = 0, sk_open = {0}, sk_next = 1, sk_reopening = Idle, sk_said = {#}, sk_loaded = {#},
     sk_written = [], sk_lost = [], sk_failed = [], sk_stopped = False\<rparr>"

section \<open>The steps\<close>

text \<open>
  \<open>reopen\<close> in the goroutine of \<open>listenToSignal\<close>: a failed opening leaves all as it is, which is no
  step here. A write may fail on an open file as well (a full disk), with a beginning \<open>p\<close> of the line
  written; nobody writes the line again. \<open>Close\<close> stops the signals and closes the current file.
\<close>

inductive sink_step :: "sink \<Rightarrow> sink \<Rightarrow> bool" where
  open_new: "sk_reopening s = Idle \<Longrightarrow> \<not> sk_stopped s
    \<Longrightarrow> sink_step s (s\<lparr>sk_reopening := Opened (sk_next s), sk_open := insert (sk_next s) (sk_open s), sk_next := Suc (sk_next s)\<rparr>)"
| swap: "sk_reopening s = Opened f \<Longrightarrow> sink_step s (s\<lparr>sk_file := f, sk_reopening := Closing (sk_file s)\<rparr>)"
| close_old: "sk_reopening s = Closing old \<Longrightarrow> sink_step s (s\<lparr>sk_open := sk_open s - {old}, sk_reopening := Idle\<rparr>)"
| load: "sink_step s (s\<lparr>sk_said := add_mset line (sk_said s), sk_loaded := add_mset (line, sk_file s) (sk_loaded s)\<rparr>)"
| Write: "(line, f) \<in># sk_loaded s \<Longrightarrow> f \<in> sk_open s
    \<Longrightarrow> sink_step s (s\<lparr>sk_loaded := sk_loaded s - {#(line, f)#}, sk_written := sk_written s @ [(f, line)]\<rparr>)"
| Write_fails: "(line, f) \<in># sk_loaded s \<Longrightarrow> f \<in> sk_open s \<Longrightarrow> prefix p line
    \<Longrightarrow> sink_step s (s\<lparr>sk_loaded := sk_loaded s - {#(line, f)#}, sk_failed := sk_failed s @ [(f, line, p)]\<rparr>)"
| Write_closed: "(line, f) \<in># sk_loaded s \<Longrightarrow> f \<notin> sk_open s
    \<Longrightarrow> sink_step s (s\<lparr>sk_loaded := sk_loaded s - {#(line, f)#}, sk_lost := sk_lost s @ [(f, line)]\<rparr>)"
| Close: "\<not> sk_stopped s \<Longrightarrow> sink_step s (s\<lparr>sk_open := sk_open s - {sk_file s}, sk_stopped := True\<rparr>)"

inductive_cases sink_stepE: "sink_step s s'"

abbreviation sink_run :: "sink \<Rightarrow> bool" where
  "sink_run s \<equiv> sink_step\<^sup>*\<^sup>* newSink s"

section \<open>What always holds\<close>

text \<open>What became of the lines: waiting for their write, written, lost in a closed file, or failed.\<close>

definition sk_lines :: "sink \<Rightarrow> string multiset" where
  "sk_lines s = image_mset fst (sk_loaded s) + mset (map snd (sk_written s)) + mset (map snd (sk_lost s))
     + mset (map (fst \<circ> snd) (sk_failed s))"

lemma taken_out: "(line, f) \<in># m \<Longrightarrow> image_mset fst (m - {#(line, f)#}) + {#line#} = image_mset fst m"
  by (metis (no_types, lifting) fst_conv image_mset_add_mset insert_DiffM2 image_mset_union union_commute add_mset_add_single)

lemma accounted: "sink_step s s' \<Longrightarrow> sk_said s = sk_lines s \<Longrightarrow> sk_said s' = sk_lines s'"
proof (induction rule: sink_step.induct)
  case (Write line f s)
  then show ?case by (simp add: sk_lines_def flip: taken_out [OF Write(1)])
next
  case (Write_fails line f s p)
  then show ?case by (simp add: sk_lines_def flip: taken_out [OF Write_fails(1)])
next
  case (Write_closed line f s)
  then show ?case by (simp add: sk_lines_def flip: taken_out [OF Write_closed(1)])
qed (simp_all add: sk_lines_def)

text \<open>The files that are open: the current one and the one that is being opened or closed.\<close>

definition in_hand :: "reopening \<Rightarrow> nat set" where
  "in_hand r = (case r of Idle \<Rightarrow> {} | Opened f \<Rightarrow> {f} | Closing f \<Rightarrow> {f})"

lemma in_hand_simps [simp]: "in_hand Idle = {}" "in_hand (Opened f) = {f}" "in_hand (Closing f) = {f}"
  by (simp_all add: in_hand_def)

definition sink_files :: "sink \<Rightarrow> bool" where
  "sink_files s \<longleftrightarrow> sk_file s < sk_next s \<and> sk_file s \<notin> in_hand (sk_reopening s)
     \<and> in_hand (sk_reopening s) \<subseteq> {..<sk_next s} \<and> sk_open s \<subseteq> insert (sk_file s) (in_hand (sk_reopening s))
     \<and> (\<not> sk_stopped s \<longrightarrow> insert (sk_file s) (in_hand (sk_reopening s)) \<subseteq> sk_open s
          \<and> fst ` set (sk_lost s) \<subseteq> {..<sk_next s} - insert (sk_file s) (in_hand (sk_reopening s)))
     \<and> snd ` set_mset (sk_loaded s) \<subseteq> {..<sk_next s}"

definition sink_inv :: "sink \<Rightarrow> bool" where
  "sink_inv s \<longleftrightarrow> sink_files s \<and> sk_said s = sk_lines s"

lemma loaded_less: "snd ` set_mset m \<subseteq> {..<n} \<Longrightarrow> (line, f) \<in># m \<Longrightarrow> f < n"
  by force

lemma loaded_minus: "snd ` set_mset m \<subseteq> A \<Longrightarrow> snd ` set_mset (m - {#x#}) \<subseteq> A"
  by (meson image_mono in_diffD subset_trans subsetI)

lemma sink_files_step: "sink_step s s' \<Longrightarrow> sink_files s \<Longrightarrow> sink_files s'"
proof (induction rule: sink_step.induct)
  case (open_new s)
  then show ?case by (simp add: sink_files_def) fastforce
next
  case (Write line f s)
  then show ?case by (simp add: sink_files_def loaded_minus)
next
  case (Write_fails line f s p)
  then show ?case by (simp add: sink_files_def loaded_minus)
next
  case (Write_closed line f s)
  then have "snd ` set_mset (sk_loaded s) \<subseteq> {..<sk_next s}" by (simp add: sink_files_def)
  then have "f < sk_next s" using Write_closed(1) by (rule loaded_less)
  moreover have "\<not> sk_stopped s \<Longrightarrow> f \<notin> insert (sk_file s) (in_hand (sk_reopening s))"
    using Write_closed unfolding sink_files_def by blast
  ultimately show ?case using Write_closed by (simp add: sink_files_def loaded_minus)
qed (simp add: sink_files_def; blast)+

interpretation sk: machine sink_step newSink sink_inv
  by unfold_locales (simp add: sink_inv_def sink_files_def sk_lines_def newSink_def,
    use sink_files_step accounted in \<open>auto simp: sink_inv_def\<close>)

section \<open>Properties\<close>

text \<open>
  C37. Whenever the log has not been closed, whatever the signals, failed openings and writers did so
  far, the current file is open, no file but it and the one a reopening has in hand is open, so that
  rotation leaks no descriptor; and every line the program logged is written, still on its way, or
  missing for one of two reasons: its writer took a file that was replaced and closed meanwhile, which
  is neither the current file nor one in hand, or the write itself failed, after a beginning of it.
\<close>

theorem log_file_open:
  assumes "sink_run s" "\<not> sk_stopped s"
  shows "sk_file s \<in> sk_open s \<and> sk_open s = insert (sk_file s) (in_hand (sk_reopening s))
    \<and> (\<forall>(f, line) \<in> set (sk_lost s). f < sk_next s \<and> f \<noteq> sk_file s \<and> f \<notin> in_hand (sk_reopening s))
    \<and> sk_said s = image_mset fst (sk_loaded s) + mset (map snd (sk_written s)) + mset (map snd (sk_lost s))
        + mset (map (fst \<circ> snd) (sk_failed s))"
  using sk.holds [OF assms(1)] assms(2) unfolding sink_inv_def sink_files_def sk_lines_def by force

text \<open>
  A line is in fact lost that way: its writer takes the file, the file is replaced and closed, and
  the write finds it closed.
\<close>

lemma log_line_lost: "\<exists>s. sink_run s \<and> \<not> sk_stopped s \<and> sk_lost s = [(0, line)]"
proof -
  let ?s = "newSink"
  let ?s1 = "?s\<lparr>sk_said := add_mset line (sk_said ?s), sk_loaded := add_mset (line, sk_file ?s) (sk_loaded ?s)\<rparr>"
  let ?s2 = "?s1\<lparr>sk_reopening := Opened (sk_next ?s1), sk_open := insert (sk_next ?s1) (sk_open ?s1), sk_next := Suc (sk_next ?s1)\<rparr>"
  let ?s3 = "?s2\<lparr>sk_file := 1, sk_reopening := Closing (sk_file ?s2)\<rparr>"
  let ?s4 = "?s3\<lparr>sk_open := sk_open ?s3 - {0}, sk_reopening := Idle\<rparr>"
  let ?s5 = "?s4\<lparr>sk_loaded := sk_loaded ?s4 - {#(line, 0)#}, sk_lost := sk_lost ?s4 @ [(0, line)]\<rparr>"
  have "sink_step ?s ?s1" by (rule load)
  moreover have "sink_step ?s1 ?s2" by (rule open_new) (simp_all add: newSink_def)
  moreover have "sink_step ?s2 ?s3" by (rule swap) (simp add: newSink_def)
  moreover have "sink_step ?s3 ?s4" by (rule close_old) (simp add: newSink_def)
  moreover have "sink_step ?s4 ?s5" by (rule Write_closed) (simp_all add: newSink_def)
  ultimately have "sink_run ?s5" by (meson rtranclp.rtrancl_refl rtranclp.rtrancl_into_rtrancl)
  moreover have "\<not> sk_stopped ?s5 \<and> sk_lost ?s5 = [(0, line)]" by (simp add: newSink_def)
  ultimately show ?thesis by blast
qed

theorem log_file_open_witness:
  "\<exists>s. sink_run s \<and> sk_lost s = [(0, ''started'')] \<and> sk_file s \<noteq> 0 \<and> sk_file s \<in> sk_open s"
proof -
  obtain s where s: "sink_run s" "\<not> sk_stopped s" "sk_lost s = [(0, ''started'')]" using log_line_lost by blast
  with log_file_open [OF s(1,2)] show ?thesis by auto
qed

end
