(* ===== verification/Logshim.thy ===== *)
theory Logshim
  imports Json_Decode Machines
begin

text \<open>
  The log wrapper (cmd/logshim): it runs the command of a container and writes what it prints as
  JSON entries, one per line. First the loop over one stream, then the two loops together with the
  lock they share.
\<close>

section \<open>Reading\<close>

text \<open>
  \<open>bufio.Reader.ReadSlice\<close> for a newline with a buffer of \<open>k\<close> bytes, on a stream with the
  contents \<open>s\<close> and the end \<open>fin\<close>, \<open>None\<close> for \<open>io.EOF\<close>: the bytes up to a newline that fits into the
  buffer, a full buffer without one, or what is left at the end.
\<close>

datatype read_err = NoErr | EOF | ErrBufferFull | ReadFailed goerr

definition end_err :: "goerr option \<Rightarrow> read_err" where
  "end_err fin = (case fin of None \<Rightarrow> EOF | Some e \<Rightarrow> ReadFailed e)"

definition ReadSlice :: "nat \<Rightarrow> goerr option \<Rightarrow> string \<Rightarrow> string \<times> read_err \<times> string" where
  "ReadSlice k fin s =
     (let line = takeWhile (\<lambda>c. c \<noteq> CHR 0x0A) s; n = length line in
      if n < length s \<and> n < k then (take (Suc n) s, NoErr, drop (Suc n) s)
      else if k \<le> length s then (take k s, ErrBufferFull, drop k s)
      else (s, end_err fin, []))"

lemma ReadSlice_rest:
  assumes "ReadSlice k fin s = (chunk, e, rest)"
  shows "s = chunk @ rest"
  using assms by (auto simp: ReadSlice_def Let_def split: if_splits)

section \<open>Entries\<close>

text \<open>
  \<open>json.Marshal\<close> of a \<open>logEnt\<close>, with the time as the text of its RFC 3339 form; a string and a time
  are always encoded, so the failure of the source cannot happen.
\<close>

definition log_entry :: "string \<Rightarrow> string \<Rightarrow> string \<Rightarrow> string" where
  "log_entry chunk name time = json_object [(''log'', json_string chunk), (''stream'', json_string name), (''time'', json_string time)]"

section \<open>The loop over a stream\<close>

datatype loop_end = Returned | Fatal string

definition bufsize :: nat where
  "bufsize = 16 * 1024"

text \<open>
  \<open>now\<close> is the clock and \<open>wr\<close> the answer of writing, both given the entries written so far. The
  result is how the loop ends and what it wrote.
\<close>

function streamLoop :: "(string list \<Rightarrow> string) \<Rightarrow> (string list \<Rightarrow> goerr option) \<Rightarrow> string \<Rightarrow> goerr option
    \<Rightarrow> string \<Rightarrow> string list \<Rightarrow> loop_end \<times> string list" where
  "streamLoop now wr name fin s out =
     (case ReadSlice bufsize fin s of (chunk, readErr, rest) \<Rightarrow>
        if chunk = [] then (Returned, out)
        else if wr out \<noteq> None then (Fatal ''failed to write stream'', out)
        else let out = out @ [log_entry chunk name (now out)] in
          if readErr = EOF then (Returned, out)
          else if readErr \<noteq> NoErr \<and> readErr \<noteq> ErrBufferFull then (Fatal ''failed to read stream'', out)
          else streamLoop now wr name fin rest out)"
  by pat_completeness auto
termination
  by (relation "measure (\<lambda>(now, wr, name, fin, s, out). length s)") (auto dest!: ReadSlice_rest [OF sym])

declare streamLoop.simps [simp del]

section \<open>The pieces of a stream\<close>

text \<open>
  Pieces of at most \<open>k\<close> bytes, none empty, with a newline only at the end, and only the last one
  neither ended by a newline nor full.
\<close>

definition piece :: "nat \<Rightarrow> string \<Rightarrow> bool" where
  "piece k c \<longleftrightarrow> c \<noteq> [] \<and> length c \<le> k \<and> CHR 0x0A \<notin> set (butlast c)"

fun pieces :: "nat \<Rightarrow> string list \<Rightarrow> bool" where
  "pieces k [] = True"
| "pieces k [c] = piece k c"
| "pieces k (c # d # cs) = (piece k c \<and> (last c = CHR 0x0A \<or> length c = k) \<and> pieces k (d # cs))"

lemma pieces_Cons: "piece k c \<Longrightarrow> (cs \<noteq> [] \<Longrightarrow> last c = CHR 0x0A \<or> length c = k) \<Longrightarrow> pieces k cs \<Longrightarrow> pieces k (c # cs)"
  by (cases cs) simp_all

lemma butlast_line:
  assumes "n = length (takeWhile (\<lambda>c. c \<noteq> d) s)" "n < length s"
  shows "take (Suc n) s = takeWhile (\<lambda>c. c \<noteq> d) s @ [d]"
proof -
  have "s ! n = d" using assms nth_length_takeWhile [of "\<lambda>c. c \<noteq> d" s] by simp
  moreover have "take n s = takeWhile (\<lambda>c. c \<noteq> d) s" unfolding assms(1) by (rule takeWhile_eq_take [symmetric])
  ultimately show ?thesis using assms(2) by (simp add: take_Suc_conv_app_nth)
qed

lemma no_newline_before: "n \<le> length (takeWhile (\<lambda>c. c \<noteq> d) s) \<Longrightarrow> d \<notin> set (take n s)"
proof
  assume n: "n \<le> length (takeWhile (\<lambda>c. c \<noteq> d) s)" and d: "d \<in> set (take n s)"
  have "take n s = take n (takeWhile (\<lambda>c. c \<noteq> d) s)"
    using n by (subst takeWhile_eq_take) (simp add: min_absorb1)
  with d have "d \<in> set (takeWhile (\<lambda>c. c \<noteq> d) s)" by (metis in_set_takeD)
  then show False by (auto dest: set_takeWhileD)
qed

lemma ReadSlice_piece:
  assumes "ReadSlice k fin s = (chunk, e, rest)" "0 < k" "chunk \<noteq> []"
  shows "piece k chunk \<and> (e = end_err fin \<longrightarrow> rest = [] \<or> e = NoErr \<or> e = ErrBufferFull)
    \<and> (e = NoErr \<and> last chunk = CHR 0x0A \<or> e = ErrBufferFull \<and> length chunk = k \<or> e = end_err fin \<and> rest = [])"
proof -
  let ?w = "takeWhile (\<lambda>c. c \<noteq> CHR 0x0A) s"
  consider (line) "length ?w < length s" "length ?w < k"
    | (full) "\<not> (length ?w < length s \<and> length ?w < k)" "k \<le> length s"
    | (rest) "\<not> (length ?w < length s \<and> length ?w < k)" "\<not> k \<le> length s" by blast
  then show ?thesis
  proof cases
    case line
    then have c: "chunk = ?w @ [CHR 0x0A]" "e = NoErr"
      using assms(1) butlast_line [OF refl line(1)] by (simp_all add: ReadSlice_def Let_def)
    moreover have "CHR 0x0A \<notin> set ?w" by (auto dest: set_takeWhileD)
    ultimately show ?thesis using line(2) by (simp add: piece_def)
  next
    case full
    then have c: "chunk = take k s" "e = ErrBufferFull" using assms(1) by (auto simp: ReadSlice_def Let_def split: if_splits)
    have "k \<le> length ?w" using full length_takeWhile_le [of _ s] by (metis le_antisym not_le)
    then have "CHR 0x0A \<notin> set chunk" unfolding c(1) by (rule no_newline_before)
    then show ?thesis using assms(3) c full(2) by (auto simp: piece_def dest: in_set_butlastD)
  next
    case rest
    then have c: "chunk = s" "e = end_err fin" "rest = []" using assms(1) by (auto simp: ReadSlice_def Let_def split: if_splits)
    have "length s \<le> length ?w" using rest length_takeWhile_le [of _ s] by (metis not_le order.trans nat_less_le)
    then have "CHR 0x0A \<notin> set (take (length s) s)" by (rule no_newline_before)
    then show ?thesis using assms(3) c rest by (auto simp: piece_def dest: in_set_butlastD)
  qed
qed

section \<open>What the loop writes\<close>

text \<open>The entries of the pieces, each with the time of the clock when it is written.\<close>

fun stamp :: "(string list \<Rightarrow> string) \<Rightarrow> string \<Rightarrow> string list \<Rightarrow> string list \<Rightarrow> string list" where
  "stamp now name out [] = []"
| "stamp now name out (c # cs) = (let e = log_entry c name (now out) in e # stamp now name (out @ [e]) cs)"

lemma streamLoop_stamp:
  "\<exists>cs. concat cs = s \<and> pieces bufsize cs
     \<and> streamLoop now (\<lambda>es. None) name None s out = (Returned, out @ stamp now name out cs)"
proof (induction "length s" arbitrary: s out rule: less_induct)
  case less
  obtain chunk e rest where r: "ReadSlice bufsize None s = (chunk, e, rest)" by (metis prod.exhaust)
  note s = ReadSlice_rest [OF r]
  show ?case
  proof (cases "chunk = []")
    case True
    have "s = []"
      using r True by (cases s) (auto simp: ReadSlice_def Let_def bufsize_def split: if_splits)
    with r True show ?thesis by (intro exI [of _ "[]"]) (simp add: streamLoop.simps)
  next
    case False
    let ?e = "log_entry chunk name (now out)"
    have "0 < bufsize" by (simp add: bufsize_def)
    from ReadSlice_piece [OF r this False] have p: "piece bufsize chunk"
      "e = NoErr \<and> last chunk = CHR 0x0A \<or> e = ErrBufferFull \<and> length chunk = bufsize \<or> e = EOF \<and> rest = []"
      by (auto simp: end_err_def)
    show ?thesis
    proof (cases "e = EOF")
      case True
      with p have "rest = []" by auto
      with True r False p(1) s show ?thesis
        by (intro exI [of _ "[chunk]"]) (simp add: streamLoop.simps [of _ _ _ _ chunk] Let_def)
    next
      case neof: False
      have "length rest < length s" using s False by simp
      from less.hyps [OF this, of "out @ [?e]"] obtain cs where cs: "concat cs = rest" "pieces bufsize cs"
        "streamLoop now (\<lambda>es. None) name None rest (out @ [?e]) = (Returned, (out @ [?e]) @ stamp now name (out @ [?e]) cs)"
        by blast
      have "streamLoop now (\<lambda>es. None) name None s out = (Returned, out @ stamp now name out (chunk # cs))"
        using r False neof p(2) cs(3) by (auto simp: streamLoop.simps [of _ _ _ _ s] Let_def)
      moreover have "pieces bufsize (chunk # cs)" using p neof cs(2) by (intro pieces_Cons) auto
      ultimately show ?thesis using s cs(1) by (intro exI [of _ "chunk # cs"]) simp
    qed
  qed
qed

section \<open>Reading an entry back\<close>

text \<open>The text of the member "log", which is the first one.\<close>

definition entry_log :: "string \<Rightarrow> string option" where
  "entry_log e = (case parse_value (length e) maxNestingDepth (drop (length ''{\"log\":'') e) of
     Some (JStr t, rest) \<Rightarrow> Some t | _ \<Rightarrow> None)"

lemma entry_log_entry: "entry_log (log_entry chunk name t) = Some (valid_text chunk)"
proof -
  have k: "json_string ''log'' = CHR 0x22 # ''log'' @ [CHR 0x22]"
    by (simp add: json_string_def byte_in_def json_esc_def)
  obtain rest where e: "log_entry chunk name t = ''{\"log\":'' @ json_string chunk @ rest"
    by (simp add: log_entry_def json_object_def k)
  then obtain n where "length (log_entry chunk name t) = Suc n" by simp
  then show ?thesis
    using parse_value_string [of n maxNestingDepth chunk rest] by (simp add: entry_log_def e)
qed

lemma stamp_logs: "map entry_log (stamp now name out cs) = map (Some \<circ> valid_text) cs"
  by (induction cs arbitrary: out) (simp_all add: Let_def entry_log_entry)

section \<open>An entry is one line\<close>

definition one_line :: "string \<Rightarrow> bool" where
  "one_line s \<longleftrightarrow> CHR 0x0A \<notin> set s"

lemma one_line_simps [simp]:
  "one_line []" "one_line (c # cs) \<longleftrightarrow> c \<noteq> CHR 0x0A \<and> one_line cs" "one_line (s @ t) \<longleftrightarrow> one_line s \<and> one_line t"
  by (auto simp: one_line_def)

lemma one_line_json_esc: "one_line (json_esc c)"
proof -
  have "list_all (\<lambda>d. hex_digit d \<noteq> CHR 0x0A) [0..<16]" by code_simp
  then have h: "d < 16 \<Longrightarrow> hex_digit d \<noteq> CHR 0x0A" for d by (simp add: list_all_iff)
  have "of_char c div 16 < (16 :: nat)" using nat_of_char_less_256 [of c] by linarith
  then show ?thesis using h by (simp add: json_esc_def)
qed

lemma high_byte: "byte_in a b c \<Longrightarrow> 128 \<le> a \<Longrightarrow> c \<noteq> CHR 0x0A"
  by (auto simp: byte_in_def)

lemma utf8_high:
  assumes "\<not> byte_in 0 127 c"
  shows "one_line (take (utf8_len (c # cs)) (c # cs))"
proof -
  let ?k = "utf8_len (c # cs)" and ?nl = "CHR 0x0A"
  have 0: "c \<noteq> ?nl" using assms by (auto simp: byte_in_def)
  have n: "byte_in 128 191 x \<Longrightarrow> x \<noteq> ?nl" "second_of_3 d x \<Longrightarrow> x \<noteq> ?nl" "second_of_4 d x \<Longrightarrow> x \<noteq> ?nl" for d x
    by (auto simp: second_of_3_def second_of_4_def byte_in_def split: if_splits)
  have "?k = 0 \<or> ?k = 2 \<and> cs \<noteq> [] \<and> cs ! 0 \<noteq> ?nl \<or> ?k = 3 \<and> length cs \<ge> 2 \<and> cs ! 0 \<noteq> ?nl \<and> cs ! 1 \<noteq> ?nl
    \<or> ?k = 4 \<and> length cs \<ge> 3 \<and> cs ! 0 \<noteq> ?nl \<and> cs ! 1 \<noteq> ?nl \<and> cs ! 2 \<noteq> ?nl"
    using assms by (auto simp: utf8_len_def dest: n)
  then show ?thesis
  proof (elim disjE conjE)
    assume "?k = 2" "cs \<noteq> []" "cs ! 0 \<noteq> ?nl"
    then show ?thesis using 0 by (cases cs) (simp_all add: numeral_2_eq_2)
  next
    assume "?k = 3" "length cs \<ge> 2" "cs ! 0 \<noteq> ?nl" "cs ! 1 \<noteq> ?nl"
    then show ?thesis using 0 by (cases cs; cases "tl cs") (auto simp: numeral_3_eq_3)
  next
    assume "?k = 4" "length cs \<ge> 3" "cs ! 0 \<noteq> ?nl" "cs ! 1 \<noteq> ?nl" "cs ! 2 \<noteq> ?nl"
    then show ?thesis using 0 by (cases cs; cases "tl cs"; cases "tl (tl cs)") (auto simp: numeral_eq_Suc)
  qed simp
qed

lemma one_line_json_chars: "one_line (json_chars n s)"
proof (induction n s rule: json_chars.induct)
  case (3 n c cs)
  then show ?case
    using utf8_high [of c cs] by (simp add: one_line_json_esc Let_def)
qed simp_all

lemma one_line_json_string: "one_line (json_string s)"
  by (simp add: json_string_def one_line_json_chars)

lemma one_line_entry: "one_line (log_entry chunk name t)"
  by (simp add: log_entry_def json_object_def one_line_json_string)

lemma one_line_stamp: "list_all one_line (stamp now name out cs)"
  by (induction cs arbitrary: out) (simp_all add: Let_def one_line_entry)

section \<open>Two loops and one output\<close>

text \<open>
  The loops over the standard output (\<open>True\<close>) and the standard error share the output through a
  lock: \<open>syncWrite\<close> takes it, writes the bytes of an entry and a newline and gives it back. The main
  function waits for the command only, so it may return at any time after the command has exited.
  The order in which the lock was taken is kept to speak about it.
\<close>

record shim =
  sh_todo :: "bool \<Rightarrow> string list"
  sh_lock :: "(bool \<times> string) option"
  sh_out :: string
  sh_order :: "(bool \<times> string) list"
  sh_exited :: bool
  sh_over :: bool

definition shim_start :: "(bool \<Rightarrow> string list) \<Rightarrow> shim" where
  "shim_start todo = \<lparr>sh_todo = todo, sh_lock = None, sh_out = [], sh_order = [], sh_exited = False, sh_over = False\<rparr>"

inductive shim_step :: "shim \<Rightarrow> shim \<Rightarrow> bool" where
  Lock: "\<not> sh_over s \<Longrightarrow> sh_lock s = None \<Longrightarrow> sh_todo s b = e # es
    \<Longrightarrow> shim_step s (s\<lparr>sh_todo := (sh_todo s)(b := es), sh_lock := Some (b, e @ [CHR 0x0A]), sh_order := sh_order s @ [(b, e)]\<rparr>)"
| Put: "\<not> sh_over s \<Longrightarrow> sh_lock s = Some (b, c # cs)
    \<Longrightarrow> shim_step s (s\<lparr>sh_out := sh_out s @ [c], sh_lock := Some (b, cs)\<rparr>)"
| Unlock: "\<not> sh_over s \<Longrightarrow> sh_lock s = Some (b, []) \<Longrightarrow> shim_step s (s\<lparr>sh_lock := None\<rparr>)"
| ChildExit: "\<not> sh_exited s \<Longrightarrow> shim_step s (s\<lparr>sh_exited := True\<rparr>)"
| WaitReturns: "\<not> sh_over s \<Longrightarrow> sh_exited s \<Longrightarrow> shim_step s (s\<lparr>sh_over := True\<rparr>)"

inductive_cases shim_stepE: "shim_step s s'"

abbreviation shim_run :: "(bool \<Rightarrow> string list) \<Rightarrow> shim \<Rightarrow> bool" where
  "shim_run todo s \<equiv> shim_step\<^sup>*\<^sup>* (shim_start todo) s"

definition lines_of :: "string list \<Rightarrow> string" where
  "lines_of es = concat (map (\<lambda>e. e @ [CHR 0x0A]) es)"

definition taken :: "bool \<Rightarrow> (bool \<times> string) list \<Rightarrow> string list" where
  "taken b order = map snd (filter (\<lambda>x. fst x = b) order)"

definition unwritten :: "(bool \<times> string) option \<Rightarrow> string" where
  "unwritten l = (case l of None \<Rightarrow> [] | Some (b, t) \<Rightarrow> t)"

lemma lines_of_simps [simp]: "lines_of [] = []" "lines_of (es @ fs) = lines_of es @ lines_of fs" "lines_of [e] = e @ [CHR 0x0A]"
  by (simp_all add: lines_of_def)

definition shim_inv :: "(bool \<Rightarrow> string list) \<Rightarrow> shim \<Rightarrow> bool" where
  "shim_inv todo s \<longleftrightarrow> sh_out s @ unwritten (sh_lock s) = lines_of (map snd (sh_order s))
     \<and> (\<forall>b. taken b (sh_order s) @ sh_todo s b = todo b)"

lemma taken_simps [simp]: "taken b [] = []" "taken b (order @ [(b', e)]) = taken b order @ (if b' = b then [e] else [])"
  by (simp_all add: taken_def)

lemma shim_inv_step: "shim_step s s' \<Longrightarrow> shim_inv todo s \<Longrightarrow> shim_inv todo s'"
proof (induction rule: shim_step.induct)
  case (Lock s b e es)
  then have "taken b (sh_order s) @ e # es = todo b" unfolding shim_inv_def by metis
  with Lock show ?case by (simp add: shim_inv_def unwritten_def)
qed (simp_all add: shim_inv_def unwritten_def)

interpretation sh: machine shim_step "shim_start todo" "shim_inv todo" for todo
  by unfold_locales (simp add: shim_inv_def shim_start_def unwritten_def, rule shim_inv_step)

lemma Split_lines_of: "list_all one_line es \<Longrightarrow> Split (CHR 0x0A) (lines_of es) = es @ [[]]"
  by (induction es) (simp_all add: lines_of_def Split_append_sep one_line_def)

section \<open>The exit status\<close>

datatype wait_result = Exited int | WaitError goerr

text \<open>
  The status the system sees, of eight bits: that of the command, 255 for one killed by a signal and
  for no command at all, and 1 for \<open>log.Fatalf\<close>.
\<close>

definition shim_status :: "string list \<Rightarrow> goerr + unit \<Rightarrow> goerr + unit \<Rightarrow> wait_result \<Rightarrow> int" where
  "shim_status args pipes start wait =
     (if length args < 2 then - 1 mod 256
      else case pipes of Inl e \<Rightarrow> 1 | Inr u \<Rightarrow>
        (case start of Inl e \<Rightarrow> 1 | Inr u \<Rightarrow>
          (case wait of Exited code \<Rightarrow> code mod 256 | WaitError e \<Rightarrow> 1)))"

section \<open>Properties\<close>

text \<open>
  C29. A stream that ends is logged whole: the loop ends for every stream, without failing, and what
  it appends are the entries of pieces that put together are the stream, none longer than the
  buffer, with a newline only at the end of a piece, and only the last one neither a full buffer
  nor ended by a newline; read back, an entry is its piece with U+FFFD for what is no UTF-8, and
  every entry is a single line.
\<close>

theorem stream_logged:
  "\<exists>cs es. concat cs = s \<and> pieces bufsize cs
     \<and> streamLoop now (\<lambda>es. None) name None s out = (Returned, out @ es)
     \<and> map entry_log es = map (Some \<circ> valid_text) cs \<and> list_all one_line es"
  using streamLoop_stamp [of s now name out] stamp_logs one_line_stamp by blast

text \<open>
  C28. Entries of the two streams are never mixed: in every reachable state the output is whole lines,
  those of each stream in the order of the stream, but that the last of them, while an entry is being
  written, may still lack its end, which is what the holder of the lock has left to write; whenever
  the lock is free the lines of the output are exactly the entries written so far. A run that ends
  while the lock is held leaves such a beginning at the end of the log.
\<close>

theorem log_lines_whole:
  assumes "shim_run todo s" "list_all one_line (todo True)" "list_all one_line (todo False)"
  shows "\<exists>order. sh_out s @ unwritten (sh_lock s) = lines_of (map snd order) \<and> (\<forall>b. prefix (taken b order) (todo b))
    \<and> (sh_lock s = None \<longrightarrow> Split (CHR 0x0A) (sh_out s) = map snd order @ [[]])"
proof -
  let ?o = "sh_order s"
  from sh.holds [OF assms(1)] have inv: "sh_out s @ unwritten (sh_lock s) = lines_of (map snd ?o)"
    "\<And>b. taken b ?o @ sh_todo s b = todo b" by (simp_all add: shim_inv_def)
  have pre: "prefix (taken b ?o) (todo b)" for b
    using inv(2) [of b] by (metis prefixI)
  have "one_line (snd x)" if "x \<in> set ?o" for x
  proof -
    have "snd x \<in> set (taken (fst x) ?o)" using that by (auto simp: taken_def)
    then have "snd x \<in> set (todo (fst x))" using set_mono_prefix [OF pre] by blast
    then show ?thesis using assms(2,3) by (cases "fst x") (auto simp: list_all_iff)
  qed
  then have "list_all one_line (map snd ?o)" by (simp add: list_all_iff)
  from Split_lines_of [OF this] inv(1) pre show ?thesis
    by (intro exI [of _ ?o]) (auto simp: unwritten_def)
qed

text \<open>An entry of one byte, written and unlocked.\<close>

lemma one_entry_run:
  "\<exists>s. shim_run (\<lambda>b. if b then [''x''] else []) s \<and> sh_out s = [CHR ''x'', CHR 0x0A] \<and> sh_lock s = None"
proof -
  let ?t = "\<lambda>b. if b then [''x''] else []"
  let ?s = "shim_start ?t"
  let ?s1 = "?s\<lparr>sh_todo := (sh_todo ?s)(True := []), sh_lock := Some (True, ''x'' @ [CHR 0x0A]), sh_order := sh_order ?s @ [(True, ''x'')]\<rparr>"
  let ?s2 = "?s1\<lparr>sh_out := sh_out ?s1 @ [CHR ''x''], sh_lock := Some (True, [CHR 0x0A])\<rparr>"
  let ?s3 = "?s2\<lparr>sh_out := sh_out ?s2 @ [CHR 0x0A], sh_lock := Some (True, [])\<rparr>"
  let ?s4 = "?s3\<lparr>sh_lock := None\<rparr>"
  have "shim_step ?s ?s1" by (rule Lock) (simp_all add: shim_start_def)
  moreover have "shim_step ?s1 ?s2" by (rule Put) (simp_all add: shim_start_def)
  moreover have "shim_step ?s2 ?s3" by (rule Put) (simp_all add: shim_start_def)
  moreover have "shim_step ?s3 ?s4" by (rule Unlock) (simp_all add: shim_start_def)
  ultimately have "shim_run ?t ?s4" by (meson rtranclp.rtrancl_refl rtranclp.rtrancl_into_rtrancl)
  moreover have "sh_out ?s4 = [CHR ''x'', CHR 0x0A] \<and> sh_lock ?s4 = None" by (simp add: shim_start_def)
  ultimately show ?thesis by blast
qed

theorem log_lines_whole_witness:
  "\<exists>s order. shim_run (\<lambda>b. if b then [''x''] else []) s \<and> prefix (taken True order) [''x'']
     \<and> sh_out s = lines_of (map snd order) \<and> sh_out s \<noteq> []"
proof -
  obtain s where s: "shim_run (\<lambda>b. if b then [''x''] else []) s" "sh_out s = [CHR ''x'', CHR 0x0A]" "sh_lock s = None"
    using one_entry_run by blast
  obtain order where o: "sh_out s @ unwritten (sh_lock s) = lines_of (map snd order)"
    "\<forall>b. prefix (taken b order) (if b then [''x''] else [])"
    using log_lines_whole [OF s(1)] by auto
  from o(2) have "prefix (taken True order) [''x'']" by (metis (full_types))
  moreover have "lines_of (map snd order) = [CHR ''x'', CHR 0x0A]" using o(1) s by (simp add: unwritten_def)
  ultimately show ?thesis using s by (intro exI [of _ s] exI [of _ order]) simp
qed

text \<open>
  Output may be lost: the main function waits for the command and not for the loops, so for any
  entries there is a run that ends with nothing of them written, and one that ends in the middle of
  an entry, whatever the exit status of the command is.
\<close>

theorem log_lost_at_exit:
  "(\<exists>s. shim_run todo s \<and> sh_over s \<and> sh_todo s = todo \<and> sh_out s = [])
   \<and> (todo b = (c # e) # es \<longrightarrow> (\<exists>s. shim_run todo s \<and> sh_over s \<and> sh_out s = [c]))"
proof (intro conjI impI)
  let ?s = "shim_start todo"
  let ?s1 = "?s\<lparr>sh_exited := True\<rparr>"
  have 1: "shim_step ?s ?s1" by (rule ChildExit) (simp add: shim_start_def)
  have "shim_step ?s1 (?s1\<lparr>sh_over := True\<rparr>)" by (rule WaitReturns) (simp_all add: shim_start_def)
  with 1 have "shim_run todo (?s1\<lparr>sh_over := True\<rparr>)" by (meson rtranclp.rtrancl_refl rtranclp.rtrancl_into_rtrancl)
  then show "\<exists>s. shim_run todo s \<and> sh_over s \<and> sh_todo s = todo \<and> sh_out s = []"
    by (intro exI [of _ "?s1\<lparr>sh_over := True\<rparr>"]) (simp add: shim_start_def)
  assume t: "todo b = (c # e) # es"
  let ?s2 = "?s1\<lparr>sh_todo := (sh_todo ?s1)(b := es), sh_lock := Some (b, (c # e) @ [CHR 0x0A]), sh_order := sh_order ?s1 @ [(b, c # e)]\<rparr>"
  let ?s3 = "?s2\<lparr>sh_out := sh_out ?s2 @ [c], sh_lock := Some (b, e @ [CHR 0x0A])\<rparr>"
  let ?s4 = "?s3\<lparr>sh_over := True\<rparr>"
  have "shim_step ?s1 ?s2" by (rule Lock) (simp_all add: shim_start_def t)
  moreover have "shim_step ?s2 ?s3" by (rule Put) (simp_all add: shim_start_def)
  moreover have "shim_step ?s3 ?s4" by (rule WaitReturns) (simp_all add: shim_start_def)
  ultimately have "shim_run todo ?s4" using 1 by (meson rtranclp.rtrancl_refl rtranclp.rtrancl_into_rtrancl)
  then show "\<exists>s. shim_run todo s \<and> sh_over s \<and> sh_out s = [c]"
    by (intro exI [of _ ?s4]) (simp add: shim_start_def)
qed

theorem log_lost_at_exit_witness: "\<exists>s. shim_run (\<lambda>b. [''xy'']) s \<and> sh_over s \<and> sh_out s = ''x''"
  using log_lost_at_exit [of "\<lambda>b. [''xy'']" True "CHR ''x''" "''y''" "[]"] by simp

text \<open>
  A character that lies across the end of a full buffer is destroyed: the valid text of 16383
  letters and one character of two bytes is logged as two entries whose texts hold U+FFFD twice in
  place of the character.
\<close>

theorem wide_character_split:
  "\<exists>es. streamLoop now (\<lambda>es. None) name None (replicate (bufsize - 1) (CHR ''a'') @ [CHR 0xC3, CHR 0xA9]) [] = (Returned, es)
     \<and> map entry_log es = [Some (replicate (bufsize - 1) (CHR ''a'') @ replacement_char), Some replacement_char]
     \<and> valid_text (replicate (bufsize - 1) (CHR ''a'') @ [CHR 0xC3, CHR 0xA9]) = replicate (bufsize - 1) (CHR ''a'') @ [CHR 0xC3, CHR 0xA9]"
proof -
  let ?a = "replicate (bufsize - 1) (CHR ''a'')" and ?c = "[CHR 0xC3, CHR 0xA9]"
  obtain m where m: "bufsize = Suc m" by (simp add: bufsize_def)
  have tw: "takeWhile (\<lambda>c. c \<noteq> CHR 0x0A) (replicate m (CHR ''a'') @ ?c) = replicate m (CHR ''a'') @ ?c" "takeWhile (\<lambda>c. c \<noteq> CHR 0x0A) [CHR 0xA9] = [CHR 0xA9]"
    by (subst takeWhile_append2) auto
  have r1: "ReadSlice bufsize None (?a @ ?c) = (?a @ [CHR 0xC3], ErrBufferFull, [CHR 0xA9])"
    by (simp add: ReadSlice_def Let_def m tw(1))
  have r2: "ReadSlice bufsize None [CHR 0xA9] = ([CHR 0xA9], EOF, [])"
    using tw(2) by (simp add: ReadSlice_def Let_def end_err_def bufsize_def)
  have ascii: "to_valid (k + j) (replicate k (CHR ''a'') @ t) = replicate k (CHR ''a'') @ to_valid j t" for k j t
    by (induction k) (simp_all add: byte_in_def)
  have v: "to_valid 2 ?c = ?c" "to_valid 1 [CHR 0xC3] = replacement_char" "to_valid 1 [CHR 0xA9] = replacement_char"
    by (simp_all add: numeral_2_eq_2 utf8_front_def utf8_len_def byte_in_def Let_def)
  have "valid_text (?a @ [CHR 0xC3]) = ?a @ replacement_char" "valid_text [CHR 0xA9] = replacement_char" "valid_text (?a @ ?c) = ?a @ ?c"
    using ascii [of "bufsize - 1" 1 "[CHR 0xC3]"] ascii [of "bufsize - 1" 2 ?c] v by (simp_all add: valid_text_def numeral_2_eq_2)
  moreover define a where "a = ?a"
  ultimately show ?thesis
    using r1 r2 unfolding a_def [symmetric]
    by (simp add: streamLoop.simps [of _ _ _ _ "a @ ?c"] streamLoop.simps [of _ _ _ _ "[CHR 0xA9]"] Let_def entry_log_entry)
qed

end
