(* ===== verification/Remount.thy ===== *)
theory Remount
  imports Go_Numbers
begin

text \<open>
  Remounting a path inside a container (remountContainerPath in privileged.go): a thread of its own
  enters the namespaces of a task of the container and clears the read-only flag of a mount there.
  A program over the state of this thread, which is never used again; the descriptors and the mounts
  are what it leaves to the process.
\<close>

section \<open>The thread and the kernel\<close>

text \<open>
  The mount namespace of the thread, the pid namespace of its children, whether it shares its root
  and working directory with the other threads, the descriptors it opened, each with the namespace
  it is of, and the mounts made writable, each with the namespace it was done in.
\<close>

record mnt_thread =
  mt_mnt :: string
  mt_pid :: string
  mt_shared_fs :: bool
  mt_fds :: "(int \<times> string) list"
  mt_remounted :: "(string \<times> string) list"

record mnt_kernel =
  mk_open :: "mnt_thread \<Rightarrow> string \<Rightarrow> goerr + int"
  mk_netns :: "string \<Rightarrow> string"
  mk_unshare :: "mnt_thread \<Rightarrow> goerr + unit"
  mk_setns :: "mnt_thread \<Rightarrow> int \<Rightarrow> goerr + unit"
  mk_mount :: "mnt_thread \<Rightarrow> string \<Rightarrow> goerr + unit"

type_synonym 'a on_mnt = "(mnt_thread, 'a) io"

definition OpenFd :: "mnt_kernel \<Rightarrow> string \<Rightarrow> (goerr + int) on_mnt" where
  "OpenFd K path = State (\<lambda>t. case mk_open K t path of
     Inl e \<Rightarrow> (Inl e, t) | Inr fd \<Rightarrow> (Inr fd, t\<lparr>mt_fds := (fd, mk_netns K path) # mt_fds t\<rparr>))"

definition CloseMntFd :: "int \<Rightarrow> unit on_mnt" where
  "CloseMntFd fd = State (\<lambda>t. ((), t\<lparr>mt_fds := AList.delete fd (mt_fds t)\<rparr>))"

definition UnshareFs :: "mnt_kernel \<Rightarrow> (goerr + unit) on_mnt" where
  "UnshareFs K = State (\<lambda>t. case mk_unshare K t of Inl e \<Rightarrow> (Inl e, t) | Inr u \<Rightarrow> (Inr u, t\<lparr>mt_shared_fs := False\<rparr>))"

definition SetnsPid :: "mnt_kernel \<Rightarrow> int \<Rightarrow> (goerr + unit) on_mnt" where
  "SetnsPid K fd = State (\<lambda>t. case map_of (mt_fds t) fd of
     None \<Rightarrow> (Inl (OsError ''bad file descriptor''), t)
   | Some ns \<Rightarrow> (case mk_setns K t fd of Inl e \<Rightarrow> (Inl e, t) | Inr u \<Rightarrow> (Inr u, t\<lparr>mt_pid := ns\<rparr>)))"

text \<open>The kernel refuses a thread that shares its file-system state.\<close>

definition SetnsMnt :: "mnt_kernel \<Rightarrow> int \<Rightarrow> (goerr + unit) on_mnt" where
  "SetnsMnt K fd = State (\<lambda>t. case map_of (mt_fds t) fd of
     None \<Rightarrow> (Inl (OsError ''bad file descriptor''), t)
   | Some ns \<Rightarrow>
       if mt_shared_fs t then (Inl (OsError ''invalid argument''), t)
       else (case mk_setns K t fd of Inl e \<Rightarrow> (Inl e, t) | Inr u \<Rightarrow> (Inr u, t\<lparr>mt_mnt := ns\<rparr>)))"

definition MountRw :: "mnt_kernel \<Rightarrow> string \<Rightarrow> (goerr + unit) on_mnt" where
  "MountRw K path = State (\<lambda>t. case mk_mount K t path of
     Inl e \<Rightarrow> (Inl e, t) | Inr u \<Rightarrow> (Inr u, t\<lparr>mt_remounted := (mt_mnt t, path) # mt_remounted t\<rparr>))"

section \<open>enterNsAndRemountPath\<close>

definition or_wrap :: "string \<Rightarrow> (goerr + unit) on_mnt \<Rightarrow> unit res on_mnt \<Rightarrow> unit res on_mnt" where
  "or_wrap what m k = call_or (WrapW what) m (\<lambda>u. k)"

definition remount_entered :: "mnt_kernel \<Rightarrow> int \<Rightarrow> int \<Rightarrow> string \<Rightarrow> unit res on_mnt" where
  "remount_entered K pidFd mntFd target =
     or_wrap ''unshare CLONE_FS'' (UnshareFs K)
     (or_wrap ''setns pid'' (SetnsPid K pidFd)
     (or_wrap ''setns mnt'' (SetnsMnt K mntFd)
     (or_wrap ''remount'' (MountRw K target) (ret (Ok ())))))"

text \<open>The deferred closes run on every return after the descriptor was opened, the latest first.\<close>

definition with_fd :: "mnt_kernel \<Rightarrow> string \<Rightarrow> (int \<Rightarrow> unit res on_mnt) \<Rightarrow> unit res on_mnt" where
  "with_fd K path body = call_or (WrapW ''open'') (OpenFd K path) (\<lambda>fd. do {
     r \<leftarrow> body fd;
     u \<leftarrow> CloseMntFd fd;
     ret r
   })"

definition enterNsAndRemountPath :: "mnt_kernel \<Rightarrow> int \<Rightarrow> string \<Rightarrow> unit res on_mnt" where
  "enterNsAndRemountPath K pid target =
     with_fd K (''/proc/'' @ itoa pid @ ''/ns/pid'') (\<lambda>pidFd.
     with_fd K (''/proc/'' @ itoa pid @ ''/ns/mnt'') (\<lambda>mntFd.
     remount_entered K pidFd mntFd target))"

text \<open>
  \<open>remountContainerPath\<close> does it on a locked thread of its own, which begins with the namespaces of its
  creator, sharing the state of the file system with it, and dies with the goroutine. What is left
  to the caller is what the whole process has: the descriptors, and the mounts that were changed.
\<close>

definition on_new_thread :: "'a on_mnt \<Rightarrow> 'a on_mnt" where
  "on_new_thread m = State (\<lambda>t. case run_state m (t\<lparr>mt_shared_fs := True\<rparr>) of
     (r, t1) \<Rightarrow> (r, t\<lparr>mt_fds := mt_fds t1, mt_remounted := mt_remounted t1\<rparr>))"

definition remountContainerPath :: "mnt_kernel \<Rightarrow> int \<Rightarrow> string \<Rightarrow> unit res on_mnt" where
  "remountContainerPath K pid target = on_new_thread (enterNsAndRemountPath K pid target)"

section \<open>What it leaves\<close>

definition fresh_mnt_fds :: "mnt_kernel \<Rightarrow> bool" where
  "fresh_mnt_fds K \<longleftrightarrow> (\<forall>t path fd. mk_open K t path = Inr fd \<longrightarrow> fd \<notin> fst ` set (mt_fds t))"

text \<open>The mounts done, and whether the step succeeded, when the mount namespace to enter is \<open>ns\<close>.\<close>

definition remounted :: "string \<Rightarrow> string \<Rightarrow> mnt_thread \<Rightarrow> unit res \<Rightarrow> mnt_thread \<Rightarrow> bool" where
  "remounted ns target t r t' \<longleftrightarrow> mt_fds t' = mt_fds t
     \<and> (if r = Ok () then mt_remounted t' = (ns, target) # mt_remounted t \<and> \<not> mt_shared_fs t' \<and> mt_mnt t' = ns
        else mt_remounted t' = mt_remounted t)"

lemma run_remount_entered:
  assumes "run_state (remount_entered K pidFd mntFd target) t = (r, t')" "map_of (mt_fds t) mntFd = Some ns"
  shows "remounted ns target t r t'"
  using assms
  by (auto simp: remount_entered_def or_wrap_def run_call_or UnshareFs_def SetnsPid_def SetnsMnt_def MountRw_def remounted_def
      split: sum.splits option.splits if_splits)

lemma run_with_fd:
  assumes run: "run_state (with_fd K path body) t = (r, t')" and fresh: "fresh_mnt_fds K"
    and body: "\<And>fd t1 r1 t2. t1 = t\<lparr>mt_fds := (fd, mk_netns K path) # mt_fds t\<rparr> \<Longrightarrow> fd \<notin> fst ` set (mt_fds t)
      \<Longrightarrow> run_state (body fd) t1 = (r1, t2) \<Longrightarrow> remounted ns target t1 r1 t2"
  shows "remounted ns target t r t'"
proof (cases "mk_open K t path")
  case (Inl e)
  with run show ?thesis by (auto simp: with_fd_def OpenFd_def run_call_or remounted_def)
next
  case (Inr fd)
  let ?t1 = "t\<lparr>mt_fds := (fd, mk_netns K path) # mt_fds t\<rparr>"
  obtain r1 t2 where b: "run_state (body fd) ?t1 = (r1, t2)" by (rule prod.exhaust)
  have f: "fd \<notin> fst ` set (mt_fds t)" using fresh [unfolded fresh_mnt_fds_def, rule_format, OF Inr] .
  have "r = r1" "t' = t2\<lparr>mt_fds := AList.delete fd (mt_fds t2)\<rparr>"
    using run Inr b by (simp_all add: with_fd_def OpenFd_def CloseMntFd_def run_call_or)
  with body [OF refl f b] f show ?thesis by (simp add: remounted_def delete_id split: if_splits)
qed

lemma enter_remounts:
  assumes "fresh_mnt_fds K" "run_state (enterNsAndRemountPath K pid target) t = (r, t')"
  shows "remounted (mk_netns K (''/proc/'' @ itoa pid @ ''/ns/mnt'')) target t r t'"
  using assms(2) unfolding enterNsAndRemountPath_def
proof (rule run_with_fd [OF _ assms(1)])
  fix fd :: int and t1 t2 :: mnt_thread and r1 :: "unit res"
  assume "run_state (with_fd K (''/proc/'' @ itoa pid @ ''/ns/mnt'') (\<lambda>mntFd. remount_entered K fd mntFd target)) t1 = (r1, t2)"
  then show "remounted (mk_netns K (''/proc/'' @ itoa pid @ ''/ns/mnt'')) target t1 r1 t2"
    by (rule run_with_fd [OF _ assms(1)]) (rule run_remount_entered, assumption, simp)
qed

section \<open>Properties\<close>

text \<open>
  C35. Making a mount of a container writable touches that container only: whatever fails, every
  descriptor is closed, and a mount is changed only on success, exactly one, the one asked for, in
  the mount namespace of the task and never in that of the host, on a thread that has stopped
  sharing its file-system state with the others.
\<close>

theorem remount_in_target:
  assumes "fresh_mnt_fds K" "run_state (remountContainerPath K pid target) t = (r, t')"
  shows "mt_mnt t' = mt_mnt t \<and> mt_pid t' = mt_pid t \<and> mt_shared_fs t' = mt_shared_fs t \<and> mt_fds t' = mt_fds t
    \<and> mt_remounted t' = (if r = Ok () then [(mk_netns K (''/proc/'' @ itoa pid @ ''/ns/mnt''), target)] else []) @ mt_remounted t"
proof -
  obtain t1 where e: "run_state (enterNsAndRemountPath K pid target) (t\<lparr>mt_shared_fs := True\<rparr>) = (r, t1)"
    and t': "t' = t\<lparr>mt_fds := mt_fds t1, mt_remounted := mt_remounted t1\<rparr>"
    using assms(2) by (auto simp: remountContainerPath_def on_new_thread_def split: prod.splits)
  from enter_remounts [OF assms(1) e] show ?thesis by (simp add: t' remounted_def split: if_splits)
qed

text \<open>A kernel that allows everything.\<close>

definition free_kernel :: mnt_kernel where
  "free_kernel = \<lparr>mk_open = (\<lambda>t path. Inr (int (Suc (\<Sum>f\<leftarrow>mt_fds t. nat (fst f))))), mk_netns = (\<lambda>path. ''ns of '' @ path),
     mk_unshare = (\<lambda>t. Inr ()), mk_setns = (\<lambda>t fd. Inr ()), mk_mount = (\<lambda>t path. Inr ())\<rparr>"

definition host_mnt :: mnt_thread where
  "host_mnt = \<lparr>mt_mnt = ''host'', mt_pid = ''host'', mt_shared_fs = True, mt_fds = [], mt_remounted = []\<rparr>"

lemma fresh_free_kernel: "fresh_mnt_fds free_kernel"
  unfolding fresh_mnt_fds_def
proof (intro allI impI)
  fix t :: mnt_thread and path fd
  assume "mk_open free_kernel t path = Inr fd"
  then have "fd = int (Suc (\<Sum>f\<leftarrow>mt_fds t. nat (fst f)))" by (simp add: free_kernel_def)
  then show "fd \<notin> fst ` set (mt_fds t)" by (simp only: unused_key not_False_eq_True)
qed

lemma free_kernel_run: "\<exists>t'. run_state (enterNsAndRemountPath free_kernel 7 ''/sys'') host_mnt = (Ok (), t')"
  by (simp add: enterNsAndRemountPath_def with_fd_def remount_entered_def or_wrap_def OpenFd_def CloseMntFd_def UnshareFs_def
      SetnsPid_def SetnsMnt_def MountRw_def free_kernel_def host_mnt_def run_call_or)

theorem remount_in_target_witness:
  "\<exists>t'. run_state (remountContainerPath free_kernel 7 ''/sys'') host_mnt = (Ok (), t')
     \<and> mt_mnt t' = ''host'' \<and> mt_fds t' = [] \<and> mt_remounted t' = [(''ns of /proc/'' @ itoa 7 @ ''/ns/mnt'', ''/sys'')]"
proof -
  have "host_mnt\<lparr>mt_shared_fs := True\<rparr> = host_mnt" by (simp add: host_mnt_def)
  with free_kernel_run obtain t' where r: "run_state (remountContainerPath free_kernel 7 ''/sys'') host_mnt = (Ok (), t')"
    by (auto simp: remountContainerPath_def on_new_thread_def)
  from remount_in_target [OF fresh_free_kernel r] r show ?thesis
    by (simp add: free_kernel_def host_mnt_def)
qed

end
