(* ===== verification/Serving.thy ===== *)
theory Serving
  imports Machines
begin

text \<open>
  Serving and shutdown (main in main.go; Serve, Shutdown and ShutdownCtx in server.go), from the start
  of the program to its end, as a machine: the main function, the goroutine that calls \<open>Serve\<close> of
  gRPC, the requests accepted, and the goroutine that waits for a signal.
\<close>

section \<open>The machine\<close>

text \<open>
  The main function starts (Server has the steps of it), waits for the cancelled context, then for
  \<open>GracefulStop\<close>, and returns. Serving by gRPC has not begun, goes on, or was closed, and that perhaps
  before it began. The channel of the signals holds one; requests are numbered as they are accepted.
  The streaming server has sessions of its own.
\<close>

datatype main_phase = Starting | Serves | Stopping | Ended int

datatype serve_phase = Not_called | Accepting | Closed | Closed_early

record serving =
  sv_main :: main_phase
  sv_serve :: serve_phase
  sv_signal :: bool
  sv_cancelled :: bool
  sv_accepted :: nat
  sv_pending :: "nat set"
  sv_answered :: "nat set"
  sv_sessions :: nat

definition serving_start :: serving where
  "serving_start = \<lparr>sv_main = Starting, sv_serve = Not_called, sv_signal = False, sv_cancelled = False, sv_accepted = 0,
     sv_pending = {}, sv_answered = {}, sv_sessions = 0\<rparr>"

definition running :: "serving \<Rightarrow> bool" where
  "running s \<longleftrightarrow> (case sv_main s of Ended k \<Rightarrow> False | _ \<Rightarrow> True)"

text \<open>
  The steps of the program. A configuration or a logger that fails makes main return, which is status
  0; the later failures of the start are fatal. \<open>Serve\<close> runs in a goroutine of its own, so that
  \<open>GracefulStop\<close> may come before it. Of the gRPC library the rules state what it documents:
  \<open>GracefulStop\<close> closes the listener and then waits for the requests accepted until then; \<open>Serve\<close> on a
  server that was stopped fails, which is fatal here, and returns without an error when it is
  stopped later. Only one signal is ever taken out of the channel.
\<close>

inductive serving_own :: "serving \<Rightarrow> serving \<Rightarrow> bool" where
  Start_fails: "sv_main s = Starting \<Longrightarrow> serving_own s (s\<lparr>sv_main := Ended 0\<rparr>)"
| Start_fatal: "sv_main s = Starting \<Longrightarrow> serving_own s (s\<lparr>sv_main := Ended 1\<rparr>)"
| Started: "sv_main s = Starting \<Longrightarrow> serving_own s (s\<lparr>sv_main := Serves\<rparr>)"
| Cancel: "running s \<Longrightarrow> sv_signal s \<Longrightarrow> \<not> sv_cancelled s \<Longrightarrow> serving_own s (s\<lparr>sv_signal := False, sv_cancelled := True\<rparr>)"
| Serve_called: "sv_main s = Serves \<or> sv_main s = Stopping \<Longrightarrow> sv_serve s = Not_called \<Longrightarrow> serving_own s (s\<lparr>sv_serve := Accepting\<rparr>)"
| Shutdown: "sv_main s = Serves \<Longrightarrow> sv_cancelled s \<Longrightarrow> serving_own s (s\<lparr>sv_main := Stopping\<rparr>)"
| Close: "sv_main s = Stopping \<Longrightarrow> sv_serve s = Accepting \<Longrightarrow> serving_own s (s\<lparr>sv_serve := Closed\<rparr>)"
| Close_early: "sv_main s = Stopping \<Longrightarrow> sv_serve s = Not_called \<Longrightarrow> serving_own s (s\<lparr>sv_serve := Closed_early\<rparr>)"
| Serve_late: "sv_main s = Stopping \<Longrightarrow> sv_serve s = Closed_early \<Longrightarrow> serving_own s (s\<lparr>sv_main := Ended 1\<rparr>)"
| Drained: "sv_main s = Stopping \<Longrightarrow> sv_serve s \<in> {Closed, Closed_early} \<Longrightarrow> sv_pending s = {}
    \<Longrightarrow> serving_own s (s\<lparr>sv_main := Ended 0\<rparr>)"

text \<open>
  What comes from outside: signals, requests, the return of a handler, sessions of the streaming
  server, which do not belong to gRPC, and a listener that fails. A handler need not return. Nobody
  recovers from a panic of a handler, which ends the process at once.
\<close>

inductive serving_env :: "serving \<Rightarrow> serving \<Rightarrow> bool" where
  Signal: "running s \<Longrightarrow> serving_env s (s\<lparr>sv_signal := True\<rparr>)"
| Accept: "running s \<Longrightarrow> sv_serve s = Accepting
    \<Longrightarrow> serving_env s (s\<lparr>sv_accepted := Suc (sv_accepted s), sv_pending := insert (sv_accepted s) (sv_pending s)\<rparr>)"
| Answer: "running s \<Longrightarrow> r \<in> sv_pending s
    \<Longrightarrow> serving_env s (s\<lparr>sv_pending := sv_pending s - {r}, sv_answered := insert r (sv_answered s)\<rparr>)"
| Attach: "running s \<Longrightarrow> serving_env s (s\<lparr>sv_sessions := Suc (sv_sessions s)\<rparr>)"
| Detach: "running s \<Longrightarrow> sv_sessions s = Suc n \<Longrightarrow> serving_env s (s\<lparr>sv_sessions := n\<rparr>)"
| Panics: "running s \<Longrightarrow> r \<in> sv_pending s \<Longrightarrow> serving_env s (s\<lparr>sv_main := Ended 2\<rparr>)"
| Serve_fails: "running s \<Longrightarrow> sv_serve s = Accepting \<Longrightarrow> serving_env s (s\<lparr>sv_main := Ended 1\<rparr>)"

definition serving_step :: "serving \<Rightarrow> serving \<Rightarrow> bool" where
  "serving_step s s' \<longleftrightarrow> serving_own s s' \<or> serving_env s s'"

lemma own_serving: "serving_own s s' \<Longrightarrow> serving_step s s'"
  and env_serving: "serving_env s s' \<Longrightarrow> serving_step s s'"
  by (simp_all add: serving_step_def)

inductive_cases serving_ownE: "serving_own s s'"
inductive_cases serving_envE: "serving_env s s'"

abbreviation serving_run :: "serving \<Rightarrow> bool" where
  "serving_run s \<equiv> serving_step\<^sup>*\<^sup>* serving_start s"

section \<open>What always holds\<close>

definition requests_inv :: "serving \<Rightarrow> bool" where
  "requests_inv s \<longleftrightarrow> sv_pending s \<union> sv_answered s = {..<sv_accepted s} \<and> sv_pending s \<inter> sv_answered s = {}"

definition phases_inv :: "serving \<Rightarrow> bool" where
  "phases_inv s \<longleftrightarrow> (case sv_main s of
       Starting \<Rightarrow> sv_serve s = Not_called
     | Serves \<Rightarrow> sv_serve s = Not_called \<or> sv_serve s = Accepting
     | Stopping \<Rightarrow> sv_cancelled s
     | Ended k \<Rightarrow> k = 0 \<longrightarrow> sv_pending s = {} \<and> (sv_cancelled s \<or> sv_serve s = Not_called))
   \<and> (sv_serve s = Not_called \<longrightarrow> sv_accepted s = 0)"

definition serving_inv :: "serving \<Rightarrow> bool" where
  "serving_inv s \<longleftrightarrow> requests_inv s \<and> phases_inv s"

lemma requests_inv_step: "serving_step s s' \<Longrightarrow> requests_inv s \<Longrightarrow> requests_inv s'"
  unfolding serving_step_def
proof (elim disjE)
  assume "serving_env s s'" "requests_inv s"
  then show "requests_inv s'"
  proof (induction rule: serving_env.induct)
    case (Accept s)
    then have "sv_accepted s \<notin> sv_answered s" "sv_pending s \<union> sv_answered s = {..<sv_accepted s}"
      unfolding requests_inv_def by blast+
    with Accept show ?case by (auto simp: requests_inv_def lessThan_Suc)
  next
    case (Answer s r)
    then have "insert r (sv_pending s - {r} \<union> sv_answered s) = sv_pending s \<union> sv_answered s" by blast
    with Answer show ?case by (auto simp: requests_inv_def)
  qed (simp_all add: requests_inv_def)
qed (auto simp: requests_inv_def elim!: serving_ownE)

lemma serving_inv_step: "serving_step s s' \<Longrightarrow> serving_inv s \<Longrightarrow> serving_inv s'"
  unfolding serving_inv_def
proof (elim conjE, intro conjI)
  assume step: "serving_step s s'" and inv: "requests_inv s" "phases_inv s"
  show "requests_inv s'" by (rule requests_inv_step [OF step inv(1)])
  have empty: "sv_pending s = {}" if "sv_accepted s = 0" using inv(1) that by (auto simp: requests_inv_def)
  show "phases_inv s'"
    using step unfolding serving_step_def
  proof
    assume "serving_own s s'"
    from this inv(2) empty show ?thesis by (cases rule: serving_own.cases) (auto simp: phases_inv_def running_def split: main_phase.splits)
  next
    assume "serving_env s s'"
    from this inv(2) empty show ?thesis by (cases rule: serving_env.cases) (auto simp: phases_inv_def running_def split: main_phase.splits)
  qed
qed

text \<open>What the program can still do by itself.\<close>

definition serving_left :: "serving \<Rightarrow> nat" where
  "serving_left s = (case sv_main s of Starting \<Rightarrow> 3 | Serves \<Rightarrow> 2 | Stopping \<Rightarrow> 1 | Ended k \<Rightarrow> 0)
     + (case sv_serve s of Not_called \<Rightarrow> 2 | Accepting \<Rightarrow> 1 | _ \<Rightarrow> 0) + (if sv_cancelled s then 0 else 1)"

interpretation sv: bounded_machine serving_step serving_start serving_inv serving_own serving_left
proof
  show "serving_inv serving_start" by (simp add: serving_inv_def requests_inv_def phases_inv_def serving_start_def)
  show "serving_step s s' \<Longrightarrow> serving_inv s \<Longrightarrow> serving_inv s'" for s s' by (rule serving_inv_step)
  show "serving_own s s' \<Longrightarrow> serving_step s s'" for s s' by (rule own_serving)
  show "serving_own s s' \<Longrightarrow> serving_inv s \<Longrightarrow> serving_left s' < serving_left s" for s s'
    by (erule serving_ownE) (auto simp: serving_left_def)
qed

text \<open>What only grows, and what a shutdown never goes back on.\<close>

lemma serving_grows:
  "serving_step\<^sup>*\<^sup>* s s' \<Longrightarrow> sv_accepted s \<le> sv_accepted s' \<and> sv_answered s \<subseteq> sv_answered s'
     \<and> (sv_serve s \<in> {Closed, Closed_early} \<longrightarrow> sv_accepted s' = sv_accepted s \<and> sv_serve s' = sv_serve s)"
proof (induction rule: rtranclp_induct)
  case (step t u)
  from step.hyps(2) have "sv_accepted t \<le> sv_accepted u \<and> sv_answered t \<subseteq> sv_answered u
     \<and> (sv_serve t \<in> {Closed, Closed_early} \<longrightarrow> sv_accepted u = sv_accepted t \<and> sv_serve u = sv_serve t)"
    unfolding serving_step_def by (elim disjE serving_ownE serving_envE) auto
  with step.IH show ?case by auto
qed simp

lemma stopping_stays:
  "serving_step\<^sup>*\<^sup>* s s' \<Longrightarrow> sv_main s = Stopping
     \<Longrightarrow> sv_main s' \<in> {Stopping, Ended 0, Ended 1, Ended 2} \<and> (sv_serve s = Closed \<longrightarrow> sv_serve s' = Closed \<and> sv_main s' \<noteq> Ended 1)"
proof (induction rule: rtranclp_induct)
  case (step t u)
  then have t: "sv_main t \<in> {Stopping, Ended 0, Ended 1, Ended 2}" "sv_serve s = Closed \<longrightarrow> sv_serve t = Closed \<and> sv_main t \<noteq> Ended 1" by auto
  from step.hyps(2) show ?case
    using t unfolding serving_step_def by (elim disjE serving_ownE serving_envE) (auto simp: running_def)
qed simp

text \<open>Answering what is pending leads to the end.\<close>

lemma drain:
  assumes "finite (sv_pending s)" "sv_main s = Stopping" "sv_serve s = Closed"
  shows "\<exists>s'. (serving_step ^^ (Suc (card (sv_pending s)))) s s' \<and> sv_main s' = Ended 0"
  using assms
proof (induction "card (sv_pending s)" arbitrary: s)
  case 0
  then have "serving_step s (s\<lparr>sv_main := Ended 0\<rparr>)" by (intro own_serving Drained) simp_all
  then show ?case using 0 by (intro exI [of _ "s\<lparr>sv_main := Ended 0\<rparr>"]) (simp add: eq_OO)
next
  case (Suc n)
  then obtain r where r: "r \<in> sv_pending s" by fastforce
  let ?s = "s\<lparr>sv_pending := sv_pending s - {r}, sv_answered := insert r (sv_answered s)\<rparr>"
  have "serving_step s ?s" using r Suc.prems by (intro env_serving Answer) (simp_all add: running_def)
  moreover have n: "n = card (sv_pending ?s)" using Suc r by simp
  obtain s' where "(serving_step ^^ Suc n) ?s s'" "sv_main s' = Ended 0"
    using Suc.hyps(1) [OF n] Suc.prems n by auto
  ultimately show ?case unfolding Suc.hyps(2) [symmetric] by (meson relpowp_Suc_I2)
qed

text \<open>A request is accepted, a signal comes, the request is answered, and the process ends.\<close>

lemma one_request_run: "\<exists>s. serving_run s \<and> sv_main s = Ended 0 \<and> sv_accepted s = 1 \<and> sv_sessions s = 1"
proof -
  let ?init = serving_start
  let ?s = "?init\<lparr>sv_main := Serves\<rparr>"
  let ?s1 = "?s\<lparr>sv_serve := Accepting\<rparr>"
  let ?s2 = "?s1\<lparr>sv_signal := True\<rparr>"
  let ?s3 = "?s2\<lparr>sv_signal := False, sv_cancelled := True\<rparr>"
  let ?s4 = "?s3\<lparr>sv_main := Stopping\<rparr>"
  let ?s5 = "?s4\<lparr>sv_accepted := Suc (sv_accepted ?s4), sv_pending := insert (sv_accepted ?s4) (sv_pending ?s4)\<rparr>"
  let ?s6 = "?s5\<lparr>sv_serve := Closed\<rparr>"
  let ?s7 = "?s6\<lparr>sv_pending := sv_pending ?s6 - {0}, sv_answered := insert 0 (sv_answered ?s6)\<rparr>"
  let ?s8 = "?s7\<lparr>sv_sessions := Suc (sv_sessions ?s7)\<rparr>"
  let ?s9 = "?s8\<lparr>sv_main := Ended 0\<rparr>"
  have "serving_step ?init ?s" by (rule own_serving, rule Started) (simp add: serving_start_def)
  moreover have "serving_step ?s ?s1" by (rule own_serving, rule Serve_called) (simp_all add: serving_start_def)
  moreover have "serving_step ?s1 ?s2" by (rule env_serving, rule Signal) (simp add: serving_start_def running_def)
  moreover have "serving_step ?s2 ?s3" by (rule own_serving, rule Cancel) (simp_all add: serving_start_def running_def)
  moreover have "serving_step ?s3 ?s4" by (rule own_serving, rule Shutdown) (simp_all add: serving_start_def)
  moreover have "serving_step ?s4 ?s5" by (rule env_serving, rule Accept) (simp_all add: serving_start_def running_def)
  moreover have "serving_step ?s5 ?s6" by (rule own_serving, rule Close) (simp_all add: serving_start_def)
  moreover have "serving_step ?s6 ?s7" by (rule env_serving, rule Answer) (simp_all add: serving_start_def running_def)
  moreover have "serving_step ?s7 ?s8" by (rule env_serving, rule Attach) (simp add: serving_start_def running_def)
  moreover have "serving_step ?s8 ?s9" by (rule own_serving, rule Drained) (simp_all add: serving_start_def)
  ultimately have "serving_run ?s9" by (meson rtranclp.rtrancl_refl rtranclp.rtrancl_into_rtrancl)
  moreover have "sv_main ?s9 = Ended 0 \<and> sv_accepted ?s9 = 1 \<and> sv_sessions ?s9 = 1" by (simp add: serving_start_def)
  ultimately show ?thesis by blast
qed

text \<open>A signal that comes while the program starts: the main function stops a server that does not serve yet.\<close>

lemma early_signal_run:
  "\<exists>s. serving_run s \<and> sv_main s = Stopping \<and> sv_serve s = Closed_early"
proof -
  let ?s = serving_start
  let ?s1 = "?s\<lparr>sv_signal := True\<rparr>"
  let ?s2 = "?s1\<lparr>sv_signal := False, sv_cancelled := True\<rparr>"
  let ?s3 = "?s2\<lparr>sv_main := Serves\<rparr>"
  let ?s4 = "?s3\<lparr>sv_main := Stopping\<rparr>"
  let ?s5 = "?s4\<lparr>sv_serve := Closed_early\<rparr>"
  have "serving_step ?s ?s1" by (rule env_serving, rule Signal) (simp add: serving_start_def running_def)
  moreover have "serving_step ?s1 ?s2" by (rule own_serving, rule Cancel) (simp_all add: serving_start_def running_def)
  moreover have "serving_step ?s2 ?s3" by (rule own_serving, rule Started) (simp add: serving_start_def)
  moreover have "serving_step ?s3 ?s4" by (rule own_serving, rule Shutdown) (simp_all add: serving_start_def)
  moreover have "serving_step ?s4 ?s5" by (rule own_serving, rule Close_early) (simp_all add: serving_start_def)
  ultimately have "serving_run ?s5" by (meson rtranclp.rtrancl_refl rtranclp.rtrancl_into_rtrancl)
  moreover have "sv_main ?s5 = Stopping \<and> sv_serve ?s5 = Closed_early" by simp
  ultimately show ?thesis by blast
qed

section \<open>Properties\<close>



text \<open>
  C22. A shutdown waits for the pending requests and for nothing else: once the main function stops the
  server, the program can take at most three more steps by itself, and is out of them exactly when
  the listener is closed and a request is pending. From then on, in every continuation, with
  whatever signals, the process ends with status 0 only after each request pending has been
  answered, else with the status 2 of a panic, or with 1 unless the listener was closed after
  serving had begun; and if the requests are answered it can end with 0 in one step for each and two
  more, so that a handler that never returns, and nothing else, keeps the process alive.
\<close>

theorem shutdown_ends:
  assumes "serving_run s" "sv_main s = Stopping"
  shows "((\<exists>s'. serving_own s s') \<longleftrightarrow> \<not> (sv_serve s = Closed \<and> sv_pending s \<noteq> {}))
    \<and> (\<forall>n s'. (serving_own ^^ n) s s' \<longrightarrow> n \<le> 3)
    \<and> (\<forall>s'. serving_step\<^sup>*\<^sup>* s s' \<longrightarrow> sv_main s' \<in> {Stopping, Ended 0, Ended 1, Ended 2}
         \<and> (sv_main s' = Ended 0 \<longrightarrow> sv_pending s \<subseteq> sv_answered s') \<and> (sv_main s' = Ended 1 \<longrightarrow> sv_serve s \<noteq> Closed))
    \<and> (sv_serve s \<in> {Accepting, Closed} \<longrightarrow> (\<exists>n s'. n \<le> card (sv_pending s) + 2 \<and> (serving_step ^^ n) s s' \<and> sv_main s' = Ended 0))"
proof (intro conjI allI impI)
  note inv = sv.holds [OF assms(1)]
  then have cancelled: "sv_cancelled s" using assms(2) by (simp add: serving_inv_def phases_inv_def)
  have "sv_pending s \<subseteq> {..<sv_accepted s}" using inv unfolding serving_inv_def requests_inv_def by blast
  then have fin: "finite (sv_pending s)" by (rule finite_subset) simp
  show "(\<exists>s'. serving_own s s') \<longleftrightarrow> \<not> (sv_serve s = Closed \<and> sv_pending s \<noteq> {})"
  proof
    show "\<exists>s'. serving_own s s' \<Longrightarrow> \<not> (sv_serve s = Closed \<and> sv_pending s \<noteq> {})"
      using assms(2) cancelled by (auto elim!: serving_ownE)
  next
    assume "\<not> (sv_serve s = Closed \<and> sv_pending s \<noteq> {})"
    then show "\<exists>s'. serving_own s s'"
      using Close_early [OF assms(2)] Close [OF assms(2)] Serve_late [OF assms(2)] Drained [OF assms(2)]
      by (cases "sv_serve s") blast+
  qed
  show "n \<le> 3" if "(serving_own ^^ n) s s'" for n s'
    using sv.own_run [OF that inv] assms(2) cancelled by (auto simp: serving_left_def split: serve_phase.splits)
  fix s' assume run: "serving_step\<^sup>*\<^sup>* s s'"
  show "sv_main s' \<in> {Stopping, Ended 0, Ended 1, Ended 2}" "sv_main s' = Ended 1 \<Longrightarrow> sv_serve s \<noteq> Closed"
    using stopping_stays [OF run assms(2)] by auto
  assume "sv_main s' = Ended 0"
  moreover have "serving_inv s'" using sv.holds assms(1) run by (meson rtranclp_trans)
  ultimately have "sv_answered s' = {..<sv_accepted s'}" by (auto simp: serving_inv_def phases_inv_def requests_inv_def)
  then show "sv_pending s \<subseteq> sv_answered s'" using serving_grows [OF run] \<open>sv_pending s \<subseteq> {..<sv_accepted s}\<close> by auto
next
  assume serve: "sv_serve s \<in> {Accepting, Closed}"
  have "sv_pending s \<subseteq> {..<sv_accepted s}" using sv.holds [OF assms(1)] unfolding serving_inv_def requests_inv_def by blast
  then have fin: "finite (sv_pending s)" by (rule finite_subset) simp
  show "\<exists>n s'. n \<le> card (sv_pending s) + 2 \<and> (serving_step ^^ n) s s' \<and> sv_main s' = Ended 0"
  proof (cases "sv_serve s = Closed")
    case True
    from drain [OF fin assms(2) this] show ?thesis by (metis add_2_eq_Suc' le_SucI order_refl)
  next
    case False
    with serve assms(2) have "serving_step s (s\<lparr>sv_serve := Closed\<rparr>)" by (intro own_serving Close) simp_all
    moreover obtain s' where "(serving_step ^^ Suc (card (sv_pending s))) (s\<lparr>sv_serve := Closed\<rparr>) s'" "sv_main s' = Ended 0"
      using drain [of "s\<lparr>sv_serve := Closed\<rparr>"] fin assms(2) by auto
    ultimately show ?thesis by (metis add_2_eq_Suc' order_refl relpowp_Suc_I2)
  qed
qed

text \<open>The early signal: the shutdown is not blocked, and the goroutine of gRPC may still make it a failure.\<close>

theorem shutdown_ends_witness:
  "\<exists>s s'. serving_run s \<and> sv_serve s = Closed_early \<and> serving_own s s' \<and> serving_own s (s\<lparr>sv_main := Ended 1\<rparr>)"
proof -
  obtain s where s: "serving_run s" "sv_main s = Stopping" "sv_serve s = Closed_early" using early_signal_run by blast
  from shutdown_ends [OF s(1,2)] s(3) have "\<exists>s'. serving_own s s'" by simp
  with s Serve_late [OF s(2,3)] show ?thesis by blast
qed

text \<open>The sessions of the streaming server are cut off: the process may end while one is attached.\<close>

lemma session_cut: "\<exists>s. serving_run s \<and> sv_main s = Ended 0 \<and> sv_sessions s = 1"
  using one_request_run by blast

text \<open>
  A signal is not enough for status 0: one that comes before gRPC serves may end the process with
  status 1; and a failure is not enough for another status: a start that fails in its configuration
  or its logger ends with 0.
\<close>

lemma misleading_status:
  "\<exists>s. serving_run s \<and> sv_main s = Ended 1 \<and> sv_cancelled s \<and> sv_serve s = Closed_early"
  "\<exists>s. serving_run s \<and> sv_main s = Ended 0 \<and> \<not> sv_cancelled s"
proof -
  obtain s where s: "serving_run s" "sv_main s = Stopping" "sv_serve s = Closed_early" using early_signal_run by blast
  have "serving_run (s\<lparr>sv_main := Ended 1\<rparr>)"
    by (rule rtranclp.rtrancl_into_rtrancl [OF s(1)], rule own_serving, rule Serve_late [OF s(2,3)])
  moreover have "sv_cancelled s" using sv.holds [OF s(1)] s(2) by (simp add: serving_inv_def phases_inv_def)
  ultimately show "\<exists>s. serving_run s \<and> sv_main s = Ended 1 \<and> sv_cancelled s \<and> sv_serve s = Closed_early"
    using s(3) by (intro exI [of _ "s\<lparr>sv_main := Ended 1\<rparr>"]) simp
next
  have "serving_step serving_start (serving_start\<lparr>sv_main := Ended 0\<rparr>)"
    by (rule own_serving, rule Start_fails) (simp add: serving_start_def)
  then show "\<exists>s. serving_run s \<and> sv_main s = Ended 0 \<and> \<not> sv_cancelled s"
    by (intro exI [of _ "serving_start\<lparr>sv_main := Ended 0\<rparr>"]) (auto simp: serving_start_def)
qed

end
