(* ===== verification/Exec_Streams.thy ===== *)
theory Exec_Streams
  imports Machines "HOL-Library.Sublist"
begin

text \<open>
  The streams of an attached command once its container runs (the second half of Exec in
  streaming.go), over pipes: the goroutines that copy them, the command, and the handler, which
  waits for the container, cancels the copying, destroys the container and closes its ends.
\<close>

section \<open>The machine\<close>

text \<open>
  \<open>copyStream\<close> calls \<open>io.Copy\<close> again and again; \<open>Copied k\<close> is a call that has copied \<open>k\<close> bytes.
  It ends on an error, after a call that copied nothing, and between two calls when the context is
  cancelled. A state holds the input the client has still to send, what lies in the pipe and what
  the command has read; whether it has seen the end of its input; the output it has still to print,
  what lies in the pipe and what the client has got. \<open>at_reads_all\<close> says that the command, like
  \<open>cat\<close>, exits only at the end of its input. Standard error is copied as standard output is.
\<close>

datatype copying = Copied nat | Over

datatype exec_phase = Waits | Cancelled | Destroyed | Closed

record attached =
  at_client :: string
  at_stdin :: string
  at_read :: string
  at_eof :: bool
  at_todo :: string
  at_stdout :: string
  at_seen :: string
  at_in :: copying
  at_out :: copying
  at_out_failed :: bool
  at_reads_all :: bool
  at_exited :: bool
  at_main :: exec_phase
  at_wait_failed :: bool

definition attached_start :: "bool \<Rightarrow> string \<Rightarrow> string \<Rightarrow> attached" where
  "attached_start reads_all input output = \<lparr>at_client = input, at_stdin = [], at_read = [], at_eof = False,
     at_todo = output, at_stdout = [], at_seen = [], at_in = Copied 0, at_out = Copied 0, at_out_failed = False,
     at_reads_all = reads_all, at_exited = False, at_main = Waits, at_wait_failed = False\<rparr>"

text \<open>What a goroutine does when a call of \<open>io.Copy\<close> has come to the end of its source.\<close>

definition copy_again :: "exec_phase \<Rightarrow> nat \<Rightarrow> copying" where
  "copy_again main k = (if k = 0 \<or> main \<noteq> Waits then Over else Copied 0)"

text \<open>
  The writing end of the input stays open until the handler closes it at its very end, so only then
  does the command see the end of its input; the handler's own copies of the command's ends are
  closed before the goroutines start. A container that cannot be destroyed lives on.
\<close>

inductive attached_step :: "attached \<Rightarrow> attached \<Rightarrow> bool" where
  In_copy: "at_in s = Copied k \<Longrightarrow> at_client s = c # cs \<Longrightarrow> \<not> at_exited s \<Longrightarrow> at_main s \<noteq> Closed
    \<Longrightarrow> attached_step s (s\<lparr>at_client := cs, at_stdin := at_stdin s @ [c], at_in := Copied (Suc k)\<rparr>)"
| In_end: "at_in s = Copied k \<Longrightarrow> at_client s = [] \<Longrightarrow> attached_step s (s\<lparr>at_in := copy_again (at_main s) k\<rparr>)"
| In_fail: "at_in s = Copied k \<Longrightarrow> attached_step s (s\<lparr>at_in := Over\<rparr>)"
| Read: "\<not> at_exited s \<Longrightarrow> at_stdin s = c # cs \<Longrightarrow> attached_step s (s\<lparr>at_stdin := cs, at_read := at_read s @ [c]\<rparr>)"
| Read_end: "\<not> at_exited s \<Longrightarrow> at_stdin s = [] \<Longrightarrow> at_main s = Closed \<Longrightarrow> attached_step s (s\<lparr>at_eof := True\<rparr>)"
| Print: "\<not> at_exited s \<Longrightarrow> at_todo s = c # cs \<Longrightarrow> attached_step s (s\<lparr>at_todo := cs, at_stdout := at_stdout s @ [c]\<rparr>)"
| Exit: "\<not> at_exited s \<Longrightarrow> (at_reads_all s \<Longrightarrow> at_eof s) \<Longrightarrow> attached_step s (s\<lparr>at_exited := True\<rparr>)"
| Out_copy: "at_out s = Copied k \<Longrightarrow> at_stdout s = c # cs \<Longrightarrow> at_main s \<noteq> Closed
    \<Longrightarrow> attached_step s (s\<lparr>at_stdout := cs, at_seen := at_seen s @ [c], at_out := Copied (Suc k)\<rparr>)"
| Out_end: "at_out s = Copied k \<Longrightarrow> at_stdout s = [] \<Longrightarrow> at_exited s
    \<Longrightarrow> attached_step s (s\<lparr>at_out := copy_again (at_main s) k\<rparr>)"
| Out_fail: "at_out s = Copied k \<Longrightarrow> attached_step s (s\<lparr>at_out := Over, at_out_failed := True\<rparr>)"
| Wait_ok: "at_main s = Waits \<Longrightarrow> at_exited s \<Longrightarrow> attached_step s (s\<lparr>at_main := Cancelled\<rparr>)"
| Wait_fail: "at_main s = Waits \<Longrightarrow> attached_step s (s\<lparr>at_main := Cancelled, at_wait_failed := True\<rparr>)"
| Destroy_ok: "at_main s = Cancelled \<Longrightarrow> attached_step s (s\<lparr>at_main := Destroyed, at_exited := True\<rparr>)"
| Destroy_fail: "at_main s = Cancelled \<Longrightarrow> attached_step s (s\<lparr>at_main := Destroyed\<rparr>)"
| Close: "at_main s = Destroyed \<Longrightarrow> attached_step s (s\<lparr>at_main := Closed\<rparr>)"

inductive_cases attached_stepE: "attached_step s s'"

abbreviation attached_run :: "bool \<Rightarrow> string \<Rightarrow> string \<Rightarrow> attached \<Rightarrow> bool" where
  "attached_run reads_all input output s \<equiv> attached_step\<^sup>*\<^sup>* (attached_start reads_all input output) s"

section \<open>What always holds\<close>

definition attached_inv :: "bool \<Rightarrow> string \<Rightarrow> string \<Rightarrow> attached \<Rightarrow> bool" where
  "attached_inv reads_all input output s \<longleftrightarrow> at_read s @ at_stdin s @ at_client s = input
     \<and> at_seen s @ at_stdout s @ at_todo s = output \<and> at_reads_all s = reads_all
     \<and> (at_eof s \<longrightarrow> at_main s = Closed) \<and> (reads_all \<and> \<not> at_wait_failed s \<longrightarrow> at_main s = Waits \<and> \<not> at_exited s)
     \<and> (at_out s = Over \<and> \<not> at_out_failed s \<longrightarrow> at_exited s \<and> at_stdout s = [])"

lemma copy_again_Copied [simp]: "copy_again main k \<noteq> Copied (Suc n)"
  by (simp add: copy_again_def)

interpretation atm: machine attached_step "attached_start b i t" "attached_inv b i t" for b i t
proof
  show "attached_inv b i t (attached_start b i t)"
    by (simp add: attached_inv_def attached_start_def)
  show "attached_step s s' \<Longrightarrow> attached_inv b i t s \<Longrightarrow> attached_inv b i t s'" for s s'
    by (erule attached_stepE) (auto simp: attached_inv_def)
qed

text \<open>A command may print all it has to without anybody else moving.\<close>

lemma prints_all:
  "\<not> at_exited s \<Longrightarrow> attached_step\<^sup>*\<^sup>* s (s\<lparr>at_todo := [], at_stdout := at_stdout s @ at_todo s\<rparr>)"
proof (induction "at_todo s" arbitrary: s)
  case Nil
  then have "s\<lparr>at_todo := [], at_stdout := at_stdout s @ at_todo s\<rparr> = s" by simp
  then show ?case by simp
next
  case (Cons c cs)
  let ?s = "s\<lparr>at_todo := cs, at_stdout := at_stdout s @ [c]\<rparr>"
  have step: "attached_step s ?s" using Cons by (intro Print) simp_all
  have "?s\<lparr>at_todo := [], at_stdout := at_stdout ?s @ at_todo ?s\<rparr> = s\<lparr>at_todo := [], at_stdout := at_stdout s @ at_todo s\<rparr>"
    by (simp flip: Cons.hyps(2))
  with Cons.hyps(1) [of ?s] Cons.prems
  have "attached_step\<^sup>*\<^sup>* ?s (s\<lparr>at_todo := [], at_stdout := at_stdout s @ at_todo s\<rparr>)" by simp
  with step show ?case by (rule converse_rtranclp_into_rtranclp)
qed

lemma output_lost:
  "\<exists>s. attached_run False input output s \<and> at_main s = Closed \<and> \<not> at_wait_failed s \<and> \<not> at_out_failed s
     \<and> at_todo s = [] \<and> at_seen s = []"
proof -
  let ?s = "attached_start False input output"
  let ?s1 = "?s\<lparr>at_todo := [], at_stdout := at_stdout ?s @ at_todo ?s\<rparr>"
  let ?s2 = "?s1\<lparr>at_exited := True\<rparr>"
  let ?s3 = "?s2\<lparr>at_main := Cancelled\<rparr>"
  let ?s4 = "?s3\<lparr>at_main := Destroyed\<rparr>"
  let ?s5 = "?s4\<lparr>at_main := Closed\<rparr>"
  have "attached_step\<^sup>*\<^sup>* ?s ?s1" by (rule prints_all) (simp add: attached_start_def)
  moreover have "attached_step ?s1 ?s2" by (rule Exit) (simp_all add: attached_start_def)
  moreover have "attached_step ?s2 ?s3" by (rule Wait_ok) (simp_all add: attached_start_def)
  moreover have "attached_step ?s3 ?s4" by (rule Destroy_fail) simp
  moreover have "attached_step ?s4 ?s5" by (rule Close) simp
  ultimately have "attached_run False input output ?s5" by (meson rtranclp.rtrancl_into_rtrancl)
  moreover have "at_main ?s5 = Closed \<and> \<not> at_wait_failed ?s5 \<and> \<not> at_out_failed ?s5 \<and> at_todo ?s5 = [] \<and> at_seen ?s5 = []"
    by (simp add: attached_start_def)
  ultimately show ?thesis by blast
qed

section \<open>Properties\<close>

text \<open>
  C11. A command that reads its input to the end never finishes: nobody closes the writing end of its
  input when the client has sent all, so in every reachable state, as long as the wait for the
  container has not failed, the handler still waits and the command has not exited.
\<close>

theorem exec_input_never_ends:
  assumes "attached_run True input output s" "\<not> at_wait_failed s"
  shows "at_main s = Waits \<and> \<not> at_exited s \<and> \<not> at_eof s"
  using atm.holds [OF assms(1)] assms(2) by (auto simp: attached_inv_def)

text \<open>The client sends one byte, the command reads it, and the copying of the input is over.\<close>

lemma one_byte_read: "\<exists>s. attached_run True ''x'' [] s \<and> \<not> at_wait_failed s \<and> at_read s = ''x'' \<and> at_in s = Over"
proof -
  let ?s = "attached_start True ''x'' []"
  let ?s1 = "?s\<lparr>at_client := [], at_stdin := at_stdin ?s @ ''x'', at_in := Copied (Suc 0)\<rparr>"
  let ?s2 = "?s1\<lparr>at_stdin := [], at_read := at_read ?s1 @ ''x''\<rparr>"
  let ?s3 = "?s2\<lparr>at_in := copy_again (at_main ?s2) (Suc 0)\<rparr>"
  let ?s4 = "?s3\<lparr>at_in := copy_again (at_main ?s3) 0\<rparr>"
  have "attached_step ?s ?s1" by (rule In_copy) (simp_all add: attached_start_def)
  moreover have "attached_step ?s1 ?s2" by (rule Read) (simp_all add: attached_start_def)
  moreover have "attached_step ?s2 ?s3" by (rule In_end) (simp_all add: attached_start_def)
  moreover have "attached_step ?s3 ?s4" by (rule In_end) (simp_all add: attached_start_def copy_again_def)
  ultimately have "attached_run True ''x'' [] ?s4" by (meson rtranclp.rtrancl_refl rtranclp.rtrancl_into_rtrancl)
  moreover have "\<not> at_wait_failed ?s4 \<and> at_read ?s4 = ''x'' \<and> at_in ?s4 = Over" by (simp add: attached_start_def copy_again_def)
  ultimately show ?thesis by blast
qed

theorem exec_input_never_ends_witness:
  "\<exists>s. attached_run True ''x'' [] s \<and> at_read s = ''x'' \<and> at_in s = Over \<and> at_main s = Waits \<and> \<not> at_exited s"
  using one_byte_read exec_input_never_ends by blast

text \<open>
  C21. The streams keep their order: in every reachable state what the command has read and what the
  client has seen are beginnings of what was sent, and when the copying of the output has ended
  without an error of its own, the client has seen all the command printed before it exited. But the
  handler does not wait for that: whatever a command prints, there is a run in which it prints all of
  it and exits, nothing fails, and the handler returns with nothing seen by the client.
\<close>

theorem exec_streams_in_order:
  "(attached_run reads_all input output s \<longrightarrow> prefix (at_read s) input \<and> prefix (at_seen s) output
      \<and> (at_out s = Over \<and> \<not> at_out_failed s \<longrightarrow> at_exited s \<and> at_seen s @ at_todo s = output))
   \<and> (\<exists>s. attached_run False input output s \<and> at_main s = Closed \<and> \<not> at_wait_failed s \<and> \<not> at_out_failed s
        \<and> at_todo s = [] \<and> at_seen s = [])"
proof (intro conjI impI output_lost)
  assume "attached_run reads_all input output s"
  note inv = atm.holds [OF this, unfolded attached_inv_def]
  from inv show "prefix (at_read s) input" "prefix (at_seen s) output" by (auto intro: prefixI)
  assume "at_out s = Over \<and> \<not> at_out_failed s"
  with inv show "at_exited s" "at_seen s @ at_todo s = output" by auto
qed

theorem exec_streams_in_order_witness:
  "\<exists>s. attached_run True ''x'' [] s \<and> prefix (at_read s) ''x'' \<and> at_read s = ''x''"
  using one_byte_read exec_streams_in_order [of True "''x''" "[]"] by blast

end
