(* ===== verification/Parent_Once.thy ===== *)
theory Parent_Once
  imports Porto_Id Machines
begin

text \<open>
  The first reading of the parent container by requests that run beside each other (getParentCnt in
  runtime_mapper.go): \<open>sync.Once\<close> as a machine of any number of goroutines, and its agreement with
  the sequential model the rest of the development uses.
\<close>

section \<open>The machine\<close>

text \<open>
  A goroutine is outside the function, in \<open>once.Do\<close>, or has returned a value. The function given to
  \<open>Do\<close> is run by the first one to arrive, and assigns the variable twice: the answer of Porto, with
  the empty string for an error, and then its last component. As documented, \<open>Do\<close> returns to nobody
  before that function has returned. The answer is kept to speak about it.
\<close>

datatype caller = Outside | In_Do | Got string

datatype once_phase = Not_run | Running nat | Fetched nat | Done

record once_state =
  oc_parentCnt :: string
  oc_phase :: once_phase
  oc_callers :: "nat \<Rightarrow> caller"
  oc_answers :: "(goerr + string) list"

definition once_start :: once_state where
  "once_start = \<lparr>oc_parentCnt = [], oc_phase = Not_run, oc_callers = (\<lambda>t. Outside), oc_answers = []\<rparr>"

definition fetched :: "goerr + string \<Rightarrow> string" where
  "fetched r = (case r of Inl e \<Rightarrow> [] | Inr v \<Rightarrow> v)"

definition last_component :: "string \<Rightarrow> string" where
  "last_component p = (case after_last (CHR ''/'') p of None \<Rightarrow> p | Some t \<Rightarrow> t)"

inductive once_step :: "once_state \<Rightarrow> once_state \<Rightarrow> bool" where
  Call: "oc_callers s t \<noteq> In_Do \<Longrightarrow> once_step s (s\<lparr>oc_callers := (oc_callers s)(t := In_Do)\<rparr>)"
| Enter: "oc_callers s t = In_Do \<Longrightarrow> oc_phase s = Not_run \<Longrightarrow> once_step s (s\<lparr>oc_phase := Running t\<rparr>)"
| Fetch: "oc_phase s = Running t
    \<Longrightarrow> once_step s (s\<lparr>oc_parentCnt := fetched r, oc_phase := Fetched t, oc_answers := r # oc_answers s\<rparr>)"
| Trim: "oc_phase s = Fetched t \<Longrightarrow> once_step s (s\<lparr>oc_parentCnt := last_component (oc_parentCnt s), oc_phase := Done\<rparr>)"
| Return: "oc_callers s t = In_Do \<Longrightarrow> oc_phase s = Done
    \<Longrightarrow> once_step s (s\<lparr>oc_callers := (oc_callers s)(t := Got (oc_parentCnt s))\<rparr>)"

inductive_cases once_stepE: "once_step s s'"

abbreviation once_run :: "once_state \<Rightarrow> bool" where
  "once_run s \<equiv> once_step\<^sup>*\<^sup>* once_start s"

section \<open>What always holds\<close>

definition once_inv :: "once_state \<Rightarrow> bool" where
  "once_inv s \<longleftrightarrow> (case oc_phase s of
       Not_run \<Rightarrow> oc_answers s = []
     | Running t \<Rightarrow> oc_answers s = []
     | Fetched t \<Rightarrow> (\<exists>r. oc_answers s = [r] \<and> oc_parentCnt s = fetched r)
     | Done \<Rightarrow> (\<exists>r. oc_answers s = [r] \<and> oc_parentCnt s = last_component (fetched r)))
   \<and> (\<forall>t p. oc_callers s t = Got p \<longrightarrow> oc_phase s = Done \<and> p = oc_parentCnt s)"

interpretation oc: machine once_step once_start once_inv
proof
  show "once_inv once_start" by (simp add: once_inv_def once_start_def)
  show "once_step s s' \<Longrightarrow> once_inv s \<Longrightarrow> once_inv s'" for s s'
    by (erule once_stepE) (auto simp: once_inv_def split: if_splits once_phase.splits)
qed

lemma getParentCnt_first:
  "w_parent w = None \<Longrightarrow> o_GetProperty (porto E) (w_trace w) (ParentContainer (Cfg E)) ''absolute_name'' = r
     \<Longrightarrow> fst (run_state (getParentCnt E) w) = last_component (fetched r)"
  by (simp add: getParentCnt_def run_simps Let_def fetched_def last_component_def split: sum.splits)

section \<open>Properties\<close>

text \<open>
  C13. Requests that run beside each other agree on the parent container: in every interleaving Porto
  is asked at most once, nobody sees the name before its path is cut off, and every value ever
  returned is the one the sequential reading gives for that answer, so that after a failure of the
  first question the parent is the empty name for all requests to come.
\<close>

theorem parent_agreed:
  assumes "once_run s"
  shows "length (oc_answers s) \<le> 1
    \<and> (\<forall>t p. oc_callers s t = Got p \<longrightarrow> (\<exists>r. oc_answers s = [r]
         \<and> (\<forall>E w. w_parent w = None \<and> o_GetProperty (porto E) (w_trace w) (ParentContainer (Cfg E)) ''absolute_name'' = r
              \<longrightarrow> fst (run_state (getParentCnt E) w) = p)
         \<and> (isl r \<longrightarrow> p = [])))"
proof (intro conjI allI impI)
  have inv: "once_inv s" by (rule oc.holds [OF assms])
  then show "length (oc_answers s) \<le> 1" by (auto simp: once_inv_def split: once_phase.splits)
  fix t p
  assume "oc_callers s t = Got p"
  with inv obtain r where r: "oc_answers s = [r]" "p = last_component (fetched r)" by (auto simp: once_inv_def)
  moreover have "isl r \<Longrightarrow> p = []"
    using r(2) by (cases r) (auto simp: fetched_def last_component_def)
  ultimately show "\<exists>r. oc_answers s = [r]
      \<and> (\<forall>E w. w_parent w = None \<and> o_GetProperty (porto E) (w_trace w) (ParentContainer (Cfg E)) ''absolute_name'' = r
           \<longrightarrow> fst (run_state (getParentCnt E) w) = p)
      \<and> (isl r \<longrightarrow> p = [])"
    using getParentCnt_first by blast
qed

text \<open>Two goroutines arrive, the second asks, and both return.\<close>

lemma two_callers_run:
  "\<exists>s. once_run s \<and> oc_callers s 0 = Got ''box'' \<and> oc_callers s 1 = Got ''box''"
proof -
  let ?s = once_start
  let ?s1 = "?s\<lparr>oc_callers := (oc_callers ?s)(0 := In_Do)\<rparr>"
  let ?s2 = "?s1\<lparr>oc_callers := (oc_callers ?s1)(1 := In_Do)\<rparr>"
  let ?s3 = "?s2\<lparr>oc_phase := Running 1\<rparr>"
  let ?s4 = "?s3\<lparr>oc_parentCnt := fetched (Inr ''/porton/box''), oc_phase := Fetched 1, oc_answers := Inr ''/porton/box'' # oc_answers ?s3\<rparr>"
  let ?s5 = "?s4\<lparr>oc_parentCnt := last_component (oc_parentCnt ?s4), oc_phase := Done\<rparr>"
  let ?s6 = "?s5\<lparr>oc_callers := (oc_callers ?s5)(0 := Got (oc_parentCnt ?s5))\<rparr>"
  let ?s7 = "?s6\<lparr>oc_callers := (oc_callers ?s6)(1 := Got (oc_parentCnt ?s6))\<rparr>"
  have "after_last (CHR ''/'') ''/porton/box'' = Some ''box''" by code_simp
  then have box: "oc_parentCnt ?s5 = ''box''" by (simp add: fetched_def last_component_def)
  have "once_step ?s ?s1" by (rule Call) (simp add: once_start_def)
  moreover have "once_step ?s1 ?s2" by (rule Call) (simp add: once_start_def)
  moreover have "once_step ?s2 ?s3" by (rule Enter) (simp_all add: once_start_def)
  moreover have "once_step ?s3 ?s4" by (rule Fetch) simp
  moreover have "once_step ?s4 ?s5" by (rule Trim) simp
  moreover have "once_step ?s5 ?s6" by (rule Return) simp_all
  moreover have "once_step ?s6 ?s7" by (rule Return) simp_all
  ultimately have "once_run ?s7" by (meson rtranclp.rtrancl_refl rtranclp.rtrancl_into_rtrancl)
  moreover have "oc_callers ?s7 0 = Got ''box'' \<and> oc_callers ?s7 1 = Got ''box''" using box by simp
  ultimately show ?thesis by blast
qed

theorem parent_agreed_witness:
  "\<exists>s r. once_run s \<and> oc_callers s 0 = Got ''box'' \<and> oc_callers s 1 = Got ''box'' \<and> oc_answers s = [r] \<and> \<not> isl r"
proof -
  obtain s where s: "once_run s" "oc_callers s 0 = Got ''box''" "oc_callers s 1 = Got ''box''" using two_callers_run by blast
  with parent_agreed [OF s(1)] show ?thesis by fastforce
qed

end
