(* ===== verification/Orphans.thy ===== *)
theory Orphans
  imports Service
begin

text \<open>
  The containers of Porto as the service changes them: an abstract account of which containers the
  program has created and not destroyed, read off the history, and what a request of each kind may
  do to it. The account says nothing of what Porto destroys along with a container.
\<close>

section \<open>The account\<close>

fun live_step :: "event \<Rightarrow> string set \<Rightarrow> string set" where
  "live_step (EvCreateFromSpec sp vs st (Inr u)) L = insert (Name sp) L"
| "live_step (EvDestroy i (Inr u)) L = L - {i}"
| "live_step ev L = L"

definition live :: "history \<Rightarrow> string set \<Rightarrow> string set" where
  "live es L = fold live_step es L"

lemma live_simps [simp]: "live [] L = L" "live (ev # es) L = live es (live_step ev L)" "live (es @ fs) L = live fs (live es L)"
  by (simp_all add: live_def)

text \<open>The events that create containers of some names only.\<close>

definition creating_only :: "string set \<Rightarrow> event \<Rightarrow> bool" where
  "creating_only X ev = (case ev of EvCreateFromSpec sp vs st r \<Rightarrow> Name sp \<in> X | _ \<Rightarrow> True)"

lemma live_creating_only: "list_all (creating_only X) es \<Longrightarrow> live es L \<subseteq> L \<union> X"
proof (induction es arbitrary: L)
  case (Cons ev es)
  have "live_step ev L \<subseteq> L \<union> X"
    using Cons.prems by (cases "(ev, L)" rule: live_step.cases) (auto simp: creating_only_def)
  with Cons show ?case by fastforce
qed simp

lemma live_quiet: "quiet es \<Longrightarrow> live es L = L"
proof (induction es arbitrary: L)
  case (Cons ev es)
  then show ?case by (cases "(ev, L)" rule: live_step.cases) simp_all
qed simp

lemma live_split: "live es L \<subseteq> L \<union> live es {}"
proof (induction es arbitrary: L rule: rev_induct)
  case (snoc ev es)
  then have "live es L \<subseteq> L \<union> live es {}" .
  then show ?case by (cases "(ev, L)" rule: live_step.cases) auto
qed simp

section \<open>Steps that make only some calls\<close>

definition does :: "(event \<Rightarrow> bool) \<Rightarrow> world \<Rightarrow> world \<Rightarrow> bool" where
  "does A w w' \<longleftrightarrow> (\<exists>es. w_trace w' = w_trace w @ es \<and> list_all A es)"

lemma does_refl [simp]: "does A w w"
  by (simp add: does_def)

lemma does_trans: "does A u v \<Longrightarrow> does A v w \<Longrightarrow> does A u w"
  unfolding does_def by fastforce

lemma emits_keeps: "emits m (\<lambda>v es. list_all A es) \<longleftrightarrow> keeps (does A) m"
  by (simp add: emits_def keeps_def does_def)

interpretation qt: kept_quiet "does quiet_event" quiet_event
proof
  show "does quiet_event u v \<Longrightarrow> does quiet_event v w \<Longrightarrow> does quiet_event u w" for u v w by (rule does_trans)
  show "keeps (does quiet_event) (getParentCnt E)" for E using quiet_getParentCnt by (simp add: emits_keeps)
  show "keeps (does quiet_event) (mod_world (\<lambda>w. w\<lparr>w_tmpfs := mset_at k d (w_tmpfs w)\<rparr>))"
    "keeps (does quiet_event) (mod_world (\<lambda>w. w\<lparr>w_tmpfs := AList.delete k (w_tmpfs w)\<rparr>))" for k d
    by (auto intro!: keeps_mod_world simp: does_def)
qed (simp_all add: does_def asking_quiet)

interpretation ak: kept_asking "does asking_event" asking_event
proof
  show "does asking_event u v \<Longrightarrow> does asking_event v w \<Longrightarrow> does asking_event u w" for u v w by (rule does_trans)
  show "keeps (does asking_event) (getParentCnt E)" for E
    by (rule keepsI) (auto simp: getParentCnt_def run_simps Let_def does_def asking_event_def split: option.split)
qed (simp_all add: does_def)

lemma quiet_creating_only: "quiet es \<Longrightarrow> list_all (creating_only X) es"
  unfolding creating_only_def quiet_event_def by (erule list.pred_mono_strong) (simp split: event.splits)

interpretation ct: kept_tame "does (creating_only X)" "creating_only X" for X
proof
  show "does (creating_only X) u v \<Longrightarrow> does (creating_only X) v w \<Longrightarrow> does (creating_only X) u w" for u v w by (rule does_trans)
  show "keeps (does (creating_only X)) (getParentCnt E)" for E
    unfolding emits_keeps [symmetric] by (rule emits_mono [OF quiet_getParentCnt]) (rule quiet_creating_only)
  show "keeps (does (creating_only X)) (mod_world (\<lambda>w. w\<lparr>w_tmpfs := mset_at k d (w_tmpfs w)\<rparr>))"
    "keeps (does (creating_only X)) (mod_world (\<lambda>w. w\<lparr>w_tmpfs := AList.delete k (w_tmpfs w)\<rparr>))" for k d
    by (auto intro!: keeps_mod_world simp: does_def)
  show "quiet_event ev \<Longrightarrow> creating_only X ev" "asking_event ev \<Longrightarrow> creating_only X ev" for ev
    using quiet_creating_only [of "[ev]"] asking_quiet [of ev] by simp_all
  show "\<not> creates ev \<Longrightarrow> creating_only X ev" for ev by (simp add: creates_def creating_only_def split: event.splits)
qed (simp_all add: does_def)

section \<open>What a request may leave\<close>

text \<open>
  With \<open>keep\<close>, whether a request of this kind with this answer keeps what it created: nothing new is
  alive after the request, or one container, and then it is to be kept, or the last call was its
  destruction, which Porto refused.
\<close>

definition accounted :: "bool \<Rightarrow> history \<Rightarrow> bool" where
  "accounted keep es \<longleftrightarrow> (\<forall>L. live es L \<subseteq> L)
     \<or> (\<exists>p. (\<forall>L. live es L \<subseteq> insert p L) \<and> (keep \<or> (\<exists>a e. es = a @ [EvDestroy p (Inl e)])))"

fun is_Err :: "'a res \<Rightarrow> bool" where
  "is_Err (Err e) = True"
| "is_Err _ = False"

lemma accounted_same: "(\<And>L. live es L \<subseteq> L) \<Longrightarrow> accounted keep es"
  by (simp add: accounted_def)

lemma accounted_kept: "(\<And>L. live es L \<subseteq> insert p L) \<Longrightarrow> accounted True es"
  unfolding accounted_def by blast

lemma accounted_destroyed:
  assumes "quiet a" "quiet b"
  shows "accounted keep (a @ EvCreateFromSpec sp vs st (Inr u) # b @ [EvDestroy (Name sp) x])"
proof (cases x)
  case (Inl e)
  then have "live (a @ EvCreateFromSpec sp vs st (Inr u) # b @ [EvDestroy (Name sp) x]) L \<subseteq> insert (Name sp) L" for L
    using assms by (simp add: live_quiet)
  moreover have "\<exists>a' e. a @ EvCreateFromSpec sp vs st (Inr u) # b @ [EvDestroy (Name sp) x] = a' @ [EvDestroy (Name sp) (Inl e)]"
    using Inl by (intro exI [of _ "a @ EvCreateFromSpec sp vs st (Inr u) # b"] exI [of _ e]) simp
  ultimately show ?thesis unfolding accounted_def by blast
next
  case (Inr y)
  show ?thesis using assms by (intro accounted_same) (auto simp: Inr live_quiet)
qed

lemma guarded_accounted:
  assumes "guarded v es"
  shows "accounted (\<not> is_Err v) es"
  using assms unfolding guarded_def
proof (elim disjE exE conjE)
  assume "quiet es"
  then show ?thesis by (intro accounted_same) (simp add: live_quiet)
next
  fix a sp vs st r b
  assume es: "es = a @ EvCreateFromSpec sp vs st r # b" and a: "quiet a"
    and r: "case r of Inl e \<Rightarrow> b = [] \<and> \<not> is_Ok v | Inr u \<Rightarrow> finishing (Name sp) v b"
  show ?thesis
  proof (cases r)
    case (Inl e)
    with r a show ?thesis by (intro accounted_same) (simp add: es live_quiet)
  next
    case (Inr u)
    with r have f: "finishing (Name sp) v b" by simp
    show ?thesis
    proof (cases "is_Err v")
      case True
      with f obtain c x where "b = c @ [EvDestroy (Name sp) x]" "quiet c"
        by (cases v) (auto simp: finishing_def)
      with a show ?thesis by (simp add: es Inr accounted_destroyed)
    next
      case False
      with f have "quiet b" by (cases v) (auto simp: finishing_def)
      with a have "live es L \<subseteq> insert (Name sp) L" for L by (simp add: es Inr live_quiet)
      then have "accounted True es" by (rule accounted_kept)
      with False show ?thesis by simp
    qed
  qed
qed

lemma transient_accounted:
  assumes "transient v es"
  shows "accounted keep es"
  using assms unfolding transient_def
proof (elim disjE exE conjE)
  assume "quiet es"
  then show ?thesis by (intro accounted_same) (simp add: live_quiet)
next
  fix a sp e assume "es = a @ [EvCreateFromSpec sp [] True (Inl e)]" "quiet a"
  then show ?thesis by (intro accounted_same) (simp add: live_quiet)
next
  fix a sp b x
  assume "es = a @ EvCreateFromSpec sp [] True (Inr ()) # b @ [EvDestroy (Name sp) x]" "quiet a" "quiet b"
  then show ?thesis by (simp add: accounted_destroyed)
qed

text \<open>Starting a container creates at most its privileged child.\<close>

lemma started_creates: "keeps (does (creating_only {path_Join [i, privCntName]})) (started_container E i)"
proof -
  let ?R = "does (creating_only {path_Join [i, privCntName]})"
  have create: "keeps ?R (CreateFromSpec E ((new_spec (path_Join [i, privCntName]))\<lparr>Capabilities := c, Isolate := s, CommandArgv := cmds\<rparr>) vs b)"
    for c s cmds vs b
    unfolding CreateFromSpec_def by (rule ct.calls) (simp add: creating_only_def new_spec_def)
  show ?thesis
    unfolding started_container_def createPrivCnt_def Let_def by (intro kept_rules create)
qed

lemma StartContainer_creates: "emits (StartContainer E cid) (\<lambda>v es. \<exists>p. list_all (creating_only {p}) es)"
proof -
  have start: "emits (call_or g (Start E i) (\<lambda>u. started_container E i)) (\<lambda>v es. \<exists>p. list_all (creating_only {p}) es)" for g i
    unfolding Start_def
  proof (rule emits_call_or_ask)
    show "\<exists>p. list_all (creating_only {p}) [EvStart i (Inl e)]" for e by (simp add: creating_only_def)
    show "emits (started_container E i) (\<lambda>u es. \<exists>p. list_all (creating_only {p}) (EvStart i (Inr v) # es))" for v
      by (rule emits_mono [OF started_creates [unfolded emits_keeps [symmetric]]])
        (auto simp: creating_only_def intro!: exI [of _ "path_Join [i, privCntName]"])
  qed
  have named: "emits (State_Monad.bind (generateFullContainerName E cid) (\<lambda>i. call_or g (Start E i) (\<lambda>u. started_container E i)))
      (\<lambda>v es. \<exists>p. list_all (creating_only {p}) es)" for g
    by (rule emits_bind [OF quiet_generateFullContainerName], rule emits_mono [OF start])
      (use quiet_creating_only in force)
  show ?thesis unfolding StartContainer_def
    by (rule emits_bind [OF quiet_getParentCnt])
      (use quiet_creating_only in \<open>force intro: emits_mono [OF named]\<close>)
qed

text \<open>
  Which answers keep what was created: a pod or container whose creation did not answer an error,
  and the child of a container that was started.
\<close>

fun keeps_created :: "request \<Rightarrow> response res \<Rightarrow> bool" where
  "keeps_created (ReqRunPodSandbox cfg) v = (\<not> is_Err v)"
| "keeps_created (ReqCreateContainer i cfg sb) v = (\<not> is_Err v)"
| "keeps_created (ReqStartContainer i) v = True"
| "keeps_created _ v = False"

lemma emits_answer:
  assumes "emits m (\<lambda>v es. accounted (k (is_Err v)) es)"
  shows "emits (answer f m) (\<lambda>v es. accounted (k (is_Err v)) es)"
  unfolding answer_def by (rule emits_step_or [OF assms]) simp_all

lemma emits_accounted:
  assumes "emits m P" "\<And>v es. P v es \<Longrightarrow> accounted (k (is_Err v)) es"
  shows "emits (answer f m) (\<lambda>v es. accounted (k (is_Err v)) es)"
  by (rule emits_answer, rule emits_mono [OF assms(1)]) (rule assms(2))

lemma call_accounted: "emits (v1_call D req) (\<lambda>v es. accounted (keeps_created req v) es)"
proof (cases "may_create req")
  case False
  have "emits (v1_call D req) (\<lambda>v es. list_all (creating_only {}) es)"
    unfolding emits_keeps by (rule ct.keeps_not_creating [OF False])
  then show ?thesis
  proof (rule emits_mono)
    fix v es assume "list_all (creating_only {}) es"
    from live_creating_only [OF this] show "accounted (keeps_created req v) es" by (intro accounted_same) simp
  qed
next
  case True
  then show ?thesis
  proof (cases req rule: may_create.cases)
    case (1 cfg)
    show ?thesis unfolding 1 v1_call.simps keeps_created.simps
      by (rule emits_accounted [OF guarded_RunPodSandbox]) (rule guarded_accounted)
  next
    case (2 i cfg sb)
    show ?thesis unfolding 2 v1_call.simps keeps_created.simps
      by (rule emits_accounted [OF guarded_CreateContainer]) (rule guarded_accounted)
  next
    case (3 i)
    show ?thesis unfolding 3 v1_call.simps keeps_created.simps
    proof (rule emits_accounted [OF StartContainer_creates])
      fix v :: "unit res" and es
      assume "\<exists>p. list_all (creating_only {p}) es"
      then obtain p where "list_all (creating_only {p}) es" by blast
      from live_creating_only [OF this] show "accounted True es" by (intro accounted_kept [of _ p]) auto
    qed
  next
    case (4 i cmd t)
    show ?thesis unfolding 4 v1_call.simps keeps_created.simps
      by (rule emits_accounted [OF transient_ExecSync]) (rule transient_accounted)
  qed simp_all
qed

section \<open>The account of a life\<close>

text \<open>
  Requests of either version, each with its answer and the calls it made; the connection of the
  interceptor is one of them.
\<close>

inductive served :: "world \<Rightarrow> (request \<times> response res \<times> history) list \<Rightarrow> world \<Rightarrow> bool" for w0 where
  Nothing: "served w0 [] w0"
| Served_v1: "served w0 ts w \<Longrightarrow> run_state (serverInterceptor E (v1_call D req)) w = (v, w')
    \<Longrightarrow> w_trace w' = w_trace w @ es \<Longrightarrow> served w0 (ts @ [(req, v, es)]) w'"
| Served_v1alpha2: "served w0 ts w \<Longrightarrow> run_state (serverInterceptor E (v1alpha2_call D req)) w = (v, w')
    \<Longrightarrow> w_trace w' = w_trace w @ es \<Longrightarrow> served w0 (ts @ [(req, v, es)]) w'"

lemma accounted_front:
  assumes "quiet a" "accounted keep es"
  shows "accounted keep (a @ es)"
proof -
  have l: "live (a @ es) L = live es L" for L by (simp add: live_quiet [OF assms(1)])
  show ?thesis
  proof (cases "\<forall>L. live es L \<subseteq> L")
    case True
    then show ?thesis by (simp only: accounted_def l simp_thms)
  next
    case False
    with assms(2) obtain p where p: "\<forall>L. live es L \<subseteq> insert p L" "keep \<or> (\<exists>c e. es = c @ [EvDestroy p (Inl e)])"
      unfolding accounted_def by fast
    have "keep \<or> (\<exists>c e. a @ es = c @ [EvDestroy p (Inl e)])"
    proof (cases keep)
      case False
      with p(2) obtain c e where "es = c @ [EvDestroy p (Inl e)]" by (elim disjE exE) simp_all
      then have "a @ es = (a @ c) @ [EvDestroy p (Inl e)]" by (simp only: append.assoc)
      then show ?thesis by (intro disjI2 exI)
    qed simp
    with p(1) show ?thesis unfolding accounted_def l by fast
  qed
qed

lemma served_accounted: "emits (serverInterceptor E (v1_call D req)) (\<lambda>v es. accounted (keeps_created req v) es)"
proof -
  have dial: "emits (portoClientContext E) (\<lambda>v es. quiet es)"
    unfolding portoClientContext_def Dial_def by (auto intro!: emit_rules)
  have quiet: "accounted keep es" if "quiet es" for keep es
    using that by (intro accounted_same) (simp add: live_quiet)
  show ?thesis unfolding serverInterceptor_def
  proof (rule emits_step_or [OF dial])
    fix v es assume "quiet es"
    show "emits (v1_call D req) (\<lambda>v fs. accounted (keeps_created req v) (es @ fs))"
      by (rule emits_mono [OF call_accounted]) (rule accounted_front [OF \<open>quiet es\<close>])
  qed (rule quiet, assumption)+
qed

definition left_over :: "string \<Rightarrow> request \<times> response res \<times> history \<Rightarrow> bool" where
  "left_over p t = (case t of (req, v, es) \<Rightarrow> p \<in> live es {} \<and> (keeps_created req v \<or> (\<exists>a e. es = a @ [EvDestroy p (Inl e)])))"

lemma left_over_one: "accounted (keeps_created req v) es \<Longrightarrow> p \<in> live es {} \<Longrightarrow> left_over p (req, v, es)"
  unfolding accounted_def left_over_def by blast

section \<open>Properties\<close>

text \<open>
  C15. No request leaves a container behind unnoticed: after any requests of either protocol, whatever
  Porto answered, a container the program has created and not destroyed was there before, or comes
  from a request that may keep it (a pod or container whose creation did not answer an error, the
  privileged child of a container that was started), or its destruction was the last call of the
  request that created it and Porto refused it.
\<close>

theorem no_orphans:
  assumes "served w0 ts w" "p \<in> live (w_trace w) {}"
  shows "p \<in> live (w_trace w0) {} \<or> (\<exists>t \<in> set ts. left_over p t)"
  using assms
proof (induction rule: served.induct)
  case (Served_v1 ts w E D req v w' es)
  obtain es' where "w_trace w' = w_trace w @ es'" "accounted (keeps_created req v) es'"
    using emitsD [OF served_accounted Served_v1.hyps(2)] by blast
  with Served_v1.hyps(3) have "accounted (keeps_created req v) es" by simp
  with Served_v1 live_split [of es "live (w_trace w) {}"] left_over_one [of req v es p] show ?case by auto
next
  case (Served_v1alpha2 ts w E D req v w' es)
  obtain es' where "w_trace w' = w_trace w @ es'" "accounted (keeps_created req v) es'"
    using emitsD [OF served_accounted Served_v1alpha2.hyps(2) [unfolded v1alpha2_call_eq]] by blast
  with Served_v1alpha2.hyps(3) have "accounted (keeps_created req v) es" by simp
  with Served_v1alpha2 live_split [of es "live (w_trace w) {}"] left_over_one [of req v es p] show ?case by auto
qed simp

text \<open>A command whose container Porto neither waits for nor destroys.\<close>

definition refusing_deps :: deps where
  "refusing_deps = demo_deps\<lparr>d_env := base_env\<lparr>porto := base_porto\<lparr>o_GetProperty := (\<lambda>h i n. Inr []),
     o_Wait := (\<lambda>h is t. Inl no_container), o_Destroy := (\<lambda>h i. Inl no_container)\<rparr>\<rparr>\<rparr>"

lemma refused_exec:
  assumes "\<And>h i n. o_GetProperty (porto E) h i n = Inr []" "\<And>h s v st. o_CreateFromSpec (porto E) h s v st = Inr ()"
    "\<And>h is t. o_Wait (porto E) h is t = Inl e" "\<And>h i. o_Destroy (porto E) h i = Inl e" "w_parent w = Some []"
  shows "\<exists>v sp e1 e2 e3. run_state (ExecSync E ''pod-1/app'' [''/bin/ls''] 0) w
     = (Err v, w\<lparr>w_trace := w_trace w @ [e1, e2, EvCreateFromSpec sp [] True (Inr ()), e3, EvDestroy (Name sp) (Inl e)]\<rparr>)
     \<and> quiet [e1, e2, e3]"
proof -
  let ?i = "Join ''/'' [''pod-1/app'', create_id ''exec-sync'' (o_Intn (os E) (w_trace w) 65536)]"
  let ?sp = "(prepareExecEnv ((new_spec ?i)\<lparr>Weak := Some True\<rparr>) [])\<lparr>CommandArgv := Some [''/bin/ls'']\<rparr>"
  let ?e1 = "EvIntn 65536 (o_Intn (os E) (w_trace w) 65536)"
  let ?e2 = "EvGetProperty ''pod-1/app'' ''env'' (Inr [])"
  let ?e3 = "EvWait [Name ?sp] (exec_timeout E 0) (Inl e)"
  have "run_state (ExecSync E ''pod-1/app'' [''/bin/ls''] 0) w = (Err (WrapW ''failed to wait exec container'' e),
     w\<lparr>w_trace := w_trace w @ [?e1, ?e2, EvCreateFromSpec ?sp [] True (Inr ()), ?e3, EvDestroy (Name ?sp) (Inl e)]\<rparr>)"
    by (simp add: ExecSync_def addPortoPrefix_def createID_def add_prefix_def prepareCommand_def run_exec_def exec_result_def run_simps Let_def assms)
  moreover have "quiet [?e1, ?e2, ?e3]" by simp
  ultimately show ?thesis by (intro exI conjI)
qed

lemma refused_request:
  "\<exists>v es w p. run_state (serverInterceptor base_env (v1_call refusing_deps (ReqExecSync ''pod-1/app'' [''/bin/ls''] 0))) (base_world\<lparr>w_parent := Some []\<rparr>) = (v, w)
     \<and> w_trace w = es \<and> p \<in> live es {}"
proof -
  let ?w = "(base_world\<lparr>w_parent := Some []\<rparr>)\<lparr>w_trace := [EvDial (Inr ())]\<rparr>"
  obtain v sp e1 e2 e3 where r: "run_state (ExecSync (d_env refusing_deps) ''pod-1/app'' [''/bin/ls''] 0) ?w
     = (Err v, ?w\<lparr>w_trace := w_trace ?w @ [e1, e2, EvCreateFromSpec sp [] True (Inr ()), e3, EvDestroy (Name sp) (Inl no_container)]\<rparr>)"
    "quiet [e1, e2, e3]"
    using refused_exec [of "d_env refusing_deps" no_container ?w] by (auto simp: refusing_deps_def base_porto_def)
  have "run_state (serverInterceptor base_env (v1_call refusing_deps (ReqExecSync ''pod-1/app'' [''/bin/ls''] 0))) (base_world\<lparr>w_parent := Some []\<rparr>)
    = (Err v, ?w\<lparr>w_trace := w_trace ?w @ [e1, e2, EvCreateFromSpec sp [] True (Inr ()), e3, EvDestroy (Name sp) (Inl no_container)]\<rparr>)"
    using r(1) by (simp add: serverInterceptor_def portoClientContext_def answer_def run_simps base_env_def base_os_def base_world_def)
  moreover have "live_step e1 L = L" "live_step e2 L = L" "live_step e3 L = L" for L
    using r(2) live_quiet [of "[e1]" L] live_quiet [of "[e2]" L] live_quiet [of "[e3]" L] by simp_all
  then have "Name sp \<in> live (w_trace (?w\<lparr>w_trace := w_trace ?w @ [e1, e2, EvCreateFromSpec sp [] True (Inr ()), e3, EvDestroy (Name sp) (Inl no_container)]\<rparr>)) {}"
    by simp
  ultimately show ?thesis by blast
qed

theorem no_orphans_witness:
  "\<exists>v es w p. served (base_world\<lparr>w_parent := Some []\<rparr>) [(ReqExecSync ''pod-1/app'' [''/bin/ls''] 0, v, es)] w
     \<and> p \<in> live es {} \<and> (\<exists>a e. es = a @ [EvDestroy p (Inl e)])"
proof -
  let ?w0 = "base_world\<lparr>w_parent := Some []\<rparr>"
  obtain v w p where r: "run_state (serverInterceptor base_env (v1_call refusing_deps (ReqExecSync ''pod-1/app'' [''/bin/ls''] 0))) ?w0 = (v, w)"
    "p \<in> live (w_trace w) {}" using refused_request by blast
  have e: "w_trace w = w_trace ?w0 @ w_trace w" by (simp add: base_world_def)
  from Served_v1 [OF Nothing r(1) e]
  have s: "served ?w0 [(ReqExecSync ''pod-1/app'' [''/bin/ls''] 0, v, w_trace w)] w" by (simp only: append_Nil)
  have "p \<notin> live (w_trace ?w0) {}" by (simp add: base_world_def)
  with no_orphans [OF s r(2)] have "left_over p (ReqExecSync ''pod-1/app'' [''/bin/ls''] 0, v, w_trace w)" by simp
  then have "p \<in> live (w_trace w) {} \<and> (\<exists>a e. w_trace w = a @ [EvDestroy p (Inl e)])" by (simp add: left_over_def)
  with s show ?thesis by blast
qed

text \<open>
  C25. Requests that only look change nothing of a container: the listings, the status of a pod, the
  statistics, the version and all of the image service make no call but questions, pulling and
  removing images, and the connection to Porto, whatever is answered: they create, start, update,
  stop and destroy nothing, and leave the networks, volumes and files alone. The one exception among
  the listings and statuses is the status of a container, which may destroy it.
\<close>

theorem looking_is_quiet:
  assumes "leaves_containers req" "run_state (v1_call D req) w = (v, w')"
  shows "\<exists>es. w_trace w' = w_trace w @ es \<and> list_all asking_event es \<and> live (w_trace w') {} = live (w_trace w) {}"
proof -
  obtain es where es: "w_trace w' = w_trace w @ es" "list_all asking_event es"
    using keepsD [OF ak.keeps_leaving [OF assms(1)] assms(2)] unfolding does_def by blast
  from es(2) have "quiet es" by (rule list.pred_mono_strong) (rule asking_quiet)
  with es show ?thesis by (auto simp: live_quiet)
qed

theorem looking_is_quiet_witness:
  "\<exists>v w'. run_state (v1_call demo_deps (ReqListPodSandbox \<lparr>pf_Id = [], pf_State = None, pf_Labels = []\<rparr>)) fresh_world = (v, w')
     \<and> live (w_trace w') {} = {}"
proof -
  let ?r = "ReqListPodSandbox \<lparr>pf_Id = [], pf_State = None, pf_Labels = []\<rparr>"
  obtain v w' where r: "run_state (v1_call demo_deps ?r) fresh_world = (v, w')" by (rule prod.exhaust)
  have "leaves_containers ?r" by simp
  from looking_is_quiet [OF this r] have "live (w_trace w') {} = live (w_trace fresh_world) {}" by blast
  also have "\<dots> = {}" by (simp add: fresh_world_def)
  finally show ?thesis using r by blast
qed
end
