(* ===== verification/Lifetimes.thy ===== *)
theory Lifetimes
  imports Orphans
begin

text \<open>
  The life of a pod and of a container across requests: the identifier that RunPodSandbox or
  CreateContainer answers names the container it created, in every later request, so that removing
  it by this identifier destroys that very container.
\<close>

section \<open>What a handler that creates creates and answers\<close>

text \<open>It creates the container it has named and no other.\<close>

interpretation oh: creating_handler "\<lambda>v es. list_all (creating_only {n}) es" n "\<lambda>v es. list_all (creating_only {n}) es" for n
  by unfold_locales (auto simp: quiet_creating_only creating_only_def [of _ "EvCreateFromSpec sp vs st r" for sp vs st r]
      creating_only_def [of _ "EvDestroy i r" for i r])

lemma created_live:
  assumes "guarded (Ok j) es" "list_all (creating_only {p}) es"
  shows "p \<in> live es L"
proof -
  obtain x sp vs st r y where s: "es = x @ EvCreateFromSpec sp vs st r # y"
    "case r of Inl e \<Rightarrow> y = [] \<and> \<not> is_Ok (Ok j) | Inr u \<Rightarrow> finishing (Name sp) (Ok j) y"
    using assms(1) unfolding guarded_def by auto
  then obtain u where u: "r = Inr u" "quiet y" by (cases r) (auto simp: finishing_def)
  have "Name sp = p" using assms(2) by (simp add: s(1) creating_only_def)
  then show ?thesis by (simp add: s(1) u live_quiet)
qed

text \<open>Under the parent \<open>q\<close>, an answer without an error is \<open>i\<close>.\<close>

definition answers :: "string \<Rightarrow> 'a \<Rightarrow> 'a res prog \<Rightarrow> bool" where
  "answers q i m \<longleftrightarrow> (\<forall>w j w'. w_parent w = Some q \<longrightarrow> run_state m w = (Ok j, w') \<longrightarrow> j = i)"

lemma answersD: "answers q i m \<Longrightarrow> run_state m w = (Ok j, w') \<Longrightarrow> w_parent w = Some q \<Longrightarrow> j = i"
  unfolding answers_def by blast

lemma answers_ret: "answers q i (ret (Ok i))" "answers q i (ret (Err e))" "answers q i (ret (Panic s))"
  by (simp_all add: answers_def)

lemma answers_cases:
  "answers q i a \<Longrightarrow> answers q i b \<Longrightarrow> answers q i (if c then a else b)"
  "(\<And>e. answers q i (f e)) \<Longrightarrow> (\<And>v. answers q i (g v)) \<Longrightarrow> answers q i (case s of Inl e \<Rightarrow> f e | Inr v \<Rightarrow> g v)"
  "answers q i a \<Longrightarrow> (\<And>v. answers q i (h v)) \<Longrightarrow> answers q i (case x of None \<Rightarrow> a | Some v \<Rightarrow> h v)"
  "(\<And>v. answers q i (j v)) \<Longrightarrow> (\<And>e. answers q i (k e)) \<Longrightarrow> (\<And>t. answers q i (l t))
    \<Longrightarrow> answers q i (case r of Ok v \<Rightarrow> j v | Err e \<Rightarrow> k e | Panic t \<Rightarrow> l t)"
  "(\<And>a b. answers q i (p a b)) \<Longrightarrow> answers q i (case y of (a, b) \<Rightarrow> p a b)"
  by (simp_all split: sum.split option.split res.split prod.split)

lemma answers_bind: "steady m \<Longrightarrow> (\<And>v. answers q i (k v)) \<Longrightarrow> answers q i (State_Monad.bind m k)"
proof -
  assume m: "steady m" and k: "\<And>v. answers q i (k v)"
  have "j = i" if "w_parent w = Some q" "run_state m w = (v, w1)" "run_state (k v) w1 = (Ok j, w2)" for w v w1 j w2
    using keepsD [OF m that(2)] that(1) by (intro answersD [OF k that(3)]) (simp add: steady_rel_def)
  then show ?thesis unfolding answers_def by (auto simp: run_simps split: prod.splits)
qed

lemma answers_steps:
  "steady m \<Longrightarrow> (\<And>v. answers q i (k v)) \<Longrightarrow> answers q i (step_or g m k)"
  "steady m' \<Longrightarrow> (\<And>v. answers q i (k' v)) \<Longrightarrow> answers q i (step_or_destroy E n g m' k')"
  "steady c \<Longrightarrow> (\<And>v. answers q i (k'' v)) \<Longrightarrow> answers q i (call_or g c k'')"
  unfolding step_or_def step_or_destroy_def call_or_def
  by (intro answers_bind answers_cases answers_ret kept_rules | simp)+

lemmas answers_rules = answers_steps answers_bind answers_cases answers_ret kept_rules

text \<open>The last step of CreateContainer takes the parent's prefix off again.\<close>

lemma answers_unprefixed:
  "remove_prefix q n = Ok c \<Longrightarrow> answers q (f c) (step_or g (removePortoPrefix E n) (\<lambda>cid. ret (Ok (f cid))))"
  by (simp add: answers_def removePortoPrefix_def getParentCnt_def run_simps)

section \<open>A pod and its identifier\<close>

text \<open>The handler from the attempts for the pause image on.\<close>

definition pod_setup :: "env \<Rightarrow> struct_tags \<Rightarrow> bool \<Rightarrow> PodSandboxConfig \<Rightarrow> string \<Rightarrow> string \<Rightarrow> string res prog" where
  "pod_setup E tags plugin cfg i portoid = do {
     s \<leftarrow> retry (pause_attempt E) 1000 3 (None, None);
     case snd s of
       Some e \<Rightarrow> ret (Err (FmtV ''No image'' e))
     | None \<Rightarrow>
         let podSpec = (new_spec portoid)\<lparr>Capabilities := Some modCaps\<rparr> in
         step_or (FmtV ''Failed to prepare resources'') (prepareResources E tags podSpec (pc_Resources cfg)) (\<lambda>podSpec.
         let podSpec = preparePodLabels E podSpec cfg in
         step_or (FmtV ''RunPodSandbox'') (prepareRoot E podSpec [] [] (PauseImage (Cfg E))) (\<lambda>(podSpec, volumes).
         call_or (FmtV ''RunPodSandbox'') (CreateFromSpec E podSpec volumes False) (\<lambda>u.
         let podSpec = prepare_image_env (new_spec portoid) [] (fst s) in
         step_or_destroy E portoid (FmtV ''RunPodSandbox'')
           (prepareCommand E podSpec [] [] (config_cmd (fst s)) False) (\<lambda>podSpec.
         step_or_destroy E portoid (FmtV ''RunPodSandbox'') (preparePodNetwork E plugin podSpec cfg) (\<lambda>podSpec.
         step_or_destroy E portoid (FmtV ''RunPodSandbox'') (lift_call (UpdateFromSpec E podSpec True)) (\<lambda>u.
         ret (Ok i)))))))
   }"

lemma RunPodSandbox_setup:
  "RunPodSandbox E tags plugin cfg = do {
     i \<leftarrow> createID E (pm_Name (pc_Metadata cfg));
     portoid \<leftarrow> addPortoPrefix E i;
     pod_setup E tags plugin cfg i portoid
   }"
  by (simp only: RunPodSandbox_def pod_setup_def)

lemma answers_pod_setup: "answers q i (pod_setup E tags plugin cfg i portoid)"
  unfolding pod_setup_def Let_def by (intro answers_rules st.keeps_retry st.keeps_pause_attempt)

lemma addPortoPrefix_names:
  "run_state (addPortoPrefix E i) w = (p, w') \<Longrightarrow> \<exists>q. w_parent w' = Some q \<and> p = add_prefix q i"
  by (cases "w_parent w") (auto simp: addPortoPrefix_def getParentCnt_def run_simps Let_def)

lemma steady_pod_setup: "steady (pod_setup E tags plugin cfg i p)"
  unfolding pod_setup_def Let_def by (intro kept_rules st.keeps_retry st.keeps_pause_attempt)

lemma created_pod_live:
  assumes "run_state (RunPodSandbox E tags plugin cfg) w = (Ok i, w1)"
  shows "\<exists>q. w_parent w1 = Some q \<and> add_prefix q i \<in> live (w_trace w1) {}"
proof -
  obtain i0 wa where a: "run_state (createID E (pm_Name (pc_Metadata cfg))) w = (i0, wa)" by (rule prod.exhaust)
  obtain p wb where b: "run_state (addPortoPrefix E i0) wa = (p, wb)" by (rule prod.exhaust)
  obtain q where q: "w_parent wb = Some q" "p = add_prefix q i0" using addPortoPrefix_names [OF b] by blast
  have c: "run_state (pod_setup E tags plugin cfg i0 p) wb = (Ok i, w1)"
    using assms a b by (simp add: RunPodSandbox_setup run_simps)
  obtain e1 where e1: "w_trace wa = w_trace w @ e1" "quiet e1" using emitsD [OF quiet_createID a] by blast
  obtain e2 where e2: "w_trace wb = w_trace wa @ e2" "quiet e2" using emitsD [OF quiet_addPortoPrefix b] by blast
  obtain e3 where e3: "w_trace w1 = w_trace wb @ e3" "list_all (creating_only {p}) e3"
    using emitsD [OF oh.pod_set_up [where n = p, folded pod_setup_def] c] by blast
  obtain es where es: "w_trace w1 = w_trace w @ es" "guarded (Ok i) es"
    using emitsD [OF guarded_RunPodSandbox assms] by blast
  have all: "list_all (creating_only {p}) es"
    using e1 e2 e3 es(1) by (simp add: quiet_creating_only)
  have "p \<in> live (w_trace w1) {}" unfolding es(1) live_simps by (rule created_live [OF es(2) all])
  moreover have "i = i0" by (rule answersD [OF answers_pod_setup c q(1)])
  moreover have "w_parent w1 = Some q"
    using keepsD [OF steady_pod_setup c] q(1) by (simp add: steady_rel_def)
  ultimately show ?thesis using q(2) by blast
qed

section \<open>A container and its identifier\<close>

text \<open>The handler once its name is known.\<close>

definition container_setup :: "env \<Rightarrow> struct_tags \<Rightarrow> (string \<Rightarrow> goerr + cdiSpec) \<Rightarrow> (string \<Rightarrow> applied_pod)
    \<Rightarrow> string \<Rightarrow> ContainerConfig \<Rightarrow> PodSandboxConfig \<Rightarrow> string \<Rightarrow> string \<Rightarrow> string \<Rightarrow> string res prog" where
  "container_setup E tags yaml unpod podSandboxId cfg sandbox podID containerID i =
     call_or (FmtV ''CreateContainer'') (DockerImageStatus E (cc_Image cfg) (Place (Cfg E))) (\<lambda>img.
     step_or (FmtV ''Failed to prepare resources'')
       (prepareResources E tags (initial_spec i (cc_Privileged cfg)) (cc_Resources cfg)) (\<lambda>spec.
     step_or (FmtV ''CreateContainer'') (prepareContainerLogs E spec (cc_Privileged cfg)) (\<lambda>(spec, logPath).
     let spec = prepareContainerResolvConf spec (pc_Dns sandbox) in
     step_or (FmtV ''CreateContainer'') (prepareRoot E spec [] (CHR ''/'' # containerID) (cc_Image cfg)) (\<lambda>(spec, volumes).
     let waitPathes = wait_pathes unpod (pc_Annotations sandbox) in
     step_or (FmtV ''CreateContainer'')
       (resolveCDIDevices E yaml (cdiRequestedDevices (cc_Annotations cfg)) (SpecDirs (Cfg E))) (\<lambda>cdi.
     place_container E podSandboxId i podID logPath cfg img waitPathes cdi spec volumes)))))"

lemma CreateContainer_setup:
  "CreateContainer E tags yaml unpod podSandboxId cfg sandbox = do {
     podID \<leftarrow> addPortoPrefix E podSandboxId;
     containerID \<leftarrow> createID E (cm_Name (cc_Metadata cfg));
     container_setup E tags yaml unpod podSandboxId cfg sandbox podID containerID (Join ''/'' [podID, containerID])
   }"
  by (simp only: CreateContainer_def container_setup_def Let_def)

lemma container_setup_creates:
  "emits (container_setup E tags yaml unpod podSandboxId cfg sandbox podID containerID n) (\<lambda>v es. list_all (creating_only {n}) es)"
  unfolding container_setup_def Let_def by (rule oh.from_image)

lemma steady_container_setup: "steady (container_setup E tags yaml unpod podSandboxId cfg sandbox podID containerID n)"
  unfolding container_setup_def place_container_def configure_container_def edit_container_def main_command_def
    child_command_def getSandboxCommand_def linkCDIMounts_def runCDIHooks_def Let_def
  by (intro kept_rules)

lemma answers_container_setup:
  assumes "remove_prefix q n = Ok c"
  shows "answers q (toContainerCriID c) (container_setup E tags yaml unpod podSandboxId cfg sandbox podID containerID n)"
  unfolding container_setup_def place_container_def configure_container_def edit_container_def main_command_def
    child_command_def getSandboxCommand_def linkCDIMounts_def runCDIHooks_def Let_def
  by (intro answers_unprefixed [OF assms] answers_rules)

text \<open>The generated part of an identifier is never the name of a privileged child.\<close>

lemma Split_last: "c \<notin> set t \<Longrightarrow> \<exists>xs y. Split c (s @ t) = xs @ [y @ t]"
proof (induction s)
  case Nil
  then show ?case by (intro exI [of _ "[]"]) simp
next
  case (Cons x s)
  then obtain xs y where s: "Split c (s @ t) = xs @ [y @ t]" by blast
  show ?case
  proof (cases xs)
    case Nil
    then show ?thesis
      using s by (cases "x = c") (auto intro: exI [of _ "[[]]"] exI [of _ "[]"] exI [of _ "x # y"])
  next
    case (Cons z zs)
    then show ?thesis
      using s by (cases "x = c") (auto intro: exI [of _ "[] # xs"] exI [of _ "(x # z) # zs"] exI [of _ y])
  qed
qed

lemma generated_not_privileged: "toContainerCriID (p @ create_id name r) = p @ create_id name r"
proof -
  have "CHR ''/'' \<notin> set (''-'' @ hex04 r)" using hex04_no_slash by simp
  from Split_last [OF this, of "p @ take 58 name"] obtain xs y
    where s: "Split (CHR ''/'') (p @ create_id name r) = xs @ [y @ ''-'' @ hex04 r]" by (auto simp: create_id_eq)
  have "CHR ''-'' \<in> set (y @ ''-'' @ hex04 r)" "CHR ''-'' \<notin> set privCntName" by (simp_all add: privCntName_def)
  then have "y @ ''-'' @ hex04 r \<noteq> privCntName" by metis
  then show ?thesis by (simp add: toContainerCriID_def isPrivilegedContainer_def s)
qed

lemma created_container_live:
  assumes "parent_ok w" "run_state (CreateContainer E tags yaml unpod podSandboxId cfg sandbox) w = (Ok cid, w1)"
  shows "\<exists>q r. w_parent w1 = Some q \<and> slash_free q \<and> add_prefix q cid \<in> live (w_trace w1) {}
    \<and> cid = podSandboxId @ CHR ''/'' # create_id (cm_Name (cc_Metadata cfg)) r"
proof -
  let ?n = "cm_Name (cc_Metadata cfg)"
  obtain podID wa where a: "run_state (addPortoPrefix E podSandboxId) w = (podID, wa)" by (rule prod.exhaust)
  obtain q where q: "w_parent wa = Some q" "podID = add_prefix q podSandboxId" using addPortoPrefix_names [OF a] by blast
  have "steady (addPortoPrefix E podSandboxId)" by (intro kept_rules)
  from keepsD [OF this a] assms(1) q(1) have sf: "slash_free q" by (simp add: steady_rel_def parent_ok_def)
  obtain r wb where b: "run_state (createID E ?n) wa = (create_id ?n r, wb)" "w_parent wb = Some q"
    using q(1) by (simp add: createID_def run_simps)
  let ?cid = "podSandboxId @ CHR ''/'' # create_id ?n r"
  let ?i = "add_prefix q ?cid"
  have i: "Join ''/'' [podID, create_id ?n r] = ?i" by (simp add: q(2) add_prefix_slash_free [OF sf])
  have c: "run_state (container_setup E tags yaml unpod podSandboxId cfg sandbox podID (create_id ?n r) ?i) wb = (Ok cid, w1)"
    using assms(2) a b(1) by (simp add: CreateContainer_setup run_simps i del: Join.simps)
  have "remove_prefix q ?i = Ok ?cid" by (rule pid.rem_add) (rule sf)
  then have "cid = toContainerCriID ?cid"
    using answersD [OF answers_container_setup c b(2)] by blast
  with generated_not_privileged [of "podSandboxId @ ''/''" ?n r] have cid: "cid = ?cid" by simp
  obtain e1 where e1: "w_trace wa = w_trace w @ e1" "quiet e1" using emitsD [OF quiet_addPortoPrefix a] by blast
  obtain e2 where e2: "w_trace wb = w_trace wa @ e2" "quiet e2" using emitsD [OF quiet_createID b(1)] by blast
  obtain e3 where e3: "w_trace w1 = w_trace wb @ e3" "list_all (creating_only {?i}) e3"
    using emitsD [OF container_setup_creates c] by blast
  obtain es where es: "w_trace w1 = w_trace w @ es" "guarded (Ok cid) es"
    using emitsD [OF guarded_CreateContainer assms(2)] by blast
  have "list_all (creating_only {?i}) es" using e1 e2 e3 es(1) by (simp add: quiet_creating_only)
  then have "?i \<in> live (w_trace w1) {}" unfolding es(1) live_simps by (rule created_live [OF es(2)])
  moreover have "w_parent w1 = Some q"
    using keepsD [OF steady_container_setup c] b(2) by (simp add: steady_rel_def)
  ultimately show ?thesis using sf cid by blast
qed

text \<open>What RemoveContainer calls: Destroy of the prefixed name, and nothing that creates.\<close>

definition destroys :: "string \<Rightarrow> 'a res \<Rightarrow> history \<Rightarrow> bool" where
  "destroys i v es \<longleftrightarrow> is_Ok v \<longrightarrow> (\<forall>L. i \<notin> live es L)"

interpretation ds: outcome "destroys i" for i
  by unfold_locales (simp_all add: destroys_def)

lemma destroy_container_destroys: "emits (destroy_container E i links) (destroys i)"
proof -
  have gone: "emits (removeSpecificVolumes E i links) (\<lambda>v es. list_all (creating_only {}) es)" for i links
    unfolding emits_keeps removeSpecificVolumes_def Let_def by (intro kept_rules)
  have "i \<notin> live es (L - {i})" if "list_all (creating_only {}) es" for es L
    using live_creating_only [OF that, of "L - {i}"] by blast
  then show ?thesis
    unfolding destroy_container_def Destroy_def RemoveAll_def
    by (auto simp: destroys_def intro!: emits_call_or_ask emits_mono [OF gone])
qed

lemma RemoveContainer_destroys:
  assumes "run_state (RemoveContainer E cid) w = (Ok (), w')" "w_parent w = Some q"
  shows "add_prefix q cid \<notin> live (w_trace w') {}"
proof -
  let ?i = "add_prefix q cid"
  let ?rest = "if ParentContainer (Cfg E) \<noteq> []
       then step_or (FmtV ''RemoveContainer'') (getProperties E ?i [''volumes_linked'']) (\<lambda>props.
              destroy_container E ?i (mget_str props ''volumes_linked''))
       else destroy_container E ?i []"
  have r: "run_state ?rest w = (Ok (), w')"
    using assms by (simp add: RemoveContainer_def addPortoPrefix_def getParentCnt_def run_get_world run_simps split: if_splits)
  have "emits ?rest (destroys ?i)"
    using ds.step [where S = "\<lambda>r. True" and k = "\<lambda>props. destroy_container E ?i (mget_str props ''volumes_linked'')"]
    by (simp add: quiet_getProperties destroy_container_destroys)
  from emitsD [OF this r] show ?thesis by (auto simp: destroys_def)
qed

section \<open>Properties\<close>

text \<open>
  C16. A pod is removed by the identifier it was created under: when RunPodSandbox answers an
  identifier, the container of that name under the parent is in the account of the program's
  containers, and when RemovePodSandbox with this identifier answers without an error, after any
  requests of either protocol, whatever happened to the environment, that very container has been
  destroyed in the end and is out of the account, or Porto said that it does not exist any more.
\<close>

theorem pod_lifecycle:
  assumes "run_state (RunPodSandbox E tags plugin cfg) w = (Ok i, w1)" "later w1 w2"
    and "run_state (RemovePodSandbox E' plugin' i) w2 = (Ok (), w3)"
  shows "\<exists>q. w_parent w1 = Some q \<and> add_prefix q i \<in> live (w_trace w1) {}
    \<and> (add_prefix q i \<notin> live (w_trace w3) {}
       \<or> (\<exists>e. o_GetProperty (porto E') (w_trace w2) (add_prefix q i) ''net'' = Inl e
            \<and> errors_As_PortoError e = Some EError_ContainerDoesNotExist))"
proof -
  obtain q where q: "w_parent w1 = Some q" "add_prefix q i \<in> live (w_trace w1) {}"
    using created_pod_live [OF assms(1)] by blast
  let ?p = "add_prefix q i"
  have "w_parent w2 = Some q" using later_steady [OF assms(2)] q(1) by (simp add: steady_rel_def)
  then have r: "run_state (remove_pod E' plugin' i ?p) w2 = (Ok (), w3)"
    using assms(3) by (auto simp: RemovePodSandbox_def addPortoPrefix_def run_simps split: if_splits)
  have "?p \<notin> live (w_trace w3) {}
       \<or> (\<exists>e. o_GetProperty (porto E') (w_trace w2) ?p ''net'' = Inl e \<and> errors_As_PortoError e = Some EError_ContainerDoesNotExist)"
  proof (cases "o_GetProperty (porto E') (w_trace w2) ?p ''net''")
    case (Inl e)
    with r show ?thesis by (auto simp: remove_pod_def run_simps split: if_splits)
  next
    case (Inr netProp)
    let ?w = "w2\<lparr>w_trace := w_trace w2 @ [EvGetProperty ?p ''net'' (Inr netProp)]\<rparr>"
    have "run_state (remove_known E' plugin' i ?p netProp) ?w = (Ok (), w3)"
      using r Inr by (simp add: remove_pod_def run_simps)
    from emitsD [OF emits_remove_known this] obtain es where es: "w_trace w3 = w_trace ?w @ es"
      "removal_trace E' i ?p (parsePropertiesNetNS netProp [''netns'']) (Ok ()) es" by blast
    then obtain a b x c where "es = a @ EvStopTimeout ?p 0 (Inr ()) # b @ EvDestroy ?p x # c"
      "c = [] \<or> x = Inr () \<and> (\<exists>y. c = [EvRemoveAll (getRootPath E' ?p) y])"
      "c = [EvRemoveAll (getRootPath E' ?p) (Inr ())]"
      unfolding removal_trace_def by auto
    then have "?p \<notin> live (w_trace w3) {}" by (auto simp: es(1))
    then show ?thesis by blast
  qed
  with q show ?thesis by blast
qed

text \<open>A pod on the network of the host, created and removed.\<close>

lemma node_pod_run:
  fixes E :: env
  assumes "\<And>h n p. o_DockerImageStatus (porto E) h n p = Inr img" "ConfigCmd img = [CHR ''/'' # c]"
    "\<And>h p. o_MkdirAll (os E) h p = Inr ()" "\<And>h s v st. o_CreateFromSpec (porto E) h s v st = Inr ()"
    "\<And>h s st. o_UpdateFromSpec (porto E) h s st = Inr ()"
    "w_parent w = Some []" "pc_NetworkMode cfg = Some NS_NODE" "pc_Resources cfg = None"
  shows "\<exists>w'. run_state (RunPodSandbox E tags plugin cfg) w
     = (Ok (create_id (pm_Name (pc_Metadata cfg)) (o_Intn (os E) (w_trace w) 65536)), w')"
proof -
  let ?n = "pm_Name (pc_Metadata cfg)"
  let ?i = "create_id ?n (o_Intn (os E) (w_trace w) 65536)"
  obtain w1 where w1: "run_state (createID E ?n) w = (?i, w1)" "w_parent w1 = Some []"
    using assms(6) by (simp add: createID_def run_simps)
  have p1: "run_state (addPortoPrefix E ?i) w1 = (?i, w1)"
    using w1(2) by (simp add: addPortoPrefix_def run_simps add_prefix_def)
  have net: "run_state (preparePodNetwork E plugin sp cfg) v = (Ok sp, v)" for sp v
    using assms(7) by (simp add: preparePodNetwork_def)
  have cmd: "run_state (prepareCommand E sp [] [] [CHR ''/'' # c] False) v
      = (Ok (sp\<lparr>CommandArgv := Some (case wrapCmdWithLogShim [CHR ''/'' # c] of Ok a \<Rightarrow> a | _ \<Rightarrow> [])\<rparr>), v)" for sp v
    by (rule run_prepareCommand_absolute)
  show ?thesis
    unfolding RunPodSandbox_def
    using assms(2,8)
    by (simp add: w1(1) p1 run_pause_attempt_hit [OF assms(1)] run_prepareRoot_made [OF assms(3)] net cmd
        run_step_or run_call_or run_step_or_destroy assms(4,5) run_prepareResources_None prepare_image_env_def config_cmd_def Let_def
        CreateFromSpec_def UpdateFromSpec_def run_ask run_lift_call)
qed

definition node_pod :: PodSandboxConfig where
  "node_pod = demo_pod\<lparr>pc_NetworkMode := Some NS_NODE\<rparr>"

definition known_env :: env where
  "known_env = base_env\<lparr>porto := base_porto\<lparr>o_GetProperty := (\<lambda>h i n. Inr [])\<rparr>\<rparr>"

lemma known_removal:
  assumes "isPod i []" "w_parent w = Some []"
  shows "\<exists>w'. run_state (RemovePodSandbox known_env True i) w = (Ok (), w')"
proof -
  have "parsePropertiesNetNS [] [''netns''] = []" by code_simp
  then show ?thesis using assms
    by (simp add: RemovePodSandbox_def remove_pod_def remove_known_def remove_from_stop_def addPortoPrefix_def add_prefix_def
        known_env_def base_env_def base_porto_def base_os_def run_simps Let_def)
qed

theorem pod_lifecycle_witness:
  "\<exists>w1 w3. run_state (RunPodSandbox base_env (\<lambda>f. None) True node_pod) base_world = (Ok ''web-0007'', w1)
     \<and> run_state (RemovePodSandbox known_env True ''web-0007'') w1 = (Ok (), w3)
     \<and> ''web-0007'' \<in> live (w_trace w1) {} \<and> ''web-0007'' \<notin> live (w_trace w3) {}"
proof -
  have i: "create_id ''web'' 7 = ''web-0007''" by code_simp
  have "\<exists>w1. run_state (RunPodSandbox base_env (\<lambda>f. None) True node_pod) base_world
     = (Ok (create_id (pm_Name (pc_Metadata node_pod)) (o_Intn (os base_env) (w_trace base_world) 65536)), w1)"
    by (rule node_pod_run [where img = base_image and c = "''pause''"]) (simp_all add: base_defs node_pod_def demo_pod_def)
  then obtain w1 where w1: "run_state (RunPodSandbox base_env (\<lambda>f. None) True node_pod) base_world = (Ok ''web-0007'', w1)"
    by (auto simp: node_pod_def demo_pod_def base_env_def base_os_def i)
  have "w_parent base_world = Some []" by (simp add: base_world_def)
  then have p: "w_parent w1 = Some []"
    using keepsD [OF st.keeps_RunPodSandbox w1] by (simp add: steady_rel_def)
  have "isPod ''web-0007'' []" by code_simp
  from known_removal [OF this p] obtain w3 where w3: "run_state (RemovePodSandbox known_env True ''web-0007'') w1 = (Ok (), w3)"
    by blast
  have "o_GetProperty (porto known_env) h j n = Inr []" for h j n by (simp add: known_env_def)
  with pod_lifecycle [OF w1 later_refl w3] p
  have "add_prefix [] ''web-0007'' \<in> live (w_trace w1) {}" "add_prefix [] ''web-0007'' \<notin> live (w_trace w3) {}" by auto
  then show ?thesis using w1 w3 by (auto simp: add_prefix_def)
qed

text \<open>
  C17. A container is removed by the identifier it was created under: when CreateContainer answers an
  identifier, this is the identifier of its pod, a slash and a generated name, the container of that
  name under the parent is in the account of the program's containers, and when RemoveContainer with
  this identifier answers without an error, after any requests of either protocol, whatever happened
  to the environment, that very container has been destroyed and is out of the account.
\<close>

theorem container_lifecycle:
  assumes "parent_ok w" "run_state (CreateContainer E tags yaml unpod podSandboxId cfg sandbox) w = (Ok cid, w1)"
    and "later w1 w2" "run_state (RemoveContainer E' cid) w2 = (Ok (), w3)"
  shows "\<exists>q r. w_parent w1 = Some q \<and> cid = podSandboxId @ CHR ''/'' # create_id (cm_Name (cc_Metadata cfg)) r
    \<and> add_prefix q cid \<in> live (w_trace w1) {} \<and> add_prefix q cid \<notin> live (w_trace w3) {}"
proof -
  obtain q r where q: "w_parent w1 = Some q" "add_prefix q cid \<in> live (w_trace w1) {}"
    "cid = podSandboxId @ CHR ''/'' # create_id (cm_Name (cc_Metadata cfg)) r"
    using created_container_live [OF assms(1,2)] by blast
  have "w_parent w2 = Some q" using later_steady [OF assms(3)] q(1) by (simp add: steady_rel_def)
  from RemoveContainer_destroys [OF assms(4) this] q show ?thesis by blast
qed


text \<open>A container of the pod above, with the command of its image.\<close>

definition plain_container :: ContainerConfig where
  "plain_container = \<lparr>cc_Metadata = \<lparr>cm_Name = ''app'', cm_Attempt = 0\<rparr>, cc_Image = ''img'', cc_Command = [], cc_Args = [],
     cc_Envs = [], cc_Mounts = [], cc_Devices = [], cc_Labels = [], cc_Annotations = [], cc_Resources = None, cc_Privileged = False\<rparr>"

lemma run_logshim_mount:
  assumes "mget wp ''/usr/sbin/logshim'' = None"
  shows "\<exists>xs. run_state (prepareContainerMounts E i vs [] wp) w = (xs, w)"
proof -
  have c: "clean_mount logshim_mount = logshim_mount" by code_simp
  have p: "ContainerPath logshim_mount = ''/usr/sbin/logshim''" by (simp add: logshim_mount_def)
  show ?thesis
    using assms by (simp add: prepareContainerMounts_def c p excludedMountTargets_def Let_def run_simps)
qed

lemma plain_container_run:
  "\<exists>w1. run_state (CreateContainer base_env (\<lambda>f. None) yaml unpod ''web-0007'' plain_container node_pod) base_world
     = (Ok (''web-0007/'' @ create_id ''app'' 7), w1)"
proof -
  have w: "mget (wait_pathes unpod (pc_Annotations node_pod)) ''/usr/sbin/logshim'' = None"
    by (simp add: wait_pathes_def node_pod_def demo_pod_def)
  have c: "toContainerCriID (''web-0007/'' @ create_id ''app'' 7) = ''web-0007/'' @ create_id ''app'' 7"
    by (rule generated_not_privileged)
  obtain xs where xs: "\<And>i vs w. run_state (prepareContainerMounts base_env i vs [] (wait_pathes unpod (pc_Annotations node_pod))) w = (xs i vs w, w)"
    using run_logshim_mount [OF w, of base_env] by metis
  have cmd: "run_state (prepareCommand base_env sp [] [] [''/pause''] False) v
      = (Ok (sp\<lparr>CommandArgv := Some (case wrapCmdWithLogShim [''/pause''] of Ok a \<Rightarrow> a | _ \<Rightarrow> [])\<rparr>), v)" for sp v
    by (rule run_prepareCommand_absolute)
  have base: "o_DockerImageStatus (porto base_env) h n p = Inr base_image" "o_MkdirAll (os base_env) h d = Inr ()"
      "o_CreateFromSpec (porto base_env) h s v st = Inr ()" "o_UpdateFromSpec (porto base_env) h s st = Inr ()"
      "o_GetProperty (porto base_env) h i nm = Inl no_container" "o_Intn (os base_env) h k = 7"
      "ParentContainer (Cfg base_env) = []" "w_parent base_world = Some []"
      "ImageId base_image = Some ''sha256:1''" "ConfigCmd base_image = [''/pause'']"
    for h n p d s v st i nm k by (simp_all add: base_defs)
  have n: "cc_Image plain_container = ''img''" "cc_Metadata plain_container = \<lparr>cm_Name = ''app'', cm_Attempt = 0\<rparr>"
    "cc_Resources plain_container = None" "cc_Privileged plain_container = False" "cc_Mounts plain_container = []"
    "cc_Devices plain_container = []" "cc_Command plain_container = []" "cc_Args plain_container = []" "cc_Envs plain_container = []"
    "cdiRequestedDevices (cc_Annotations plain_container) = []" "pc_Dns node_pod = None"
    by (simp_all add: plain_container_def cdiRequestedDevices_def node_pod_def demo_pod_def)
  show ?thesis
    by (simp add: CreateContainer_def place_container_def configure_container_def n base c [simplified] cmd xs
        addPortoPrefix_def removePortoPrefix_def add_prefix_def remove_prefix_def createID_def getParentCnt_def
        prepareContainerLogs_def prepareRoot_def prepareDirs_def prepareContainerResolvConf_def resolveCDIDevices_def
        generateFullContainerName_def edit_container_def no_edits_def main_command_def child_command_def run_simps Let_def)
qed

lemma base_removal:
  assumes "isContainer cid []" "w_parent w = Some []"
  shows "\<exists>w'. run_state (RemoveContainer base_env cid) w = (Ok (), w')"
  using assms by (simp add: RemoveContainer_def destroy_container_def addPortoPrefix_def getParentCnt_def add_prefix_def
      base_env_def base_porto_def base_os_def base_config_def run_simps)

theorem container_lifecycle_witness:
  "\<exists>w1 w3. run_state (CreateContainer base_env (\<lambda>f. None) (d_yaml demo_deps) (d_unpod demo_deps) ''web-0007'' plain_container node_pod) base_world
       = (Ok ''web-0007/app-0007'', w1)
     \<and> run_state (RemoveContainer base_env ''web-0007/app-0007'') w1 = (Ok (), w3)
     \<and> ''web-0007/app-0007'' \<in> live (w_trace w1) {} \<and> ''web-0007/app-0007'' \<notin> live (w_trace w3) {}"
proof -
  have "create_id ''app'' 7 = ''app-0007''" by code_simp
  then obtain w1 where w1: "run_state (CreateContainer base_env (\<lambda>f. None) (d_yaml demo_deps) (d_unpod demo_deps) ''web-0007'' plain_container node_pod) base_world
       = (Ok ''web-0007/app-0007'', w1)"
    using plain_container_run by auto
  have ok: "parent_ok base_world" "w_parent base_world = Some []" by (simp_all add: parent_ok_def base_world_def slash_free_def)
  have "steady (CreateContainer base_env (\<lambda>f. None) (d_yaml demo_deps) (d_unpod demo_deps) ''web-0007'' plain_container node_pod)" by (intro kept_rules)
  from keepsD [OF this w1] ok(2) have p: "w_parent w1 = Some []" by (simp add: steady_rel_def)
  have "isContainer ''web-0007/app-0007'' []" by code_simp
  from base_removal [OF this p] obtain w3 where w3: "run_state (RemoveContainer base_env ''web-0007/app-0007'') w1 = (Ok (), w3)"
    by blast
  from container_lifecycle [OF ok(1) w1 later_refl w3] p
  have "add_prefix [] ''web-0007/app-0007'' \<in> live (w_trace w1) {}" "add_prefix [] ''web-0007/app-0007'' \<notin> live (w_trace w3) {}"
    by auto
  then show ?thesis using w1 w3 by (auto simp: add_prefix_def)
qed

end
