(* ===== verification/Panics.thy ===== *)
theory Panics
  imports Lifetimes
begin

text \<open>
  Where CreateContainer panics (runtime_mapper.go): the one place after which a container may stay
  behind, as a panic runs no cleanup. A step panics only under a condition when each of its parts
  does; the parts of the handler never panic, but for the identifier of the image.
\<close>

section \<open>Steps that panic only under a condition\<close>

definition panics_if :: "bool \<Rightarrow> 'a res prog \<Rightarrow> bool" where
  "panics_if b m \<longleftrightarrow> (\<forall>w. parent_ok w \<longrightarrow> is_Panic (fst (run_state m w)) \<longrightarrow> b)"

lemma panics_ifD: "panics_if b m \<Longrightarrow> run_state m w = (Panic s, w') \<Longrightarrow> parent_ok w \<Longrightarrow> b"
  unfolding panics_if_def by force

lemma panics_if_mono: "panics_if False m \<Longrightarrow> panics_if b m"
  by (auto simp: panics_if_def)

lemma panics_ret: "panics_if b (ret (Ok v))" "panics_if b (ret (Err e))" "b \<Longrightarrow> panics_if b (ret (Panic s))"
  by (simp_all add: panics_if_def)

lemma panics_cases:
  "panics_if b x \<Longrightarrow> panics_if b y \<Longrightarrow> panics_if b (if c then x else y)"
  "(\<And>e. panics_if b (f e)) \<Longrightarrow> (\<And>v. panics_if b (g v)) \<Longrightarrow> panics_if b (case s of Inl e \<Rightarrow> f e | Inr v \<Rightarrow> g v)"
  "(\<And>u v. panics_if b (p u v)) \<Longrightarrow> panics_if b (case z of (u, v) \<Rightarrow> p u v)"
  by (simp_all split: sum.split prod.split)

lemma panics_look: "(\<And>h. \<not> is_Panic (f h)) \<Longrightarrow> panics_if b (look f)"
  by (simp add: panics_if_def run_look)

lemma panics_bind: "steady m \<Longrightarrow> (\<And>v. panics_if b (k v)) \<Longrightarrow> panics_if b (State_Monad.bind m k)"
proof -
  assume m: "steady m" and k: "\<And>v. panics_if b (k v)"
  show ?thesis
    unfolding panics_if_def
  proof (intro allI impI)
    fix w assume w: "parent_ok w" and p: "is_Panic (fst (run_state (State_Monad.bind m k) w))"
    obtain v w1 where r: "run_state m w = (v, w1)" by force
    have "parent_ok w1" using keepsD [OF m r] w by (simp add: steady_rel_def)
    then show b using k [of v] p r by (simp add: panics_if_def)
  qed
qed

text \<open>A step between what panics only under the condition, and one whose result is kept for the end.\<close>

lemma panics_result:
  assumes "steady m" "panics_if b m" "\<And>v. panics_if b (j v)" "\<And>e. panics_if b (k e)"
  shows "panics_if b (do { r \<leftarrow> m; case r of Ok v \<Rightarrow> j v | Err e \<Rightarrow> k e | Panic s \<Rightarrow> ret (Panic s) })"
  unfolding panics_if_def
proof (intro allI impI)
  fix w assume w: "parent_ok w"
  obtain r w1 where r: "run_state m w = (r, w1)" by force
  have ok: "parent_ok w1" using keepsD [OF assms(1) r] w by (simp add: steady_rel_def)
  assume "is_Panic (fst (run_state (do { r \<leftarrow> m; case r of Ok v \<Rightarrow> j v | Err e \<Rightarrow> k e | Panic s \<Rightarrow> ret (Panic s) }) w))"
  then show b
    using r ok assms(3,4) panics_ifD [OF assms(2) _ w] unfolding panics_if_def by (cases r) auto
qed

lemma panics_steps:
  "steady m \<Longrightarrow> panics_if b m \<Longrightarrow> (\<And>v. panics_if b (k v)) \<Longrightarrow> panics_if b (step_or g m k)"
  "steady m' \<Longrightarrow> panics_if b m' \<Longrightarrow> (\<And>v. panics_if b (k' v)) \<Longrightarrow> panics_if b (step_or_destroy E n g m' k')"
  "steady c \<Longrightarrow> (\<And>v. panics_if b (k'' v)) \<Longrightarrow> panics_if b (call_or g c k'')"
  unfolding step_or_def step_or_destroy_def call_or_def
  by (intro panics_result panics_bind panics_cases panics_ret kept_rules | assumption)+

lemma panics_deferred:
  assumes "steady m" "panics_if b m"
  shows "panics_if b (do { r \<leftarrow> m; x \<leftarrow> RemoveAll E p; ret r })"
  using assms by (simp add: panics_if_def RemoveAll_def run_simps split: prod.split)

lemma panics_lift_call: "panics_if b (lift_call m)"
  by (simp add: panics_if_def run_simps split: prod.split sum.split)

lemma steady_parts [kept_rules]:
  "steady (setPropertyByNameInPorto E tags sp f v)" "steady (loadCDISpecs E yaml dirs)" "steady (resolveInRoot E root d)"
  "steady (getSandboxCommand E podID)" "steady (edit_container E i cdi)" "steady (main_command E podID spec cfg img)"
  "steady (child_command E i spec cfg img)"
  unfolding setPropertyByNameInPorto_def loadCDISpecs_def resolveInRoot_def getSandboxCommand_def edit_container_def
    linkCDIMounts_def runCDIHooks_def main_command_def child_command_def
  by (intro kept_rules)+

lemmas panics_rules = panics_steps panics_bind panics_cases panics_ret(1,2) panics_lift_call kept_rules

section \<open>The parts of CreateContainer\<close>

lemma is_Panic_bind: "is_Panic (bind_res r f) \<longleftrightarrow> is_Panic r \<or> (\<exists>v. r = Ok v \<and> is_Panic (f v))"
  by (cases r) simp_all

lemma calm_resources: "panics_if b (prepareResources E tags spec cfg)"
proof -
  have "panics_if b (setPropertyByNameInPorto E tags sp f v)" for sp f v
    by (simp add: panics_if_def setProperty_no_panic)
  then show ?thesis
    unfolding prepareResources_def Let_def
    by (auto intro!: panics_rules split: option.split)
qed

lemma calm_logs: "panics_if b (prepareContainerLogs E spec priv)"
  unfolding prepareContainerLogs_def Let_def by (intro panics_rules)

lemma calm_root: "panics_if b (prepareRoot E spec vs rp im)"
  unfolding prepareRoot_def prepareDirs_def Let_def by (intro panics_rules)

lemma load_files_calm: "\<not> is_Panic (load_files readFile yaml dir fs specs)"
proof (induction fs arbitrary: specs)
  case (Cons f fs)
  then show ?case by (cases f) (simp add: Let_def split: sum.split)
qed simp

lemma load_dirs_calm: "\<not> is_Panic (load_dirs readDir readFile yaml dirs specs)"
proof (induction dirs arbitrary: specs)
  case (Cons d ds)
  show ?case
    using Cons.IH load_files_calm [of readFile yaml d _ specs]
    by (auto simp: is_Panic_bind split: sum.split)
qed simp

lemma calm_devices: "panics_if b (resolveCDIDevices E yaml req dirs)"
proof -
  have "panics_if b (ret (resolve_devices specs [] [] no_edits req))" for specs
    using resolve_devices_no_panic by (simp add: panics_if_def)
  moreover have "panics_if b (loadCDISpecs E yaml dirs)"
    unfolding loadCDISpecs_def by (rule panics_look) (rule load_dirs_calm)
  ultimately show ?thesis unfolding resolveCDIDevices_def by (intro panics_rules) simp_all
qed

lemma calm_target: "panics_if b (cdiMountTarget E root p)"
proof -
  have "panics_if b (resolveInRoot E root d)" for d
    unfolding resolveInRoot_def by (rule panics_look) (rule resolve_loop_no_panic)
  then show ?thesis unfolding cdiMountTarget_def Let_def by (intro panics_rules) simp_all
qed

lemma calm_link_mounts: "panics_if b (link_mounts E i root linked ms)"
proof (induction ms arbitrary: linked)
  case (Cons m ms)
  then show ?case unfolding link_mounts.simps by (intro panics_rules calm_target)
qed (simp add: panics_ret)

lemma calm_run_stage: "panics_if b (run_stage E st js hs)"
proof (induction hs)
  case (Cons h hs)
  then show ?case unfolding run_stage.simps runCDIHook_def by (intro panics_rules)
qed (simp add: panics_ret)

lemma calm_run_stages: "panics_if b (run_stages E sts js hs)"
proof (induction sts)
  case (Cons st sts)
  then show ?case unfolding run_stages.simps by (intro panics_rules calm_run_stage)
qed (simp add: panics_ret)

lemma calm_edit: "panics_if b (edit_container E i cdi)"
  unfolding edit_container_def linkCDIMounts_def runCDIHooks_def
  by (intro panics_rules panics_deferred calm_link_mounts calm_run_stages)

lemma calm_command: "panics_if b (prepareCommand E spec c a im dis)"
proof -
  have "is_Panic (wrapCmdWithLogShim cmd) \<longleftrightarrow> cmd = []" for cmd
    by (cases cmd) (simp_all add: wrapCmdWithLogShim_def)
  then show ?thesis
    unfolding panics_if_def prepareCommand_def findChrootExecutable_def
    by (auto simp: run_simps Let_def is_Panic_bind)
qed

lemma calm_main_command: "panics_if b (main_command E podID spec cfg img)"
  unfolding main_command_def by (intro panics_rules calm_command)

lemma calm_child_command: "panics_if b (child_command E i spec cfg img)"
proof -
  have "panics_if b (do { r \<leftarrow> prepareCommand E sp c a im dis;
     ret (case r of Ok ct \<Rightarrow> Ok (f ct) | Err e \<Rightarrow> Ok [] | Panic s \<Rightarrow> Panic s) })" for sp c a im dis and f :: "TContainerSpec \<Rightarrow> string list"
    using calm_command [of b E sp c a im dis]
    by (auto simp: panics_if_def run_simps split: prod.split res.split)
  then show ?thesis unfolding child_command_def by (auto intro: panics_ret)
qed

text \<open>A name with a slash is never that of the parent, so that the prefix can be taken off.\<close>

lemma calm_prefix: "CHR ''/'' \<in> set n \<Longrightarrow> panics_if b (removePortoPrefix E n)"
  unfolding panics_if_def
proof (intro allI impI)
  fix w assume n: "CHR ''/'' \<in> set n" and w: "parent_ok w" and p: "is_Panic (fst (run_state (removePortoPrefix E n) w))"
  obtain q w1 where q: "run_state (getParentCnt E) w = (q, w1)" by force
  have "slash_free q" using getParentCnt_run [OF w q] by blast
  with n have "n \<noteq> q" by (auto simp: slash_free_def)
  then have "\<not> is_Panic (remove_prefix q n)" by (auto simp: remove_prefix_def prefix_def neq_Nil_conv)
  with p q show b by (simp add: removePortoPrefix_def)
qed

lemma calm_configure:
  "CHR ''/'' \<in> set i \<Longrightarrow> panics_if (ImageId img = None) (configure_container E i podID logPath cfg img cdi)"
  unfolding configure_container_def Let_def
  by (auto intro!: panics_rules panics_ret(3) calm_edit calm_main_command calm_child_command calm_prefix
      split: option.split)

lemma calm_place:
  "CHR ''/'' \<in> set i \<Longrightarrow> panics_if (ImageId img = None) (place_container E sb i podID logPath cfg img wp cdi spec vs)"
  unfolding place_container_def Let_def by (intro panics_rules calm_configure)

lemma calm_setup:
  assumes run: "run_state (container_setup E tags yaml unpod podSandboxId cfg sandbox podID containerID n) w = (Panic s, w')"
    and "CHR ''/'' \<in> set n" "parent_ok w"
  shows "\<exists>img es. w_trace w' = w_trace w @ EvDockerImageStatus (cc_Image cfg) (Place (Cfg E)) (Inr img) # es \<and> ImageId img = None"
proof -
  let ?ask = "o_DockerImageStatus (porto E) (w_trace w) (cc_Image cfg) (Place (Cfg E))"
  let ?rest = "\<lambda>img. step_or (FmtV ''Failed to prepare resources'')
       (prepareResources E tags (initial_spec n (cc_Privileged cfg)) (cc_Resources cfg)) (\<lambda>spec.
     step_or (FmtV ''CreateContainer'') (prepareContainerLogs E spec (cc_Privileged cfg)) (\<lambda>(spec, logPath).
     step_or (FmtV ''CreateContainer'') (prepareRoot E (prepareContainerResolvConf spec (pc_Dns sandbox)) [] (CHR ''/'' # containerID) (cc_Image cfg)) (\<lambda>(spec, volumes).
     step_or (FmtV ''CreateContainer'')
       (resolveCDIDevices E yaml (cdiRequestedDevices (cc_Annotations cfg)) (SpecDirs (Cfg E))) (\<lambda>cdi.
     place_container E podSandboxId n podID logPath cfg img (wait_pathes unpod (pc_Annotations sandbox)) cdi spec volumes))))"
  obtain img where img: "?ask = Inr img"
    using run by (cases ?ask) (simp_all add: container_setup_def run_call_or DockerImageStatus_def run_ask)
  let ?w = "w\<lparr>w_trace := w_trace w @ [EvDockerImageStatus (cc_Image cfg) (Place (Cfg E)) (Inr img)]\<rparr>"
  have r: "run_state (?rest img) ?w = (Panic s, w')"
    using run img by (simp add: container_setup_def run_call_or DockerImageStatus_def run_ask Let_def)
  have "panics_if (ImageId img = None) (?rest img)"
    using assms(2) by (intro panics_rules calm_resources calm_logs calm_root calm_devices calm_place)
  moreover have "parent_ok ?w" using assms(3) by (simp add: parent_ok_def)
  ultimately have "ImageId img = None" using panics_ifD r by blast
  moreover have "steady (?rest img)"
    unfolding place_container_def configure_container_def Let_def by (intro kept_rules)
  from keepsD [OF this r] obtain es where "w_trace w' = w_trace ?w @ es" by (auto simp: steady_rel_def)
  ultimately show ?thesis by auto
qed

section \<open>Properties\<close>

text \<open>
  C3. CreateContainer leaves no container behind, but for one panic: whatever the outside answers,
  either no container was created, or exactly one was, with everything before it only preparation,
  and when the handler then returns an error (of a CDI mount, a hook, the command or the last
  update), Destroy of that container is the last call made. It panics only where Porto answered with
  an image that has no identifier, and this is the one way to leave a container behind
  (\<open>container_left_by_panic\<close>).
\<close>

theorem container_never_orphaned:
  assumes "parent_ok w" "run_state (CreateContainer E tags yaml unpod podSandboxId cfg sandbox) w = (v, w')"
  shows "\<exists>es. w_trace w' = w_trace w @ es \<and> guarded v es
    \<and> (is_Panic v \<longrightarrow> (\<exists>img. EvDockerImageStatus (cc_Image cfg) (Place (Cfg E)) (Inr img) \<in> set es \<and> ImageId img = None))"
proof -
  obtain es where es: "w_trace w' = w_trace w @ es" "guarded v es"
    using emitsD [OF guarded_CreateContainer assms(2)] by blast
  have "\<exists>img. EvDockerImageStatus (cc_Image cfg) (Place (Cfg E)) (Inr img) \<in> set es \<and> ImageId img = None" if "v = Panic s" for s
  proof -
    obtain podID wa where a: "run_state (addPortoPrefix E podSandboxId) w = (podID, wa)" by (rule prod.exhaust)
    obtain cid wb where b: "run_state (createID E (cm_Name (cc_Metadata cfg))) wa = (cid, wb)" by (rule prod.exhaust)
    have st: "steady (addPortoPrefix E podSandboxId)" "steady (createID E (cm_Name (cc_Metadata cfg)))" by (intro kept_rules)+
    have ok: "parent_ok wb" using keepsD [OF st(1) a] keepsD [OF st(2) b] assms(1) by (simp add: steady_rel_def)
    have c: "run_state (container_setup E tags yaml unpod podSandboxId cfg sandbox podID cid (Join ''/'' [podID, cid])) wb = (Panic s, w')"
      using assms(2) a b that by (simp add: CreateContainer_setup run_simps del: Join.simps)
    have "CHR ''/'' \<in> set (Join ''/'' [podID, cid])" by simp
    from calm_setup [OF c this ok] obtain img fs where
      img: "w_trace w' = w_trace wb @ EvDockerImageStatus (cc_Image cfg) (Place (Cfg E)) (Inr img) # fs" "ImageId img = None" by blast
    obtain xs ys where "w_trace wa = w_trace w @ xs" "w_trace wb = w_trace wa @ ys"
      using keepsD [OF st(1) a] keepsD [OF st(2) b] by (auto simp: steady_rel_def)
    with es(1) img show ?thesis by auto
  qed
  with es show ?thesis by (auto simp: is_Panic_iff)
qed

text \<open>A run that panics: Porto has the image, but no identifier for it.\<close>

definition nameless_env :: env where
  "nameless_env = base_env\<lparr>porto := base_porto\<lparr>o_DockerImageStatus := (\<lambda>h n p. Inr (base_image\<lparr>ImageId := None\<rparr>))\<rparr>\<rparr>"

lemma container_left_by_panic:
  "\<exists>s w1. run_state (CreateContainer nameless_env (\<lambda>f. None) yaml unpod ''web-0007'' plain_container node_pod) base_world = (Panic s, w1)
     \<and> (\<exists>sp vs. EvCreateFromSpec sp vs False (Inr ()) \<in> set (w_trace w1)) \<and> (\<forall>c x. EvDestroy c x \<notin> set (w_trace w1))"
proof -
  have w: "mget (wait_pathes unpod (pc_Annotations node_pod)) ''/usr/sbin/logshim'' = None"
    by (simp add: wait_pathes_def node_pod_def demo_pod_def)
  obtain xs where xs: "\<And>i vs w. run_state (prepareContainerMounts nameless_env i vs [] (wait_pathes unpod (pc_Annotations node_pod))) w = (xs i vs w, w)"
    using run_logshim_mount [OF w, of nameless_env] by metis
  have cmd: "run_state (prepareCommand nameless_env sp [] [] [''/pause''] False) v
      = (Ok (sp\<lparr>CommandArgv := Some (case wrapCmdWithLogShim [''/pause''] of Ok a \<Rightarrow> a | _ \<Rightarrow> [])\<rparr>), v)" for sp v
    by (rule run_prepareCommand_absolute)
  let ?img = "base_image\<lparr>ImageId := None\<rparr>"
  have base: "o_DockerImageStatus (porto nameless_env) h n p = Inr ?img" "o_MkdirAll (os nameless_env) h d = Inr ()"
      "o_CreateFromSpec (porto nameless_env) h s v st = Inr ()" "o_UpdateFromSpec (porto nameless_env) h s st = Inr ()"
      "o_GetProperty (porto nameless_env) h i nm = Inl no_container" "o_Intn (os nameless_env) h k = 7"
      "ParentContainer (Cfg nameless_env) = []" "w_parent base_world = Some []" "w_trace base_world = []"
      "ImageId ?img = None" "ConfigCmd ?img = [''/pause'']"
    for h n p d s v st i nm k by (simp_all add: nameless_env_def base_defs)
  have n: "cc_Image plain_container = ''img''" "cc_Metadata plain_container = \<lparr>cm_Name = ''app'', cm_Attempt = 0\<rparr>"
    "cc_Resources plain_container = None" "cc_Privileged plain_container = False" "cc_Mounts plain_container = []"
    "cc_Devices plain_container = []" "cc_Command plain_container = []" "cc_Args plain_container = []" "cc_Envs plain_container = []"
    "cdiRequestedDevices (cc_Annotations plain_container) = []" "pc_Dns node_pod = None"
    by (simp_all add: plain_container_def cdiRequestedDevices_def node_pod_def demo_pod_def)
  show ?thesis
    by (simp add: CreateContainer_def place_container_def configure_container_def n base cmd xs
        addPortoPrefix_def add_prefix_def createID_def getParentCnt_def
        prepareContainerLogs_def prepareRoot_def prepareDirs_def prepareContainerResolvConf_def resolveCDIDevices_def
        generateFullContainerName_def edit_container_def no_edits_def main_command_def child_command_def run_simps Let_def)
qed

theorem container_never_orphaned_witness:
  "\<exists>s w1. run_state (CreateContainer nameless_env (\<lambda>f. None) (d_yaml demo_deps) (d_unpod demo_deps) ''web-0007'' plain_container node_pod) base_world = (Panic s, w1)
     \<and> (\<exists>img. EvDockerImageStatus ''img'' (Place (Cfg nameless_env)) (Inr img) \<in> set (w_trace w1) \<and> ImageId img = None)"
proof -
  obtain s w1 where r: "run_state (CreateContainer nameless_env (\<lambda>f. None) (d_yaml demo_deps) (d_unpod demo_deps) ''web-0007'' plain_container node_pod) base_world = (Panic s, w1)"
    using container_left_by_panic by blast
  have "parent_ok base_world" by (simp add: parent_ok_def base_world_def slash_free_def)
  from container_never_orphaned [OF this r] r show ?thesis by (auto simp: plain_container_def base_world_def)
qed

end
