(* ===== verification/Json_Fuel.thy ===== *)
theory Json_Fuel
  imports Json_Decode
begin

text \<open>
  The fuel of the parsers of Json_Decode is enough for every text, well-formed or not: each parser
  leaves less than it was given, and with at least the fuel \<open>json_parse\<close> starts with, more changes
  nothing. So a text is refused for what it is, never for want of fuel.
\<close>

section \<open>What is left\<close>

lemma length_skip_ws: "length (skip_ws s) \<le> length s"
  by (induction s) auto

lemma skip_ws_shorter: "skip_ws s = c # cs \<Longrightarrow> length cs < length s"
  using length_skip_ws [of s] by simp

lemma digits_shorter: "length (digits s) \<le> length s"
  by (induction s) auto

lemma digits1_shorter: "digits1 s = Some rest \<Longrightarrow> length rest \<le> length s"
  using digits_shorter by (auto simp: digits1_def split: if_splits)

lemma number_exp_shorter: "number_exp s = Some rest \<Longrightarrow> length rest \<le> length s"
  by (auto simp: number_exp_def split: list.splits if_splits dest!: digits1_shorter)

lemma number_frac_shorter: "number_frac s = Some rest \<Longrightarrow> length rest \<le> length s"
  by (auto simp: number_frac_def bind_eq_Some_conv split: list.splits if_splits dest!: digits1_shorter number_exp_shorter)

lemma number_int_shorter: "number_int s = Some rest \<Longrightarrow> length rest < length s"
proof -
  assume n: "number_int s = Some rest"
  then obtain c cs where s: "s = c # cs" by (auto simp: number_int_def split: list.splits)
  have "length (digits cs) \<le> length cs" by (rule digits_shorter)
  with n s show ?thesis by (auto simp: number_int_def split: if_splits dest!: number_frac_shorter)
qed

lemma number_shorter: "number s = Some rest \<Longrightarrow> length rest < length s"
  by (auto simp: number_def split: list.splits if_splits dest!: number_int_shorter)

lemma hex4_shorter: "hex4 s = Some (r, rest) \<Longrightarrow> length rest < length s"
  by (auto simp: hex4_def split: list.splits option.splits)

lemma low_surrogate_shorter: "low_surrogate s = Some (r, rest) \<Longrightarrow> length rest < length s"
  by (auto simp: low_surrogate_def split: list.splits if_splits option.splits prod.splits dest!: hex4_shorter)

lemma unescape_shorter: "unescape c s = Some (out, rest) \<Longrightarrow> length rest \<le> length s"
  by (auto simp: unescape_def unescape_u_def split: if_splits option.splits prod.splits dest!: hex4_shorter low_surrogate_shorter)

lemma utf8_front_shorter: "utf8_front (c # cs) = (out, rest) \<Longrightarrow> length rest < length (c # cs)"
  by (auto simp: utf8_front_def Let_def split: if_splits)

lemma str_chars_shorter: "str_chars n s = Some (out, rest) \<Longrightarrow> length rest < length s"
proof (induction n arbitrary: s out rest)
  case (Suc n)
  then show ?case
    by (cases s) (auto split: if_splits list.splits option.splits prod.splits
        dest!: Suc.IH unescape_shorter utf8_front_shorter)
qed simp

lemma str_chars_fuel: "length s \<le> n \<Longrightarrow> length s \<le> m \<Longrightarrow> str_chars n s = str_chars m s"
proof (induction n arbitrary: s m)
  case 0
  then show ?case by (cases m) simp_all
next
  case (Suc n)
  show ?case
  proof (cases s)
    case Nil
    then show ?thesis by (cases m) simp_all
  next
    case (Cons c cs)
    then obtain k where m: "m = Suc k" "length cs \<le> n" "length cs \<le> k" using Suc.prems by (cases m) simp_all
    have esc: "str_chars n rest = str_chars k rest" if "cs = e # es" "unescape e es = Some (out, rest)" for e es out rest
      using unescape_shorter [OF that(2)] m that(1) by (intro Suc.IH) simp_all
    have "str_chars n rest = str_chars k rest" if "utf8_front (c # cs) = (out, rest)" for out rest
      using utf8_front_shorter [OF that] m by (intro Suc.IH) simp_all
    then show ?thesis using esc by (auto simp: Cons m split: list.splits option.splits prod.splits)
  qed
qed

lemma literal_shorter: "literal t v s = Some (u, rest) \<Longrightarrow> t \<noteq> [] \<Longrightarrow> s \<noteq> [] \<Longrightarrow> length rest < length s"
  by (auto simp: literal_def split: if_splits)

text \<open>Each parser consumes something, so that what it leaves can be parsed with less fuel.\<close>

lemma parse_shorter:
  "parse_value n d s = Some (v, rest) \<Longrightarrow> length rest < length s"
  "parse_elements n d s = Some (vs, rest) \<Longrightarrow> length rest < length s"
  "parse_members n d s = Some rest \<Longrightarrow> length rest < length s"
proof (induction n arbitrary: d s v vs rest)
  case (Suc n)
  {
    case 1
    then obtain c cs where s: "skip_ws s = c # cs" by (auto split: list.splits)
    then have "length cs < length s" by (rule skip_ws_shorter)
    with 1 s show ?case
      by (auto split: if_splits list.splits
          dest!: Suc.IH(2,3) str_chars_shorter skip_ws_shorter literal_shorter number_shorter)
  next
    case 2
    then show ?case
      by (auto split: if_splits list.splits option.splits dest!: Suc.IH(1,2) skip_ws_shorter)
  next
    case 3
    then show ?case
      by (auto split: if_splits list.splits option.splits dest!: Suc.IH(1,3) str_chars_shorter skip_ws_shorter)
  }
qed simp_all

section \<open>The fuel is enough\<close>

lemma parse_value_Nil: "parse_value n d [] = None"
  by (cases n) simp_all

lemma parse_fuel:
  "2 * length s \<le> n \<Longrightarrow> 2 * length s \<le> m \<Longrightarrow> parse_value n d s = parse_value m d s"
  "2 * length s < n \<Longrightarrow> 2 * length s < m \<Longrightarrow> parse_elements n d s = parse_elements m d s"
  "2 * length s < n \<Longrightarrow> 2 * length s < m \<Longrightarrow> parse_members n d s = parse_members m d s"
proof (induction n arbitrary: d s m)
  case 0
  {
    case 1
    then show ?case by (simp add: parse_value_Nil)
  }
next
  case (Suc n)
  {
    case 1
    show ?case
    proof (cases "s = []")
      case True
      then show ?thesis by (simp only: parse_value_Nil)
    next
      case False
      with 1 obtain k where m: "m = Suc k" "2 * length s \<le> Suc k" by (cases m) auto
      have inner: "parse_elements n e (x # xs) = parse_elements k e (x # xs)" "parse_members n e (x # xs) = parse_members k e (x # xs)"
        if "skip_ws s = c # cs" "skip_ws cs = x # xs" for e c cs x xs
      proof -
        have "2 * length (x # xs) < n" "2 * length (x # xs) < k"
          using 1 m skip_ws_shorter [OF that(1)] length_skip_ws [of cs] that(2) by simp_all
        then show "parse_elements n e (x # xs) = parse_elements k e (x # xs)" "parse_members n e (x # xs) = parse_members k e (x # xs)"
          by (rule Suc.IH(2), rule Suc.IH(3))
      qed
      then show ?thesis by (auto simp: m split: list.splits)
    qed
  next
    case 2
    then obtain k where m: "m = Suc k" by (cases m) auto
    have v: "parse_value n d s = parse_value k d s" using 2 m by (intro Suc.IH(1)) simp_all
    have "parse_elements n d cs = parse_elements k d cs"
      if "parse_value k d s = Some (u, rest)" "skip_ws rest = c # cs" for u rest c cs
      using 2 m parse_shorter(1) [OF that(1)] skip_ws_shorter [OF that(2)] by (intro Suc.IH(2)) simp_all
    then show ?case by (auto simp: m v split: list.splits option.splits)
  next
    case 3
    then obtain k where m: "m = Suc k" by (cases m) auto
    have v: "parse_value n d cs = parse_value k d cs"
      and w: "parse_value k d cs = Some (u, rest2) \<Longrightarrow> skip_ws rest2 = x # xs \<Longrightarrow> parse_members n d xs = parse_members k d xs"
      if "skip_ws s = q # qs" "str_chars (length qs) qs = Some (key, rest)" "skip_ws rest = c # cs"
      for q qs key rest c cs u rest2 x xs
    proof -
      have cs: "length cs < length s"
        using skip_ws_shorter [OF that(1)] str_chars_shorter [OF that(2)] skip_ws_shorter [OF that(3)] by simp
      then show "parse_value n d cs = parse_value k d cs" using 3 m by (intro Suc.IH(1)) simp_all
      assume "parse_value k d cs = Some (u, rest2)" "skip_ws rest2 = x # xs"
      then have "length xs < length cs" using parse_shorter(1) skip_ws_shorter by (meson less_trans)
      then show "parse_members n d xs = parse_members k d xs" using cs 3 m by (intro Suc.IH(3)) simp_all
    qed
    show ?case using v w by (auto simp: m split: list.splits option.splits)
  }
qed simp_all

text \<open>Parsing with any more fuel is parsing as \<open>json_parse\<close> does.\<close>

lemma json_fuel_enough:
  "2 * length s + 2 \<le> n \<Longrightarrow>
   json_parse s = (case parse_value n 0 s of Some (v, rest) \<Rightarrow> if skip_ws rest = [] then Some v else None | None \<Rightarrow> None)"
  unfolding json_parse_def by (subst parse_fuel(1) [of s "2 * length s + 2" n]) simp_all

end
