(* ===== verification/Spec2Isabelle.thy ===== *)
theory Spec2Isabelle
  imports Portforward Server Logger Logshim Remount Serving Exec_Streams Parent_Once Panics Json_Fuel
begin

text \<open>
  portoshim is a service of the Container Runtime Interface (CRI) on top of the container manager
  Porto: the kubelet asks it over gRPC for pods and containers, and it answers by calling portod,
  the network plugins (CNI) and the file system. This development models the program of
  cmd/portoshim, and the log wrapper of cmd/logshim that it puts in front of the commands of
  containers, and proves what makes them correct. File names below are of these two directories.

  \<^bold>\<open>How the code is modelled.\<close> What the program calls and does not contain is an environment: records
  of functions that answer each call from the history of all calls before it (World: \<open>env\<close>,
  \<open>porto\<close>, \<open>os\<close>, \<open>cni\<close>), so that a theorem about every environment holds whatever portod, the
  plugins, the kernel and the file system answer, and however their answers change. A handler is a
  program in a state monad over a \<open>world\<close>: the events so far, each a call with its answer, and the
  globals of the program (the parent container once read, the copies made for mounts, the
  registries). A function of Go that may fail returns a \<open>res\<close>: \<open>Ok\<close>, \<open>Err\<close> with an error value, or
  \<open>Panic\<close>, which is a result like the others and not excluded; \<open>step_or\<close>, \<open>call_or\<close> and
  \<open>step_or_destroy\<close> are the early returns of the source. Strings are lists of bytes, maps are
  association lists with distinct keys (the order of a Go map is the order of the list, about which
  nothing is assumed), machine integers are words of their width. Where goroutines run beside each
  other, the model is a machine instead: an inductive step relation with one rule for each step of
  each goroutine.

  \<^bold>\<open>The theories, from below.\<close>

  \<^item> Prelude: errors, results, maps, the monad with its early returns, generic facts.
  \<^item> Go_Strings, Go_Numbers, Go_Path, Base64, Json, Json_Decode: what the program uses of the
    packages strings, strconv, fmt, path/filepath, encoding/base64 and encoding/json, with the laws
    of printing and parsing; Json_Fuel: the fuel of the JSON parser is enough for every text.
    Machines: the interface of the machines.
  \<^item> World, Cri: the environment, and the messages of the interface.
  \<^item> Porto_Id, Labels (runtime_mapper.go, "INTERNAL" and the label functions): identifiers and
    their prefix, labels and annotations in the properties of Porto, states and numbers.
    Parent_Once: the first reading of the parent container by requests beside each other.
  \<^item> Command, Resources, Mounts, Network (runtime_mapper.go, property.go, retry.go, volume.go): the
    parts of a container: command and environment, limits, root and mounts and logs, network.
  \<^item> CDI (cdi.go): requested devices, spec files, edits, paths in the root, mounts, hooks.
  \<^item> Images (image_mapper.go, registry.go): the image service and the registries.
  \<^item> Lifecycle, Pods, Containers, Container_Ops, Stats (runtime_mapper.go, privileged.go): the
    handlers of the runtime service, whole, with every error path. Remount (privileged.go): the
    thread that makes a mount of a container writable.
  \<^item> Streaming, Exec_Streams, Portforward (streaming.go, portforward.go): attached commands and
    forwarded ports: descriptors, threads and network namespaces as programs, the goroutines that
    copy as machines, in which a side that is open and idle blocks the goroutine that reads it.
  \<^item> Kept: what every handler keeps, in four layers by the calls a handler may make. Orphans: the
    account of the containers the service has created and not destroyed, an abstract view of its
    history, and what a request of each kind does to it. Lifetimes: the life of a pod and of a
    container from its creation to its removal, by the identifier that was answered. Panics: the one
    condition under which CreateContainer panics.
  \<^item> Service (cri_api.go), Interceptor (server.go, logger.go): requests of both protocol versions
    given to the handlers, and the interceptor around them with its context and its log.
  \<^item> Server (main.go, config.go, server.go, logger.go), Serving (server.go), Logger (logger.go): the
    start in the order of main with the lines it logs, serving and shutdown from the start of main
    to the status of the process, and the rotated file of the log with its failing writes.
  \<^item> Logshim (logshim/main.go): the loops over the output of a command and what they write.
  \<^item> This theory: the life of the whole program, its start followed by any requests.

  \<^bold>\<open>The interfaces.\<close> Components rely on each other through locales, each interpreted on the
  definitions of the component that provides it: \<open>label_codec\<close> (Labels, by the base64 coding),
  \<open>id_alias\<close> (Porto_Id, by adding and removing the parent prefix), \<open>outcome\<close> (Lifecycle: a property of
  the events of a step that early returns and calls keep; by \<open>guarded\<close>, \<open>transient\<close>, \<open>reported\<close> and
  \<open>destroys\<close>) with its extensions \<open>creation\<close> and \<open>creating_handler\<close> (Lifecycle, Pods, Containers: a contract
  on a handler that creates a container, and the two handlers under any such contract; by \<open>guarded\<close>
  with \<open>finishing\<close>, and by the creation of no other container), \<open>kept\<close> with its extensions \<open>kept_asking\<close>,
  \<open>kept_quiet\<close>, \<open>kept_tame\<close> and \<open>kept_all\<close> (Kept: a relation between worlds that some calls and steps in a row keep,
  and that therefore the handlers keep which make only such calls; by \<open>steady_rel\<close>, \<open>untouched_rel\<close>, and
  thrice by \<open>does\<close>, that only events of a kind happen), and \<open>machine\<close> with \<open>bounded_machine\<close> (Machines:
  an invariant that every step keeps, and a measure that every step of the program itself decreases,
  beside those of its surroundings; by every machine of the development).

  \<^bold>\<open>What is proved.\<close> Nothing is left behind: a failed creation of a pod or container destroys what it
  created (a panic for an image without identifier excepted), an attached or synchronous command
  leaves no container, and of descriptors the attached one only its connection to Porto, a thread never
  goes back to the pool in a foreign network namespace, a remount touches one mount of one container;
  over any requests, each container created and not destroyed is accounted for, and a pod or container
  removed by the identifier it was created under is destroyed itself.
  Things happen in order: the removal of pods and containers, the hooks and mounts of CDI, the
  volumes by their targets. What is written is read back: labels and annotations, names with their
  prefix, the command of a privileged container, environments, the log of a container. Paths
  resolved in the root of a container have no symlink on them, and the walk to an executable ends
  within its bound. The machines keep their streams in order, forwarding and
  shutdown wait for their sides and for the pending requests and for nothing else, a shutdown answers
  every accepted request, the log has an open file and accounts for every line. Refinements: the resolved devices are those of an abstract
  specification, a logged stream is the stream, the reading of the parent beside other requests is
  the sequential one, the intercepted request is the request. The whole program keeps its globals
  and its credentials through any life. Some theorems show where the code falls short; the lemmas
  next to them, such as \<open>output_lost\<close>, \<open>session_cut\<close>, \<open>misleading_status\<close>,
  \<open>container_left_by_panic\<close>, \<open>exec_env_misread\<close>, \<open>log_line_lost\<close>, \<open>log_lost_at_exit\<close>,
  \<open>child_left_stopped\<close>, \<open>traffic_limits_ignored\<close> and \<open>failed_pod_keeps_netns\<close>, are runs that do it.

  \<^bold>\<open>Bounds and fuel.\<close> \<open>retry\<close> is tried three times, as in the source, and this is its recursion. The
  walks through symlinks have the bounds of the source, 10 for an executable and 40 for a path in a
  root. The parser of JSON runs on fuel of twice the length of the text and two, one for each value
  and each element, and more changes nothing for any text (\<open>json_fuel_enough\<close>); its depth is bounded by
  10000 as in encoding/json. The log wrapper reads through a
  buffer of 16 KiB, and its loop recurses on what is left of the stream. Everything else is
  structural recursion or has a measure; no definition may fail to terminate.

  \<^bold>\<open>Not modelled, and why.\<close> The protocol of Porto, gRPC, CNI, the streaming library of Kubernetes,
  the parsers of YAML and of Kubernetes pods, and the formats of the logging library are not in the
  repository: they are parameters, and of gRPC and \<open>sync.Once\<close> the machines state what is documented; a signal before
  the program asks for signals, which ends it as the system does, is left out.
  The handlers run one after the other in Service; what they share beside each other is the parent
  container (Parent_Once) and the map of copies, whose missing lock is not modelled. Left out are
  the parsing of the two flags, the debug lines inside the handlers (trace.go among them), the texts
  of messages where no caller reads them, and \<open>bindMount\<close>, which nobody calls. The answers of a
  version 1alpha2 handler are those of version 1 seen at another type, as the casts of cri_api.go
  have it; that the two layouts agree is not checked.
\<close>

section \<open>The life of the program\<close>

text \<open>
  \<open>RegisterServer\<close> gives a message to the server of its protocol; both serve the two services. A life
  is a sequence of requests of any kind, each through the interceptor, after a start that went well;
  the log is what the logger of the start writes of the lines of the start, of the requests, and of
  the goroutines beside them (serving, shutdown, the streaming server), which have no request id.
\<close>

definition RegisterServer :: "deps \<Rightarrow> message \<Rightarrow> go_context \<Rightarrow> response res prog" where
  "RegisterServer D m ctx = (case m_protocol m of V1 \<Rightarrow> v1_call D (m_request m) | V1alpha2 \<Rightarrow> v1alpha2_call D (m_request m))"

definition beside_line :: "log_line \<Rightarrow> bool" where
  "beside_line l \<longleftrightarrow>
     ll_level l = Info \<and> ll_template l \<in> {''starting of portoshim serving'', ''portoshim is serving...'',
       ''portoshim is shutting down'', ''portoshim is shut down''} \<and> ll_args l = []
     \<or> ll_level l = Warn \<and> ll_template l \<in> {''failed to start streaming server: %v'', ''cannot copy %s: %v'', ''failed to wait %s: %v''}"

inductive life :: "zap_logger \<Rightarrow> log_line list \<Rightarrow> world \<Rightarrow> world \<Rightarrow> log_line list \<Rightarrow> bool" for lg start w0 where
  Started: "life lg start w0 w0 (written_by lg start)"
| Request: "life lg start w0 w log \<Longrightarrow> r < 2 ^ 32
    \<Longrightarrow> run_state (intercepted E r ms ctx m (RegisterServer D m)) w = ((v, lines), w')
    \<Longrightarrow> life lg start w0 w' (log @ written_by lg lines)"
| Beside: "life lg start w0 w log \<Longrightarrow> beside_line l \<Longrightarrow> life lg start w0 w (log @ written_by lg [l])"

lemma life_later: "life lg start w0 w log \<Longrightarrow> later w0 w"
proof (induction rule: life.induct)
  case (Request w log r E ms ctx m D v lines w')
  have "run_state (serverInterceptor E (RegisterServer D m (connected_context r ctx))) w = (v, w')"
    using intercepted_erased [OF Request.hyps(3)] by blast
  with Request.IH show ?case
    by (cases "m_protocol m") (auto simp: RegisterServer_def intro: later_v1 later_v1alpha2)
qed (rule later_refl, assumption)

definition after_start :: "log_line \<Rightarrow> bool" where
  "after_start l \<longleftrightarrow> (\<exists>r < 2 ^ 32. of_request r l) \<or> beside_line l"

lemma life_log:
  "life lg start w0 w log \<Longrightarrow> \<exists>rest. log = written_by lg start @ rest
     \<and> (\<forall>l \<in> set rest. severity (zl_level lg) \<le> severity (ll_level l) \<and> after_start l)"
proof (induction rule: life.induct)
  case (Request w log r E ms ctx m D v lines w')
  from Request.IH obtain rest where rest: "log = written_by lg start @ rest"
    "\<forall>l \<in> set rest. severity (zl_level lg) \<le> severity (ll_level l) \<and> after_start l" by blast
  have "\<forall>l \<in> set (written_by lg lines). severity (zl_level lg) \<le> severity (ll_level l) \<and> after_start l"
    using intercepted_erased [OF Request.hyps(3)] Request.hyps(2) by (auto simp: written_by_def after_start_def)
  with rest show ?case by (intro exI [of _ "rest @ written_by lg lines"]) auto
next
  case (Beside w log l)
  then obtain rest where rest: "log = written_by lg start @ rest"
    "\<forall>l \<in> set rest. severity (zl_level lg) \<le> severity (ll_level l) \<and> after_start l" by blast
  with Beside.hyps(2) show ?case
    by (intro exI [of _ "rest @ written_by lg [l]"]) (auto simp: written_by_def after_start_def)
qed simp


text \<open>The start with a registry whose token is in a file, and a request for the version.\<close>

lemma version_logged:
  "\<exists>v w' rest. run_state (intercepted base_env 239 0 [] \<lparr>m_protocol = V1alpha2, m_request = ReqVersion ''v1'', m_username = ''me''\<rparr>
       handler) w
     = ((v, \<lparr>ll_level = Info, ll_template = (''['' @ hex08 239 @ ''] '') @ ''%s'', ll_args = [ArgText ''/runtime.v1alpha2.RuntimeService/Version'']\<rparr> # rest), w')"
proof -
  let ?m = "\<lparr>m_protocol = V1alpha2, m_request = ReqVersion ''v1'', m_username = ''me''\<rparr>"
  let ?c = "connected_context 239 []"
  have "FullMethod ?m = ''/runtime.v1alpha2.RuntimeService/Version''" by (simp add: FullMethod_def)
  then have lines: "\<exists>l. request_log ?c ?m = Ok [\<lparr>ll_level = Info, ll_template = (''['' @ hex08 239 @ ''] '') @ ''%s'',
      ll_args = [ArgText ''/runtime.v1alpha2.RuntimeService/Version'']\<rparr>, l]"
    using request_log_other [of ?m 239 "[]"] by simp
  obtain w1 where d: "run_state (portoClientContext base_env) w = (Ok (), w1)"
    by (simp add: portoClientContext_def run_simps base_defs)
  obtain h w2 where h: "run_state (handler ?c) w1 = (h, w2)" by (rule prod.exhaust)
  obtain l1 where l1: "response_log ?c ?m (case h of Ok v \<Rightarrow> Some v | _ \<Rightarrow> None) (case h of Err e \<Rightarrow> Some e | _ \<Rightarrow> None) 0 = Ok l1"
    using response_log_ok by blast
  show ?thesis using lines d h l1
    by (cases h) (auto simp: intercepted_def run_simps Let_def)
qed


end
